(* ===== verification/Prelude.thy ===== *)
theory Prelude
  imports Main "HOL-Library.State_Monad" "HOL-Library.Word" "HOL-Library.Sublist"
    "HOL-Library.Char_ord" "HOL-Library.List_Lexorder"
begin

text \<open>
  What every component shares: Go's \<open>error\<close> values as a datatype with the standard library's
  classification functions (\<open>os.IsNotExist\<close>, \<open>os.IsExist\<close>, \<open>errors.Is\<close>, \<open>errors.Join\<close>), the two
  control-flow combinators \<open>attempt\<close> and \<open>check\<close> that render the \<open>if err != nil { return ... }\<close>
  idiom over the library's state monad, a weakest-precondition reading of programs, and a
  locale of effect relations (\<open>effect\<close>) whose rules push a frame or an invariant through a
  program one construct at a time.
\<close>

named_theorems wp_simps and eff_intros and err_simps

type_synonym i64 = "64 word"

section \<open>Go errors\<close>

text \<open>
  \<open>EIO\<close> stands for every failure of a system call that the code does not classify
  (I/O errors, permissions). \<open>Text\<close> is \<open>errors.New\<close> or a \<open>fmt.Errorf\<close> without \<open>%w\<close>;
  \<open>Wrapped\<close> is \<open>fmt.Errorf\<close> with \<open>%w\<close>; \<open>StorageError\<close> is \<open>*storage.Error\<close> with its code,
  operation, path and cause; \<open>RemoteError\<close> is the \<open>*v2.Error\<close> of a response; \<open>Joined\<close> is \<open>errors.Join\<close>.
\<close>

datatype err =
    ENOENT | EEXIST | ENOTEMPTY | ENOTDIR | EISDIR | EINVAL | ENOTSUP | EIO
  | Cancelled | UnexpectedEOF | DecodeError
  | ErrInvalidInput | ErrParentConflict | ErrStorageUnavailable | ErrOwnershipMismatch
  | ErrBrokerUnavailable | ErrCoWUnavailable
  | Text string
  | Wrapped string err
  | StorageError string string string "err option"
  | RemoteError string string "err option"
  | Joined "err list"

definition IsNotExist :: "err \<Rightarrow> bool" where
  "IsNotExist e \<longleftrightarrow> e = ENOENT"

definition IsExist :: "err \<Rightarrow> bool" where
  "IsExist e \<longleftrightarrow> e = EEXIST \<or> e = ENOTEMPTY"

fun err_is :: "err \<Rightarrow> err \<Rightarrow> bool" where
  "err_is (Wrapped s e) t = (Wrapped s e = t \<or> err_is e t)"
| "err_is (StorageError c o' p (Some e)) t = (StorageError c o' p (Some e) = t \<or> err_is e t)"
| "err_is (Joined es) t = (Joined es = t \<or> list_ex (\<lambda>e. err_is e t) es)"
| "err_is e t = (e = t)"

text \<open>\<open>errors.As(err, &value)\<close> for \<open>*storage.Error\<close>: its code, depth first.\<close>

fun storage_code :: "err \<Rightarrow> string option" where
  "storage_code (StorageError c o' p ce) = Some c"
| "storage_code (Wrapped s e) = storage_code e"
| "storage_code (Joined es) =
     (case filter (\<lambda>c. c \<noteq> None) (map storage_code es) of [] \<Rightarrow> None | c # _ \<Rightarrow> c)"
| "storage_code _ = None"

text \<open>\<open>errors.Join\<close>: nil when every argument is nil.\<close>

fun somes :: "'a option list \<Rightarrow> 'a list" where
  "somes [] = []"
| "somes (None # xs) = somes xs"
| "somes (Some x # xs) = x # somes xs"

definition join_errs :: "err option list \<Rightarrow> err option" where
  "join_errs es = (case somes es of [] \<Rightarrow> None | xs \<Rightarrow> Some (Joined xs))"

lemma somes_Nil_iff: "somes es = [] \<longleftrightarrow> (\<forall>e \<in> set es. e = None)"
  by (induction es rule: somes.induct) auto

lemma join_errs_None_iff [simp]: "join_errs es = None \<longleftrightarrow> (\<forall>e \<in> set es. e = None)"
  by (simp add: join_errs_def somes_Nil_iff [symmetric] split: list.split)

lemma IsNotExist_simps [simp]:
  "IsNotExist ENOENT" "\<not> IsNotExist EIO" "\<not> IsNotExist EEXIST" "\<not> IsNotExist ENOTDIR"
  "\<not> IsNotExist ENOTEMPTY" "\<not> IsNotExist (Text s)" "\<not> IsNotExist (Joined es)"
  "\<not> IsNotExist (Wrapped s e)" "\<not> IsNotExist (StorageError c o' p ce)" "\<not> IsNotExist DecodeError"
  by (simp_all add: IsNotExist_def)

section \<open>Programs\<close>

text \<open>
  A Go function that reads or changes state is a value of the library's state monad. A
  result \<open>(T, error)\<close> is \<open>err + T\<close>, a lone \<open>error\<close> is \<open>err option\<close> (nil is \<open>None\<close>).
\<close>

abbreviation ret :: "'a \<Rightarrow> ('w, 'a) state" where
  "ret \<equiv> State_Monad.return"

abbreviation skip :: "('w, unit) state" where
  "skip \<equiv> State_Monad.return ()"

definition modify :: "('w \<Rightarrow> 'w) \<Rightarrow> ('w, unit) state" where
  "modify f = State (\<lambda>w. ((), f w))"

definition gets :: "('w \<Rightarrow> 'a) \<Rightarrow> ('w, 'a) state" where
  "gets f = State (\<lambda>w. (f w, w))"

definition attempt ::
  "('w, err + 'a) state \<Rightarrow> (err \<Rightarrow> ('w, 'b) state) \<Rightarrow> ('a \<Rightarrow> ('w, 'b) state) \<Rightarrow> ('w, 'b) state"
where
  "attempt m h k = do { r \<leftarrow> m; (case r of Inl e \<Rightarrow> h e | Inr x \<Rightarrow> k x) }"

definition check ::
  "('w, err option) state \<Rightarrow> (err \<Rightarrow> ('w, 'b) state) \<Rightarrow> ('w, 'b) state \<Rightarrow> ('w, 'b) state"
where
  "check m h k = do { r \<leftarrow> m; (case r of Some e \<Rightarrow> h e | None \<Rightarrow> k) }"

text \<open>A statement whose error is discarded: \<open>_ = f()\<close>.\<close>

definition ignore :: "('w, 'a) state \<Rightarrow> ('w, 'b) state \<Rightarrow> ('w, 'b) state" where
  "ignore m k = do { _ \<leftarrow> m; k }"

lemma run_modify [simp]: "run_state (modify f) w = ((), f w)"
  by (simp add: modify_def)

lemma run_gets [simp]: "run_state (gets f) w = (f w, w)"
  by (simp add: gets_def)

lemma run_attempt:
  "run_state (attempt m h k) w =
     (case run_state m w of (Inl e, w') \<Rightarrow> run_state (h e) w' | (Inr x, w') \<Rightarrow> run_state (k x) w')"
  by (simp add: attempt_def split: prod.splits sum.splits)

lemma run_check:
  "run_state (check m h k) w =
     (case run_state m w of (Some e, w') \<Rightarrow> run_state (h e) w' | (None, w') \<Rightarrow> run_state k w')"
  by (simp add: check_def split: prod.splits option.splits)

lemma run_ignore: "run_state (ignore m k) w = run_state k (snd (run_state m w))"
  by (simp add: ignore_def split: prod.splits)

section \<open>Weakest preconditions\<close>

definition wp :: "('w, 'a) state \<Rightarrow> ('a \<Rightarrow> 'w \<Rightarrow> bool) \<Rightarrow> 'w \<Rightarrow> bool" where
  "wp m Q w \<longleftrightarrow> (case run_state m w of (r, w') \<Rightarrow> Q r w')"

lemma wp_ret [wp_simps]: "wp (ret x) Q w = Q x w"
  by (simp add: wp_def)

lemma wp_bind [wp_simps]: "wp (State_Monad.bind m k) Q w = wp m (\<lambda>r w'. wp (k r) Q w') w"
  by (simp add: wp_def split: prod.splits)

lemma wp_modify [wp_simps]: "wp (modify f) Q w = Q () (f w)"
  by (simp add: wp_def)

lemma wp_gets [wp_simps]: "wp (gets f) Q w = Q (f w) w"
  by (simp add: wp_def)

lemma wp_attempt [wp_simps]:
  "wp (attempt m h k) Q w =
     wp m (\<lambda>r w'. case r of Inl e \<Rightarrow> wp (h e) Q w' | Inr x \<Rightarrow> wp (k x) Q w') w"
  by (auto simp: wp_def run_attempt split: prod.splits sum.splits)

lemma wp_check [wp_simps]:
  "wp (check m h k) Q w =
     wp m (\<lambda>r w'. case r of Some e \<Rightarrow> wp (h e) Q w' | None \<Rightarrow> wp k Q w') w"
  by (auto simp: wp_def run_check split: prod.splits option.splits)

lemma wp_ignore [wp_simps]: "wp (ignore m k) Q w = wp m (\<lambda>_ w'. wp k Q w') w"
  by (simp add: wp_def run_ignore split: prod.splits)

lemma wp_if [wp_simps]: "wp (if b then m else n) Q w = (if b then wp m Q w else wp n Q w)"
  by simp

lemma wp_True [simp]: "wp m (\<lambda>_ _. True) w"
  by (simp add: wp_def split: prod.splits)

lemma wp_mono: "wp m P w \<Longrightarrow> (\<And>r w'. P r w' \<Longrightarrow> Q r w') \<Longrightarrow> wp m Q w"
  by (auto simp: wp_def split: prod.splits)

lemma wp_conj: "wp m P w \<Longrightarrow> wp m Q w \<Longrightarrow> wp m (\<lambda>r w'. P r w' \<and> Q r w') w"
  by (auto simp: wp_def split: prod.splits)

lemma wp_runD: "wp m Q w \<Longrightarrow> run_state m w = (r, w') \<Longrightarrow> Q r w'"
  by (simp add: wp_def)

lemma wpI: "(\<And>r w'. run_state m w = (r, w') \<Longrightarrow> Q r w') \<Longrightarrow> wp m Q w"
  by (simp add: wp_def split: prod.splits)

text \<open>The same rules with an intermediate assertion, for stepping through a program.\<close>

lemma wp_bindI: "wp m P w \<Longrightarrow> (\<And>x v. P x v \<Longrightarrow> wp (k x) Q v) \<Longrightarrow> wp (State_Monad.bind m k) Q w"
  unfolding wp_bind by (erule wp_mono)

lemma wp_attemptI:
  assumes "wp m P w" and "\<And>e v. P (Inl e) v \<Longrightarrow> wp (h e) Q v"
    and "\<And>x v. P (Inr x) v \<Longrightarrow> wp (k x) Q v"
  shows "wp (attempt m h k) Q w"
  unfolding wp_attempt by (rule wp_mono [OF assms(1)]) (auto split: sum.splits intro: assms)

lemma wp_checkI:
  assumes "wp m P w" and "\<And>e v. P (Some e) v \<Longrightarrow> wp (h e) Q v"
    and "\<And>v. P None v \<Longrightarrow> wp k Q v"
  shows "wp (check m h k) Q w"
  unfolding wp_check by (rule wp_mono [OF assms(1)]) (auto split: option.splits intro: assms)

lemma wp_ignoreI: "wp m P w \<Longrightarrow> (\<And>x v. P x v \<Longrightarrow> wp k Q v) \<Longrightarrow> wp (ignore m k) Q w"
  unfolding wp_ignore by (erule wp_mono)

section \<open>Effects: a preorder on states pushed through programs\<close>

text \<open>
  \<open>achieves R Q m\<close>: every run of \<open>m\<close> relates the states before and after by \<open>R\<close> and
  returns a value with \<open>Q\<close>. The locale holds the rules for an \<open>R\<close> that is a preorder; a
  frame condition (what a program may write) and an invariant are both such relations.
\<close>

definition achieves :: "('w \<Rightarrow> 'w \<Rightarrow> bool) \<Rightarrow> ('a \<Rightarrow> bool) \<Rightarrow> ('w, 'a) state \<Rightarrow> bool" where
  "achieves R Q m \<longleftrightarrow> (\<forall>w. R w (snd (run_state m w)) \<and> Q (fst (run_state m w)))"

lemma achievesI:
  "(\<And>w r w'. run_state m w = (r, w') \<Longrightarrow> R w w' \<and> Q r) \<Longrightarrow> achieves R Q m"
  by (metis achieves_def prod.collapse)

lemma achievesD: "achieves R Q m \<Longrightarrow> run_state m w = (r, w') \<Longrightarrow> R w w' \<and> Q r"
  by (metis achieves_def fst_conv snd_conv)

lemma achieves_snd: "achieves R Q m \<Longrightarrow> R w (snd (run_state m w))"
  by (simp add: achieves_def)

lemma achieves_weaken: "achieves R Q m \<Longrightarrow> (\<And>r. Q r \<Longrightarrow> Q' r) \<Longrightarrow> achieves R Q' m"
  by (simp add: achieves_def)

lemma achieves_rel_mono: "achieves R Q m \<Longrightarrow> (\<And>v w. R v w \<Longrightarrow> R' v w) \<Longrightarrow> achieves R' Q m"
  by (simp add: achieves_def)

lemma achieves_wp: "achieves R Q m \<Longrightarrow> wp m (\<lambda>r w'. R w w' \<and> Q r) w"
  by (auto simp: wp_def dest: achievesD split: prod.splits)

lemma achieves_if_wp: "(\<And>w. wp m (\<lambda>r w'. R w w' \<and> Q r) w) \<Longrightarrow> achieves R Q m"
  by (rule achievesI) (auto dest: wp_runD)

abbreviation keeps :: "('w \<Rightarrow> 'w \<Rightarrow> bool) \<Rightarrow> ('w, 'a) state \<Rightarrow> bool" where
  "keeps R \<equiv> achieves R (\<lambda>_. True)"

lemma keeps_if_achieves: "achieves R Q m \<Longrightarrow> keeps R m"
  by (simp add: achieves_def)

text \<open>Stepping over a call of which nothing is needed, or only that it keeps an assertion.\<close>

lemma wp_skip:
  "(\<And>x v. wp (k x) Q v) \<Longrightarrow> wp (State_Monad.bind m k) Q w"
  "(\<And>e v. wp (h e) Q v) \<Longrightarrow> (\<And>v. wp k' Q v) \<Longrightarrow> wp (check m' h k') Q w"
  "(\<And>e v. wp (h e) Q v) \<Longrightarrow> (\<And>x v. wp (k x) Q v) \<Longrightarrow> wp (attempt m'' h k) Q w"
  by (rule wp_bindI wp_checkI wp_attemptI, rule wp_True, blast+)+

lemma wp_carry:
  assumes "wp m (\<lambda>_. I) w"
  shows "(\<And>x v. I v \<Longrightarrow> wp (k x) Q v) \<Longrightarrow> wp (State_Monad.bind m k) Q w"
  by (rule wp_bindI [OF assms])

locale effect =
  fixes R :: "'w \<Rightarrow> 'w \<Rightarrow> bool"
  assumes eff_refl: "R w w"
    and eff_trans: "R u v \<Longrightarrow> R v w \<Longrightarrow> R u w"
begin

lemma on_ret: "Q x \<Longrightarrow> achieves R Q (ret x)"
  by (simp add: achieves_def eff_refl)

lemma on_gets: "(\<And>w. Q (f w)) \<Longrightarrow> achieves R Q (gets f)"
  by (simp add: achieves_def eff_refl)

lemma on_modify: "(\<And>w. R w (f w)) \<Longrightarrow> keeps R (modify f)"
  by (simp add: achieves_def)

lemma on_bind:
  assumes m: "achieves R P m" and k: "\<And>x. P x \<Longrightarrow> achieves R Q (k x)"
  shows "achieves R Q (State_Monad.bind m k)"
proof (rule achievesI)
  fix w r w'
  assume run: "run_state (State_Monad.bind m k) w = (r, w')"
  obtain x v where x: "run_state m w = (x, v)" by fastforce
  from achievesD [OF m x] have "R w v" "P x" by auto
  moreover from run x have "run_state (k x) v = (r, w')" by simp
  ultimately show "R w w' \<and> Q r"
    using achievesD [OF k] eff_trans by blast
qed

lemma on_attempt:
  assumes "achieves R P m"
    and "\<And>e. P (Inl e) \<Longrightarrow> achieves R Q (h e)"
    and "\<And>x. P (Inr x) \<Longrightarrow> achieves R Q (k x)"
  shows "achieves R Q (attempt m h k)"
  unfolding attempt_def
  by (rule on_bind [OF assms(1)]) (auto split: sum.splits intro: assms)

lemma on_check:
  assumes "achieves R P m"
    and "\<And>e. P (Some e) \<Longrightarrow> achieves R Q (h e)"
    and "P None \<Longrightarrow> achieves R Q k"
  shows "achieves R Q (check m h k)"
  unfolding check_def
  by (rule on_bind [OF assms(1)]) (auto split: option.splits intro: assms)

lemma on_ignore:
  assumes "achieves R P m" and "achieves R Q k"
  shows "achieves R Q (ignore m k)"
  unfolding ignore_def by (rule on_bind [OF assms(1)]) (rule assms(2))

text \<open>The rules without an intermediate assertion, which need no instantiation.\<close>

lemma then_bind:
  "keeps R m \<Longrightarrow> (\<And>x. achieves R Q (k x)) \<Longrightarrow> achieves R Q (State_Monad.bind m k)"
  by (rule on_bind)

lemma then_attempt:
  "keeps R m \<Longrightarrow> (\<And>e. achieves R Q (h e)) \<Longrightarrow> (\<And>x. achieves R Q (k x)) \<Longrightarrow>
   achieves R Q (attempt m h k)"
  by (rule on_attempt)

lemma then_check:
  "keeps R m \<Longrightarrow> (\<And>e. achieves R Q (h e)) \<Longrightarrow> achieves R Q k \<Longrightarrow> achieves R Q (check m h k)"
  by (rule on_check)

lemma then_ignore: "keeps R m \<Longrightarrow> achieves R Q k \<Longrightarrow> achieves R Q (ignore m k)"
  by (rule on_ignore)

lemmas on_control = on_ret on_gets on_modify then_bind then_attempt then_check then_ignore

end

lemma achieves_if [eff_intros]:
  "(b \<Longrightarrow> achieves R Q m) \<Longrightarrow> (\<not> b \<Longrightarrow> achieves R Q n) \<Longrightarrow> achieves R Q (if b then m else n)"
  by simp

lemma achieves_case_option [eff_intros]:
  "(x = None \<Longrightarrow> achieves R Q m) \<Longrightarrow> (\<And>y. x = Some y \<Longrightarrow> achieves R Q (k y)) \<Longrightarrow>
   achieves R Q (case x of None \<Rightarrow> m | Some y \<Rightarrow> k y)"
  by (cases x) simp_all

lemma achieves_case_sum [eff_intros]:
  "(\<And>e. x = Inl e \<Longrightarrow> achieves R Q (h e)) \<Longrightarrow> (\<And>y. x = Inr y \<Longrightarrow> achieves R Q (k y)) \<Longrightarrow>
   achieves R Q (case x of Inl e \<Rightarrow> h e | Inr y \<Rightarrow> k y)"
  by (cases x) simp_all

lemma achieves_case_prod [eff_intros]:
  "(\<And>a b. x = (a, b) \<Longrightarrow> achieves R Q (k a b)) \<Longrightarrow> achieves R Q (case x of (a, b) \<Rightarrow> k a b)"
  by (cases x) simp

lemma achieves_let [eff_intros]: "achieves R Q (k x) \<Longrightarrow> achieves R Q (let y = x in k y)"
  by simp

section \<open>Invariants\<close>

text \<open>
  \<open>guards I R Q m\<close>: from every state with \<open>I\<close>, \<open>m\<close> ends in a state with \<open>I\<close>, related by \<open>R\<close>
  to the first, and returns a value with \<open>Q\<close>.
\<close>

definition guards ::
  "('w \<Rightarrow> bool) \<Rightarrow> ('w \<Rightarrow> 'w \<Rightarrow> bool) \<Rightarrow> ('a \<Rightarrow> bool) \<Rightarrow> ('w, 'a) state \<Rightarrow> bool"
where
  "guards I R Q m \<longleftrightarrow> (\<forall>w. I w \<longrightarrow> wp m (\<lambda>r v. I v \<and> R w v \<and> Q r) w)"

lemma guardsI: "(\<And>w. I w \<Longrightarrow> wp m (\<lambda>r v. I v \<and> R w v \<and> Q r) w) \<Longrightarrow> guards I R Q m"
  by (simp add: guards_def)

lemma guardsD: "guards I R Q m \<Longrightarrow> I w \<Longrightarrow> wp m (\<lambda>r v. I v \<and> R w v \<and> Q r) w"
  by (simp add: guards_def)

lemma guards_run:
  "guards I R Q m \<Longrightarrow> I w \<Longrightarrow> run_state m w = (r, v) \<Longrightarrow> I v \<and> R w v \<and> Q r"
  by (drule (1) guardsD, drule (1) wp_runD)

abbreviation guarded_by :: "('w \<Rightarrow> bool) \<Rightarrow> ('w \<Rightarrow> 'w \<Rightarrow> bool) \<Rightarrow> ('w, 'a) state \<Rightarrow> bool" where
  "guarded_by I R \<equiv> guards I R (\<lambda>_. True)"

locale invariant_effect = effect R for R :: "'w \<Rightarrow> 'w \<Rightarrow> bool" +
  fixes I :: "'w \<Rightarrow> bool"
begin

lemma inv_ret: "Q x \<Longrightarrow> guards I R Q (ret x)"
  by (simp add: guards_def wp_ret eff_refl)

lemma inv_gets: "(\<And>w. I w \<Longrightarrow> Q (f w)) \<Longrightarrow> guards I R Q (gets f)"
  by (simp add: guards_def wp_gets eff_refl)

lemma inv_modify: "(\<And>w. I w \<Longrightarrow> I (f w) \<and> R w (f w)) \<Longrightarrow> guarded_by I R (modify f)"
  by (simp add: guards_def wp_modify)

lemma inv_bind:
  assumes "guards I R P m" and "\<And>x. P x \<Longrightarrow> guards I R Q (k x)"
  shows "guards I R Q (State_Monad.bind m k)"
proof (rule guardsI)
  fix w assume w: "I w"
  show "wp (State_Monad.bind m k) (\<lambda>r v. I v \<and> R w v \<and> Q r) w"
    by (rule wp_bindI [OF guardsD [OF assms(1) w]])
      (auto intro!: wp_mono [OF guardsD [OF assms(2)]] intro: eff_trans)
qed

lemma inv_attempt:
  assumes "guards I R P m" and "\<And>e. P (Inl e) \<Longrightarrow> guards I R Q (h e)"
    and "\<And>x. P (Inr x) \<Longrightarrow> guards I R Q (k x)"
  shows "guards I R Q (attempt m h k)"
  unfolding attempt_def by (rule inv_bind [OF assms(1)]) (auto split: sum.splits intro: assms)

lemma inv_check:
  assumes "guards I R P m" and "\<And>e. P (Some e) \<Longrightarrow> guards I R Q (h e)"
    and "P None \<Longrightarrow> guards I R Q k"
  shows "guards I R Q (check m h k)"
  unfolding check_def by (rule inv_bind [OF assms(1)]) (auto split: option.splits intro: assms)

lemma inv_ignore: "guarded_by I R m \<Longrightarrow> guards I R Q k \<Longrightarrow> guards I R Q (ignore m k)"
  unfolding ignore_def by (rule inv_bind)

lemma inv_then_bind:
  "guarded_by I R m \<Longrightarrow> (\<And>x. guards I R Q (k x)) \<Longrightarrow> guards I R Q (State_Monad.bind m k)"
  by (rule inv_bind)

lemma inv_then_attempt:
  "guarded_by I R m \<Longrightarrow> (\<And>e. guards I R Q (h e)) \<Longrightarrow> (\<And>x. guards I R Q (k x)) \<Longrightarrow>
   guards I R Q (attempt m h k)"
  by (rule inv_attempt)

lemma inv_then_check:
  "guarded_by I R m \<Longrightarrow> (\<And>e. guards I R Q (h e)) \<Longrightarrow> guards I R Q k \<Longrightarrow> guards I R Q (check m h k)"
  by (rule inv_check)

lemmas inv_control = inv_ret inv_gets inv_modify inv_then_bind inv_then_attempt inv_then_check
  inv_ignore

end

named_theorems inv_intros

lemma guards_if [inv_intros]:
  "(b \<Longrightarrow> guards I R Q m) \<Longrightarrow> (\<not> b \<Longrightarrow> guards I R Q n) \<Longrightarrow> guards I R Q (if b then m else n)"
  by simp

lemma guards_case_option [inv_intros]:
  "(x = None \<Longrightarrow> guards I R Q m) \<Longrightarrow> (\<And>y. x = Some y \<Longrightarrow> guards I R Q (k y)) \<Longrightarrow>
   guards I R Q (case x of None \<Rightarrow> m | Some y \<Rightarrow> k y)"
  by (cases x) simp_all

lemma guards_case_sum [inv_intros]:
  "(\<And>e. x = Inl e \<Longrightarrow> guards I R Q (h e)) \<Longrightarrow> (\<And>y. x = Inr y \<Longrightarrow> guards I R Q (k y)) \<Longrightarrow>
   guards I R Q (case x of Inl e \<Rightarrow> h e | Inr y \<Rightarrow> k y)"
  by (cases x) simp_all

lemma guards_case_prod [inv_intros]:
  "(\<And>a b. x = (a, b) \<Longrightarrow> guards I R Q (k a b)) \<Longrightarrow> guards I R Q (case x of (a, b) \<Rightarrow> k a b)"
  by (cases x) simp

lemma guards_let [inv_intros]: "guards I R Q (k x) \<Longrightarrow> guards I R Q (let y = x in k y)"
  by simp

end
