(* ===== verification/Go_Path.thy ===== *)
theory Go_Path
  imports Prelude
begin

text \<open>
  The parts of Go's \<open>strings\<close>, \<open>regexp\<close> and \<open>path/filepath\<close> (Unix separators) that the program
  uses, on byte strings, and the confinement facts the rest of the development rests on: a
  path joined from a root and validated identifiers has exactly the root's components
  followed by the identifiers, and \<open>pathWithin\<close> holds exactly below its root.
\<close>

section \<open>Strings\<close>

definition HasPrefix :: "string \<Rightarrow> string \<Rightarrow> bool" where
  "HasPrefix s p = prefix p s"

definition TrimSuffix :: "string \<Rightarrow> string \<Rightarrow> string" where
  "TrimSuffix s x = (if suffix x s then take (length s - length x) s else s)"

text \<open>\<open>strings.TrimSpace\<close>: strings are UTF-8 bytes; \<open>spaces\<close> are the encoded white-space runes.\<close>

definition spaces :: "string list" where
  "spaces = map (\<lambda>c. [c]) ([CHR '' '', CHR 0x09, CHR 0x0A, CHR 0x0B, CHR 0x0C, CHR 0x0D]) @
     [[CHR 0xC2, CHR 0x85], [CHR 0xC2, CHR 0xA0], [CHR 0xE1, CHR 0x9A, CHR 0x80],
      [CHR 0xE2, CHR 0x80, CHR 0xA8], [CHR 0xE2, CHR 0x80, CHR 0xA9], [CHR 0xE2, CHR 0x80, CHR 0xAF],
      [CHR 0xE2, CHR 0x81, CHR 0x9F], [CHR 0xE3, CHR 0x80, CHR 0x80]] @
     map (\<lambda>k. [CHR 0xE2, CHR 0x80, char_of (0x80 + k :: nat)]) [0..<11]"

function trim_front :: "string list \<Rightarrow> string \<Rightarrow> string" where
  "trim_front ps s = (case find (\<lambda>p. p \<noteq> [] \<and> prefix p s) ps of
     None \<Rightarrow> s | Some p \<Rightarrow> trim_front ps (drop (length p) s))"
  by auto
termination
  by (relation "measure (\<lambda>(ps, s). length s)")
    (auto simp: find_Some_iff prefix_def)

declare trim_front.simps [simp del]

definition TrimSpace :: "string \<Rightarrow> string" where
  "TrimSpace s = rev (trim_front (map rev spaces) (rev (trim_front spaces s)))"

definition ascii_between :: "char \<Rightarrow> char \<Rightarrow> char \<Rightarrow> bool" where
  "ascii_between lo hi c \<longleftrightarrow> lo \<le> c \<and> c \<le> hi"

definition lower_char :: "char \<Rightarrow> char" where
  "lower_char c =
     (if ascii_between (CHR ''A'') (CHR ''Z'') c then char_of ((of_char c :: nat) + 32) else c)"

definition ToLower :: "string \<Rightarrow> string" where
  "ToLower s = map lower_char s"

text \<open>
  \<open>strings.EqualFold\<close>. Beside the letters' case, the Kelvin sign folds to \<open>k\<close> and the long s to
  \<open>s\<close>; no other rune folds to an ASCII letter. The comparisons of the program have a constant
  of ASCII letters or a Windows identifier on one side.
\<close>

fun fold_case :: "string \<Rightarrow> string" where
  "fold_case [] = []"
| "fold_case (a # b # d # s) =
     (if [a, b, d] = [CHR 0xE2, CHR 0x84, CHR 0xAA] then CHR ''k'' # fold_case s
      else if [a, b] = [CHR 0xC5, CHR 0xBF] then CHR ''s'' # fold_case (d # s)
      else lower_char a # fold_case (b # d # s))"
| "fold_case (a # s) =
     (if a # s = [CHR 0xC5, CHR 0xBF] then ''s'' else lower_char a # fold_case s)"

definition EqualFold :: "string \<Rightarrow> string \<Rightarrow> bool" where
  "EqualFold s t \<longleftrightarrow> fold_case s = fold_case t"

fun Contains :: "string \<Rightarrow> string \<Rightarrow> bool" where
  "Contains [] p = (p = [])"
| "Contains (c # s) p = (prefix p (c # s) \<or> Contains s p)"

text \<open>The regular expressions \<open>^[A-Za-z0-9][A-Za-z0-9._-]{0,127}$\<close> and \<open>^[a-f0-9]{64}$\<close>.\<close>

definition alnum :: "char \<Rightarrow> bool" where
  "alnum c \<longleftrightarrow> ascii_between (CHR ''A'') (CHR ''Z'') c \<or> ascii_between (CHR ''a'') (CHR ''z'') c
     \<or> ascii_between (CHR ''0'') (CHR ''9'') c"

definition ident_char :: "char \<Rightarrow> bool" where
  "ident_char c \<longleftrightarrow> alnum c \<or> c = CHR ''.'' \<or> c = CHR ''_'' \<or> c = CHR ''-''"

definition is_identifier :: "string \<Rightarrow> bool" where
  "is_identifier s = (case s of [] \<Rightarrow> False
     | c # cs \<Rightarrow> alnum c \<and> length cs \<le> 127 \<and> list_all ident_char cs)"

definition hex_char :: "char \<Rightarrow> bool" where
  "hex_char c \<longleftrightarrow> ascii_between (CHR ''a'') (CHR ''f'') c \<or> ascii_between (CHR ''0'') (CHR ''9'') c"

definition compatibility :: "string \<Rightarrow> bool" where
  "compatibility s \<longleftrightarrow> length s = 64 \<and> list_all hex_char s"

text \<open>\<open>hex.EncodeToString\<close>.\<close>

definition hex_digit :: "nat \<Rightarrow> char" where
  "hex_digit n = ''0123456789abcdef'' ! (n mod 16)"

definition hex_byte :: "char \<Rightarrow> string" where
  "hex_byte c = [hex_digit (of_char c div 16), hex_digit (of_char c mod 16)]"

definition hex_encode :: "string \<Rightarrow> string" where
  "hex_encode s = concat (map hex_byte s)"

lemma length_hex_encode [simp]: "length (hex_encode s) = 2 * length s"
  by (induction s) (simp_all add: hex_encode_def hex_byte_def)

lemma hex_digit_inj: "hex_digit n = hex_digit m \<Longrightarrow> n mod 16 = m mod 16"
proof -
  have "distinct ''0123456789abcdef''" by simp
  then show "hex_digit n = hex_digit m \<Longrightarrow> n mod 16 = m mod 16"
    unfolding hex_digit_def by (subst (asm) nth_eq_iff_index_eq) simp_all
qed

lemma hex_byte_inj: "hex_byte c = hex_byte d \<Longrightarrow> c = d"
proof -
  assume "hex_byte c = hex_byte d"
  then have "(of_char c :: nat) div 16 mod 16 = of_char d div 16 mod 16"
    "(of_char c :: nat) mod 16 = of_char d mod 16"
    unfolding hex_byte_def by (auto dest: hex_digit_inj)
  moreover have "(of_char x :: nat) div 16 < 16" for x
    using range_nat_of_char by (auto simp: less_mult_imp_div_less)
  ultimately have "(of_char c :: nat) = of_char d" by (metis div_mod_decomp mod_less)
  then show "c = d" by simp
qed

lemma hex_encode_inj: "hex_encode s = hex_encode t \<Longrightarrow> s = t"
proof (induction s arbitrary: t)
  case Nil
  then show ?case by (cases t) (simp_all add: hex_encode_def hex_byte_def)
next
  case (Cons c s)
  then obtain d t' where t: "t = d # t'" by (cases t) (simp_all add: hex_encode_def hex_byte_def)
  with Cons.prems have "hex_byte c = hex_byte d" "hex_encode s = hex_encode t'"
    by (simp_all add: hex_encode_def hex_byte_def)
  with Cons.IH t hex_byte_inj show ?case by simp
qed

lemma slash_not_alnum [simp]: "\<not> alnum (CHR ''/'')" "\<not> alnum (CHR ''.'')"
  by (simp_all add: alnum_def ascii_between_def)

lemma slash_not_ident_char [simp]: "\<not> ident_char (CHR ''/'')"
  by (simp add: ident_char_def)

lemma hex_digit_hex_char: "hex_char (hex_digit n)"
proof -
  have "hex_digit n \<in> set ''0123456789abcdef''"
    unfolding hex_digit_def by (rule nth_mem) simp
  moreover have "list_all hex_char ''0123456789abcdef''"
    by (simp add: hex_char_def ascii_between_def)
  ultimately show ?thesis unfolding list_all_iff by blast
qed

lemma hex_encode_hex_chars: "list_all hex_char (hex_encode s)"
  by (induction s) (simp_all add: hex_encode_def hex_byte_def hex_digit_hex_char)

lemma hex_char_alnum: "hex_char c \<Longrightarrow> alnum c"
proof -
  have "CHR ''f'' \<le> CHR ''z''" by simp
  then show "hex_char c \<Longrightarrow> alnum c"
    unfolding hex_char_def alnum_def ascii_between_def by (meson order_trans)
qed

lemma hex_char_ident_char: "hex_char c \<Longrightarrow> ident_char c"
  by (simp add: ident_char_def hex_char_alnum)

section \<open>Components of a path\<close>

abbreviation slash :: char where
  "slash \<equiv> CHR ''/''"

fun split_slash :: "string \<Rightarrow> string list" where
  "split_slash [] = [[]]"
| "split_slash (c # cs) =
     (if c = slash then [] # split_slash cs
      else (case split_slash cs of [] \<Rightarrow> [[c]] | x # xs \<Rightarrow> (c # x) # xs))"

fun norm_comps :: "bool \<Rightarrow> string list \<Rightarrow> string list \<Rightarrow> string list" where
  "norm_comps rooted acc [] = rev acc"
| "norm_comps rooted acc (x # xs) =
     (if x = '''' \<or> x = ''.'' then norm_comps rooted acc xs
      else if x = ''..'' then
        (case acc of
           [] \<Rightarrow> norm_comps rooted (if rooted then [] else [''..'']) xs
         | y # ys \<Rightarrow> if y = ''..'' then norm_comps rooted (''..'' # acc) xs
                    else norm_comps rooted ys xs)
      else norm_comps rooted (x # acc) xs)"

definition IsAbs :: "string \<Rightarrow> bool" where
  "IsAbs s = prefix ''/'' s"

definition comps :: "string \<Rightarrow> string list" where
  "comps s = norm_comps (IsAbs s) [] (split_slash s)"

fun intercalate :: "string list \<Rightarrow> string" where
  "intercalate [] = ''''"
| "intercalate [x] = x"
| "intercalate (x # xs) = x @ slash # intercalate xs"

definition render :: "bool \<Rightarrow> string list \<Rightarrow> string" where
  "render rooted cs =
     (if rooted then slash # intercalate cs else if cs = [] then ''.'' else intercalate cs)"

definition Clean :: "string \<Rightarrow> string" where
  "Clean s = render (IsAbs s) (comps s)"

definition Join :: "string list \<Rightarrow> string" where
  "Join es = (case filter (\<lambda>e. e \<noteq> '''') es of [] \<Rightarrow> '''' | xs \<Rightarrow> Clean (intercalate xs))"

text \<open>\<open>filepath.Dir\<close>, \<open>filepath.Base\<close>, \<open>filepath.Ext\<close>.\<close>

definition after_last_slash :: "string \<Rightarrow> string" where
  "after_last_slash s = rev (takeWhile (\<lambda>c. c \<noteq> slash) (rev s))"

definition Dir :: "string \<Rightarrow> string" where
  "Dir s = Clean (take (length s - length (after_last_slash s)) s)"

definition Base :: "string \<Rightarrow> string" where
  "Base s = (if s = '''' then ''.'' else
     let t = rev (dropWhile (\<lambda>c. c = slash) (rev s)) in
     if t = '''' then ''/'' else after_last_slash t)"

definition Ext :: "string \<Rightarrow> string" where
  "Ext s = (let b = after_last_slash s; e = takeWhile (\<lambda>c. c \<noteq> CHR ''.'') (rev b) in
     if length e = length b then '''' else CHR ''.'' # rev e)"

text \<open>\<open>filepath.Rel\<close> on cleaned paths: \<open>None\<close> is its error.\<close>

fun strip_common :: "string list \<Rightarrow> string list \<Rightarrow> string list \<times> string list" where
  "strip_common (x # xs) (y # ys) = (if x = y then strip_common xs ys else (x # xs, y # ys))"
| "strip_common xs ys = (xs, ys)"

definition Rel :: "string \<Rightarrow> string \<Rightarrow> string option" where
  "Rel base target =
     (if IsAbs base \<noteq> IsAbs target then None else
        case strip_common (comps base) (comps target) of (b, t) \<Rightarrow>
          if b \<noteq> [] \<and> hd b = ''..'' then None
          else Some (render False (replicate (length b) ''..'' @ t)))"

definition pathWithin :: "string \<Rightarrow> string \<Rightarrow> bool" where
  "pathWithin root path =
     (case Rel (Clean root) (Clean path) of
        None \<Rightarrow> False
      | Some rel \<Rightarrow> rel \<noteq> ''.'' \<and> rel \<noteq> ''..'' \<and> \<not> HasPrefix rel ''../'')"

definition pathWithinRoot :: "string \<Rightarrow> string \<Rightarrow> bool" where
  "pathWithinRoot root path =
     (if \<not> IsAbs root \<or> \<not> IsAbs path then False else
        case Rel (Clean root) (Clean path) of
          None \<Rightarrow> False
        | Some rel \<Rightarrow>
            if rel = ''.'' \<or> rel = ''..'' \<or> IsAbs rel then False
            else \<not> HasPrefix rel ''../'')"

definition pathWithinOrEqual :: "string \<Rightarrow> string \<Rightarrow> bool" where
  "pathWithinOrEqual root path =
     (if Clean root = Clean path then True else pathWithinRoot root path)"

section \<open>Normal components\<close>

definition proper :: "string \<Rightarrow> bool" where
  "proper x \<longleftrightarrow> x \<noteq> '''' \<and> x \<noteq> ''.'' \<and> x \<noteq> ''..'' \<and> slash \<notin> set x"

lemma split_slash_nonempty [simp]: "split_slash s \<noteq> []"
  by (induction s) (auto split: list.splits)

lemma split_slash_no_slash: "x \<in> set (split_slash s) \<Longrightarrow> slash \<notin> set x"
  by (induction s arbitrary: x) (auto split: list.splits if_splits)

lemma split_slash_single: "slash \<notin> set x \<Longrightarrow> split_slash x = [x]"
  by (induction x) auto

lemma split_slash_append: "split_slash (a @ slash # b) = split_slash a @ split_slash b"
proof (induction a)
  case Nil
  then show ?case by simp
next
  case (Cons c a)
  then show ?case by (auto split: list.splits simp: append_eq_Cons_conv)
qed

lemma norm_comps_append:
  "norm_comps r acc (xs @ ys) = norm_comps r (rev (norm_comps r acc xs)) ys"
  by (induction r acc xs rule: norm_comps.induct) (auto split: list.splits)

lemma norm_comps_proper:
  "list_all proper xs \<Longrightarrow> norm_comps r acc xs = rev acc @ xs"
  by (induction xs arbitrary: acc) (auto simp: proper_def)

lemma norm_comps_rooted:
  "list_all proper acc \<Longrightarrow> \<forall>x \<in> set xs. slash \<notin> set x \<Longrightarrow>
   list_all proper (norm_comps True acc xs)"
proof (induction True acc xs rule: norm_comps.induct)
  case (1 acc)
  then show ?case by (simp add: list_all_iff)
next
  case (2 acc x xs)
  then show ?case
    by (auto split: list.splits simp: proper_def)
qed

lemma comps_proper: "IsAbs s \<Longrightarrow> list_all proper (comps s)"
  by (simp add: comps_def norm_comps_rooted split_slash_no_slash)

lemma split_intercalate:
  "xs \<noteq> [] \<Longrightarrow> \<forall>x \<in> set xs. slash \<notin> set x \<Longrightarrow> split_slash (intercalate xs) = xs"
  by (induction xs rule: intercalate.induct)
    (simp_all add: split_slash_append split_slash_single)

lemma IsAbs_Cons [simp]: "IsAbs (c # s) = (c = slash)"
  by (auto simp: IsAbs_def)

lemma IsAbs_Nil [simp]: "\<not> IsAbs ''''"
  by (simp add: IsAbs_def)

lemma IsAbs_append [simp]: "IsAbs a \<Longrightarrow> IsAbs (a @ b)"
  by (cases a) auto

lemma comps_render_rooted:
  assumes "list_all proper cs"
  shows "comps (render True cs) = cs"
proof (cases "cs = []")
  case True
  then show ?thesis by (simp add: comps_def render_def)
next
  case False
  have "split_slash (intercalate cs) = cs"
    using False assms by (intro split_intercalate) (auto simp: list_all_iff proper_def)
  with assms show ?thesis
    by (simp add: comps_def render_def norm_comps_proper)
qed

lemma IsAbs_Clean [simp]: "IsAbs s \<Longrightarrow> IsAbs (Clean s)"
  by (simp add: Clean_def render_def)

lemma comps_Clean [simp]: "IsAbs s \<Longrightarrow> comps (Clean s) = comps s"
  by (simp add: Clean_def comps_render_rooted comps_proper)

lemma Clean_eq_iff: "IsAbs s \<Longrightarrow> IsAbs t \<Longrightarrow> Clean s = Clean t \<longleftrightarrow> comps s = comps t"
proof
  assume st: "IsAbs s" "IsAbs t" and "Clean s = Clean t"
  then have "comps (Clean s) = comps (Clean t)" by simp
  with st show "comps s = comps t" by simp
qed (simp add: Clean_def)

lemma Clean_idem: "IsAbs s \<Longrightarrow> Clean (Clean s) = Clean s"
  by (simp add: Clean_eq_iff)

lemma intercalate_Cons: "xs \<noteq> [] \<Longrightarrow> intercalate (x # xs) = x @ slash # intercalate xs"
  by (cases xs) auto

lemma Join_abs:
  assumes a: "IsAbs a" and bs: "list_all proper bs"
  shows "IsAbs (Join (a # bs))" and "comps (Join (a # bs)) = comps a @ bs"
proof -
  have a': "a \<noteq> ''''" using a by auto
  have bs': "filter (\<lambda>e. e \<noteq> '''') bs = bs"
    using bs by (simp add: filter_id_conv list_all_iff proper_def)
  have J: "Join (a # bs) = Clean (intercalate (a # bs))"
    using a' bs' by (simp add: Join_def)
  have "IsAbs (intercalate (a # bs))"
    using a by (cases bs) simp_all
  then show "IsAbs (Join (a # bs))"
    by (simp add: J)
  show "comps (Join (a # bs)) = comps a @ bs"
  proof (cases "bs = []")
    case True
    with J a show ?thesis by simp
  next
    case False
    then have i: "intercalate (a # bs) = a @ slash # intercalate bs"
      by (rule intercalate_Cons)
    have s: "split_slash (intercalate bs) = bs"
      using False bs by (intro split_intercalate) (auto simp: list_all_iff proper_def)
    have "comps (intercalate (a # bs)) = norm_comps True [] (split_slash a @ bs)"
      using a by (simp add: i comps_def split_slash_append s)
    also have "\<dots> = comps a @ bs"
      using a by (simp add: norm_comps_append norm_comps_proper [OF bs] comps_def)
    finally show ?thesis
      using J a False by (simp add: i)
  qed
qed

lemmas comps_Join = Join_abs(2) and IsAbs_Join = Join_abs(1)

lemma Join_Clean: "IsAbs a \<Longrightarrow> list_all proper bs \<Longrightarrow> Clean (Join (a # bs)) = Join (a # bs)"
  unfolding Join_def by (auto split: list.splits intro!: Clean_idem simp: filter_eq_Cons_iff)

text \<open>Validated identifiers, with a suffix that has no separator, are proper components.\<close>

lemma identifier_proper_suffix:
  assumes "is_identifier x" and "slash \<notin> set s"
  shows "proper (x @ s)"
proof -
  from assms(1) obtain c cs where x: "x = c # cs" "alnum c" "list_all ident_char cs"
    by (auto simp: is_identifier_def split: list.splits)
  then have "slash \<notin> set cs" by (auto simp: list_all_iff)
  moreover have "c \<noteq> slash" "c \<noteq> CHR ''.''" using x(2) by auto
  ultimately show ?thesis using assms(2) x(1) by (auto simp: proper_def)
qed

lemma identifier_proper [simp]: "is_identifier x \<Longrightarrow> proper x"
  using identifier_proper_suffix [of x "''''"] by simp

lemma compatibility_proper [simp]: "compatibility x \<Longrightarrow> proper x"
proof -
  assume a: "compatibility x"
  then have "list_all hex_char x" "x \<noteq> ''''" "x \<noteq> ''.''" "x \<noteq> ''..''"
    by (auto simp: compatibility_def)
  moreover have "\<not> hex_char slash" by (simp add: hex_char_def ascii_between_def)
  ultimately show "proper x" by (auto simp: proper_def list_all_iff)
qed

section \<open>Confinement\<close>

lemma strip_common_prefix:
  "strip_common xs ys = (b, t) \<Longrightarrow> b = [] \<longleftrightarrow> prefix xs ys"
  by (induction xs ys rule: strip_common.induct) (auto split: if_splits)

lemma strip_common_suffix:
  "strip_common xs ys = (b, t) \<Longrightarrow> set b \<subseteq> set xs \<and> set t \<subseteq> set ys"
  by (induction xs ys rule: strip_common.induct) (auto split: if_splits)

lemma strip_common_Nil: "strip_common xs ys = ([], t) \<Longrightarrow> ys = xs @ t"
  by (induction xs ys rule: strip_common.induct) (auto split: if_splits)

lemma intercalate_dotdot:
  "intercalate (''..'' # xs) = ''..'' \<or> prefix ''../'' (intercalate (''..'' # xs))"
  by (cases xs) auto

lemma intercalate_proper_first:
  assumes "proper x"
  shows "intercalate (x # xs) \<noteq> ''.''" and "intercalate (x # xs) \<noteq> ''..''"
    and "\<not> prefix ''../'' (intercalate (x # xs))" and "\<not> IsAbs (intercalate (x # xs))"
proof -
  obtain c cs where x: "x = c # cs" "c \<noteq> slash" "slash \<notin> set cs"
    using assms by (cases x) (auto simp: proper_def)
  have *: "intercalate (x # xs) = x \<or> (\<exists>y. intercalate (x # xs) = x @ slash # y)"
    by (cases xs) auto
  show "intercalate (x # xs) \<noteq> ''.''" "intercalate (x # xs) \<noteq> ''..''"
    "\<not> IsAbs (intercalate (x # xs))"
    using * assms x by (auto simp: proper_def append_eq_Cons_conv Cons_eq_append_conv)
  show "\<not> prefix ''../'' (intercalate (x # xs))"
    using * assms x
    by (auto simp: proper_def prefix_def append_eq_Cons_conv Cons_eq_append_conv)
qed

text \<open>
  \<open>pathWithin\<close> and \<open>pathWithinRoot\<close> accept exactly the paths strictly below their root.
\<close>

lemma within_iff_strict_prefix:
  assumes "IsAbs root" and "IsAbs path"
  shows "(case Rel (Clean root) (Clean path) of None \<Rightarrow> False
     | Some rel \<Rightarrow> rel \<noteq> ''.'' \<and> rel \<noteq> ''..'' \<and> \<not> IsAbs rel \<and> \<not> HasPrefix rel ''../'')
     \<longleftrightarrow> strict_prefix (comps root) (comps path)"
    and "pathWithin root path \<longleftrightarrow> strict_prefix (comps root) (comps path)"
proof -
  obtain b t where bt: "strip_common (comps root) (comps path) = (b, t)" by fastforce
  have pr: "list_all proper (comps root)" "list_all proper (comps path)"
    using assms by (simp_all add: comps_proper)
  have sets: "set b \<subseteq> set (comps root)" "set t \<subseteq> set (comps path)"
    using strip_common_suffix [OF bt] by auto
  have nodd: "\<not> (b \<noteq> [] \<and> hd b = ''..'')"
    using pr(1) sets(1) by (cases b) (auto simp: list_all_iff proper_def)
  have rel: "Rel (Clean root) (Clean path) = Some (render False (replicate (length b) ''..'' @ t))"
    using assms nodd bt by (simp add: Rel_def)
  have c: "(rel \<noteq> ''.'' \<and> rel \<noteq> ''..'' \<and> \<not> prefix ''../'' rel)
      \<longleftrightarrow> strict_prefix (comps root) (comps path)"
    "b = [] \<and> t \<noteq> [] \<longrightarrow> \<not> IsAbs rel"
    if r: "rel = render False (replicate (length b) ''..'' @ t)" for rel
  proof -
    consider "b = []" "t = []" | x xs where "b = []" "t = x # xs" | y ys where "b = y # ys"
      by (cases b; cases t) auto
    then have "(rel \<noteq> ''.'' \<and> rel \<noteq> ''..'' \<and> \<not> prefix ''../'' rel)
      \<longleftrightarrow> strict_prefix (comps root) (comps path) \<and> (b = [] \<and> t \<noteq> [] \<longrightarrow> \<not> IsAbs rel)"
    proof cases
      case 1
      then show ?thesis using r strip_common_Nil [of "comps root" "comps path" t] bt
        by (simp add: render_def)
    next
      case 2
      then have "proper x" using sets(2) pr(2) by (auto simp: list_all_iff)
      moreover have "comps path = comps root @ x # xs"
        using strip_common_Nil [of "comps root" "comps path" t] bt 2 by simp
      ultimately show ?thesis
        using r 2 intercalate_proper_first [of x xs]
        by (simp add: render_def strict_prefix_def)
    next
      case 3
      then have "\<not> prefix (comps root) (comps path)"
        using strip_common_prefix [OF bt] by simp
      moreover have "rel = ''..'' \<or> prefix ''../'' rel"
        using r 3 intercalate_dotdot by (simp add: render_def)
      ultimately show ?thesis using 3 by (auto simp: strict_prefix_def)
    qed
    moreover have "b = [] \<and> t \<noteq> [] \<longrightarrow> \<not> IsAbs rel"
    proof (intro impI)
      assume *: "b = [] \<and> t \<noteq> []"
      then obtain x xs where "t = x # xs" by (cases t) auto
      moreover from this have "proper x" using sets(2) pr(2) by (auto simp: list_all_iff)
      ultimately show "\<not> IsAbs rel"
        using r * intercalate_proper_first(4) [of x xs] by (simp add: render_def)
    qed
    ultimately show "(rel \<noteq> ''.'' \<and> rel \<noteq> ''..'' \<and> \<not> prefix ''../'' rel)
      \<longleftrightarrow> strict_prefix (comps root) (comps path)"
      "b = [] \<and> t \<noteq> [] \<longrightarrow> \<not> IsAbs rel" by blast+
  qed
  have sp: "strict_prefix (comps root) (comps path) \<Longrightarrow> b = [] \<and> t \<noteq> []"
    using strip_common_prefix [OF bt] strip_common_Nil [of "comps root" "comps path" t] bt
    by (auto simp: strict_prefix_def)
  show "(case Rel (Clean root) (Clean path) of None \<Rightarrow> False
     | Some rel \<Rightarrow> rel \<noteq> ''.'' \<and> rel \<noteq> ''..'' \<and> \<not> IsAbs rel \<and> \<not> HasPrefix rel ''../'')
     \<longleftrightarrow> strict_prefix (comps root) (comps path)"
    using c [OF refl] sp by (auto simp: rel HasPrefix_def)
  show "pathWithin root path \<longleftrightarrow> strict_prefix (comps root) (comps path)"
    using c [OF refl] by (simp add: pathWithin_def rel HasPrefix_def)
qed

lemma pathWithin_iff:
  "IsAbs root \<Longrightarrow> IsAbs path \<Longrightarrow>
   pathWithin root path \<longleftrightarrow> strict_prefix (comps root) (comps path)"
  by (rule within_iff_strict_prefix)

lemma pathWithinRoot_iff:
  "pathWithinRoot root path \<longleftrightarrow>
   IsAbs root \<and> IsAbs path \<and> strict_prefix (comps root) (comps path)"
  using within_iff_strict_prefix(1) [of root path]
  by (auto simp: pathWithinRoot_def split: option.splits if_splits)

lemma pathWithin_Join:
  "IsAbs root \<Longrightarrow> bs \<noteq> [] \<Longrightarrow> list_all proper bs \<Longrightarrow> pathWithin root (Join (root # bs))"
  by (simp add: pathWithin_iff IsAbs_Join comps_Join strict_prefix_def)

section \<open>Directory and base name of a cleaned path\<close>

lemma Join_render:
  "IsAbs a \<Longrightarrow> list_all proper bs \<Longrightarrow> Join (a # bs) = render True (comps a @ bs)"
  using Join_Clean [of a bs] IsAbs_Join [of a bs] comps_Join [of a bs]
  by (metis Clean_def)

lemma intercalate_snoc:
  "intercalate (cs @ [x]) = (if cs = [] then x else intercalate cs @ slash # x)"
  by (induction cs rule: intercalate.induct) auto

lemma takeWhile_rev_no_slash:
  "slash \<notin> set x \<Longrightarrow> rev (takeWhile (\<lambda>c. c \<noteq> slash) (rev (s @ slash # x))) = x"
proof -
  assume "slash \<notin> set x"
  then have "takeWhile (\<lambda>c. c \<noteq> slash) (rev x) = rev x"
    by (simp only: takeWhile_eq_all_conv) auto
  then show ?thesis by (simp add: takeWhile_tail del: takeWhile_eq_all_conv)
qed

lemma render_snoc:
  "render True (cs @ [x]) = (if cs = [] then '''' else slash # intercalate cs) @ slash # x"
  by (simp add: render_def intercalate_snoc)

lemma comps_trailing_slash:
  assumes "s \<noteq> ''''"
  shows "comps (s @ [slash]) = comps s"
proof -
  have "split_slash (s @ [slash]) = split_slash s @ [[]]"
    using split_slash_append [of s "[]"] by simp
  moreover have "IsAbs (s @ [slash]) = IsAbs s"
    using assms by (cases s) auto
  ultimately show ?thesis by (simp add: comps_def norm_comps_append)
qed

lemma Dir_render:
  assumes "list_all proper (cs @ [x])"
  shows "Dir (render True (cs @ [x])) = render True cs"
proof -
  let ?d = "if cs = [] then '''' else slash # intercalate cs"
  have x: "slash \<notin> set x" using assms by (simp add: proper_def)
  have "take (length (render True (cs @ [x])) - length (after_last_slash (render True (cs @ [x]))))
      (render True (cs @ [x])) = ?d @ [slash]"
    unfolding render_snoc after_last_slash_def takeWhile_rev_no_slash [OF x] by simp
  moreover have "Clean (?d @ [slash]) = render True cs"
  proof (cases "cs = []")
    case True
    then show ?thesis by (simp add: Clean_def render_def comps_def)
  next
    case False
    have "comps (render True cs @ [slash]) = comps (render True cs)"
      by (rule comps_trailing_slash) (simp add: render_def)
    also have "\<dots> = cs" using assms by (intro comps_render_rooted) simp
    finally show ?thesis using False by (simp add: Clean_def render_def)
  qed
  ultimately show ?thesis by (simp add: Dir_def)
qed

lemma Base_render:
  assumes "proper x"
  shows "Base (render True (cs @ [x])) = x"
proof -
  have x: "slash \<notin> set x" "x \<noteq> ''''" using assms by (auto simp: proper_def)
  then obtain y c where "x = y @ [c]" "c \<noteq> slash" by (cases x rule: rev_cases) auto
  then have "dropWhile (\<lambda>c. c = slash) (rev (render True (cs @ [x]))) = rev (render True (cs @ [x]))"
    unfolding render_snoc by simp
  then show ?thesis
    unfolding Base_def Let_def after_last_slash_def render_snoc
    using takeWhile_rev_no_slash [OF x(1)] by (simp del: rev_append)
qed

section \<open>Relative paths of descendants\<close>

lemma strip_common_append: "strip_common xs (xs @ ys) = ([], ys)"
  by (induction xs) auto

lemma Rel_below:
  assumes "IsAbs root" and "list_all proper bs"
  shows "Rel (Clean root) (render True (comps root @ bs)) = Some (render False bs)"
proof -
  have "comps (render True (comps root @ bs)) = comps root @ bs"
    using assms by (intro comps_render_rooted) (simp add: comps_proper)
  moreover have "IsAbs (render True (comps root @ bs))" by (simp add: render_def)
  ultimately show ?thesis
    using assms by (simp add: Rel_def strip_common_append)
qed

lemma intercalate_nonempty: "list_all proper bs \<Longrightarrow> bs \<noteq> [] \<Longrightarrow> intercalate bs \<noteq> ''''"
  by (cases bs rule: intercalate.cases) (auto simp: proper_def)

lemma Join_relative:
  assumes "IsAbs a" and "list_all proper bs" and "bs \<noteq> []"
  shows "Join [a, render False bs] = Join (a # bs)"
proof -
  have "a \<noteq> ''''" using assms by auto
  moreover have "filter (\<lambda>e. e \<noteq> '''') bs = bs"
    using assms(2) by (auto simp: filter_id_conv list_all_iff proper_def)
  ultimately show ?thesis
    using assms intercalate_nonempty [of bs]
    by (simp add: Join_def render_def intercalate_Cons)
qed

lemma render_False_dot:
  "list_all proper bs \<Longrightarrow> render False bs = ''.'' \<longleftrightarrow> bs = []"
  using intercalate_proper_first(1) by (cases bs) (auto simp: render_def)

end
