(* ===== verification/File_System.thy ===== *)
theory File_System
  imports Go_Path
begin

text \<open>
  A POSIX file tree, as the \<open>os\<close> package shows it to the program: a finite map from cleaned
  absolute paths (component lists) to nodes, with the operations' results and error cases.
  The component lists are looked up as they are: an intermediate symbolic link is not
  followed (the program checks that the directories it goes through are real ones); a final
  one is followed where the system call does (\<open>follow\<close>). Inode numbers stand for the
  device/inode identity the program compares.
\<close>

section \<open>Nodes and lookup\<close>

type_synonym cpath = "string list"

text \<open>
  A file's content is its bytes together with what Go's JSON decoder reads from them, one
  value after another; \<open>None\<close> is the syntax error that ends the stream.
\<close>

datatype json =
    JNull | JBool bool | JNum int | JStr string | JTime int
  | JArr "json list" | JObj "(string \<times> json) list"

datatype content = Content (bytes: string) (stream: "json option list")

datatype kind = KDir | KFile content | KLink string | KSpecial

record node =
  n_kind :: kind
  n_perm :: "32 word"
  n_ino :: "64 word"

type_synonym fsys = "(cpath \<times> node) list"

definition lookup :: "fsys \<Rightarrow> cpath \<Rightarrow> node option" where
  "lookup f p = map_of f p"

definition fs_del :: "cpath \<Rightarrow> fsys \<Rightarrow> fsys" where
  "fs_del p f = filter (\<lambda>x. fst x \<noteq> p) f"

definition fs_put :: "cpath \<Rightarrow> node \<Rightarrow> fsys \<Rightarrow> fsys" where
  "fs_put p n f = (p, n) # fs_del p f"

lemma lookup_del: "lookup (fs_del p f) q = (if q = p then None else lookup f q)"
  unfolding lookup_def fs_del_def by (induction f) auto

lemma lookup_put: "lookup (fs_put p n f) q = (if q = p then Some n else lookup f q)"
  by (simp add: fs_put_def lookup_def lookup_del [unfolded lookup_def])

lemma lookup_del_same [simp]: "lookup (fs_del p f) p = None"
  and lookup_del_other [simp]: "q \<noteq> p \<Longrightarrow> lookup (fs_del p f) q = lookup f q"
  and lookup_put_same [simp]: "lookup (fs_put p n f) p = Some n"
  and lookup_put_other [simp]: "q \<noteq> p \<Longrightarrow> lookup (fs_put p n f) q = lookup f q"
  by (simp_all add: lookup_del lookup_put)

definition is_dir :: "node \<Rightarrow> bool" where
  "is_dir n \<longleftrightarrow> n_kind n = KDir"

definition is_link :: "node \<Rightarrow> bool" where
  "is_link n = (case n_kind n of KLink _ \<Rightarrow> True | _ \<Rightarrow> False)"

definition is_regular :: "node \<Rightarrow> bool" where
  "is_regular n = (case n_kind n of KFile _ \<Rightarrow> True | _ \<Rightarrow> False)"

lemma is_dir_not_link [simp]: "is_dir n \<Longrightarrow> \<not> is_link n"
  and is_dir_not_regular [simp]: "is_dir n \<Longrightarrow> \<not> is_regular n"
  and is_regular_not_link [simp]: "is_regular n \<Longrightarrow> \<not> is_link n"
  by (auto simp: is_dir_def is_link_def is_regular_def split: kind.splits)

text \<open>The size \<open>stat\<close> reports for a regular file.\<close>

definition node_size :: "node \<Rightarrow> i64" where
  "node_size n = (case n_kind n of KFile c \<Rightarrow> of_nat (length (bytes c)) | _ \<Rightarrow> 0)"

text \<open>
  The paths at or below \<open>p\<close>, and the entries of a directory in name order. A listing shows
  proper names only (no \<open>.\<close>, no \<open>..\<close>, no separator), as a directory holds no others.
\<close>

definition subtree :: "cpath \<Rightarrow> cpath set" where
  "subtree p = {q. prefix p q}"

definition below :: "cpath \<Rightarrow> fsys \<Rightarrow> cpath list" where
  "below p f = sort (remdups (filter (\<lambda>q. prefix p q \<and> list_all proper q) (map fst f)))"

definition children :: "cpath \<Rightarrow> fsys \<Rightarrow> (string \<times> node) list" where
  "children p f =
     map (\<lambda>q. (last q, the (lookup f q)))
       (filter (\<lambda>q. q \<noteq> [] \<and> butlast q = p) (sort (remdups (map fst f))))"

lemma mem_subtree [simp]: "q \<in> subtree p \<longleftrightarrow> prefix p q"
  by (simp add: subtree_def)

lemma subtree_mono: "prefix p q \<Longrightarrow> subtree q \<subseteq> subtree p"
  by (auto intro: prefix_order.trans)

lemma in_fst_iff: "p \<in> fst ` set f \<longleftrightarrow> lookup f p \<noteq> None"
  by (simp add: lookup_def map_of_eq_None_iff)

lemma set_below:
  "set (below p f) = {q. prefix p q \<and> list_all proper q \<and> lookup f q \<noteq> None}"
  using in_fst_iff by (auto simp: below_def)

lemma children_Nil_iff: "children p f = [] \<longleftrightarrow> (\<forall>x. lookup f (p @ [x]) = None)"
proof -
  have "children p f = [] \<longleftrightarrow> (\<forall>q \<in> fst ` set f. q = [] \<or> butlast q \<noteq> p)"
    by (auto simp: children_def filter_empty_conv)
  also have "\<dots> \<longleftrightarrow> (\<forall>x. lookup f (p @ [x]) = None)"
    unfolding in_fst_iff Ball_def by (metis append_butlast_last_id snoc_eq_iff_butlast)
  finally show ?thesis .
qed

section \<open>Operations\<close>

definition parent_dir :: "fsys \<Rightarrow> cpath \<Rightarrow> bool" where
  "parent_dir f p \<longleftrightarrow> p \<noteq> [] \<and>
     (case lookup f (butlast p) of Some n \<Rightarrow> is_dir n | None \<Rightarrow> False)"

definition fs_lstat :: "cpath \<Rightarrow> fsys \<Rightarrow> err + node" where
  "fs_lstat p f = (case lookup f p of None \<Rightarrow> Inl ENOENT | Some n \<Rightarrow> Inr n)"

text \<open>A final symbolic link is followed once, to an absolute target.\<close>

definition follow :: "fsys \<Rightarrow> cpath \<Rightarrow> cpath" where
  "follow f p = (case lookup f p of
     Some n \<Rightarrow> (case n_kind n of KLink t \<Rightarrow> comps t | _ \<Rightarrow> p)
   | None \<Rightarrow> p)"

definition fs_stat :: "cpath \<Rightarrow> fsys \<Rightarrow> err + node" where
  "fs_stat p f = fs_lstat (follow f p) f"

definition fs_readlink :: "cpath \<Rightarrow> fsys \<Rightarrow> err + string" where
  "fs_readlink p f = (case lookup f p of None \<Rightarrow> Inl ENOENT
     | Some n \<Rightarrow> (case n_kind n of KLink t \<Rightarrow> Inr t | _ \<Rightarrow> Inl EINVAL))"

definition fs_read :: "cpath \<Rightarrow> fsys \<Rightarrow> err + content" where
  "fs_read p f = (case lookup f (follow f p) of None \<Rightarrow> Inl ENOENT
     | Some n \<Rightarrow> (case n_kind n of KFile c \<Rightarrow> Inr c | KDir \<Rightarrow> Inl EISDIR | _ \<Rightarrow> Inl EINVAL))"

definition fs_readdir :: "cpath \<Rightarrow> fsys \<Rightarrow> err + (string \<times> node) list" where
  "fs_readdir p f = (case lookup f (follow f p) of None \<Rightarrow> Inl ENOENT
     | Some n \<Rightarrow> if is_dir n then Inr (filter (\<lambda>c. proper (fst c)) (children (follow f p) f))
       else Inl ENOTDIR)"

definition fs_create :: "kind \<Rightarrow> 32 word \<Rightarrow> 64 word \<Rightarrow> cpath \<Rightarrow> fsys \<Rightarrow> err + fsys" where
  "fs_create k perm ino p f =
     (if lookup f p \<noteq> None then Inl EEXIST
      else if \<not> parent_dir f p then Inl ENOENT
      else Inr (fs_put p \<lparr>n_kind = k, n_perm = perm, n_ino = ino\<rparr> f))"

definition fs_write :: "content \<Rightarrow> cpath \<Rightarrow> fsys \<Rightarrow> err + fsys" where
  "fs_write c p f = (case lookup f p of
       Some n \<Rightarrow> if is_regular n then Inr (fs_put p (n\<lparr>n_kind := KFile c\<rparr>) f) else Inl EINVAL
     | None \<Rightarrow> Inl ENOENT)"

definition fs_chmod :: "32 word \<Rightarrow> cpath \<Rightarrow> fsys \<Rightarrow> err + fsys" where
  "fs_chmod perm p f = (case lookup f (follow f p) of
       Some n \<Rightarrow> Inr (fs_put (follow f p) (n\<lparr>n_perm := perm\<rparr>) f)
     | None \<Rightarrow> Inl ENOENT)"

definition fs_remove :: "cpath \<Rightarrow> fsys \<Rightarrow> err + fsys" where
  "fs_remove p f = (case lookup f p of None \<Rightarrow> Inl ENOENT
     | Some n \<Rightarrow> if is_dir n \<and> children p f \<noteq> [] then Inl ENOTEMPTY else Inr (fs_del p f))"

text \<open>
  \<open>rename\<close> moves the node and everything below it. \<open>os.Rename\<close> refuses an existing directory
  as destination and replaces any other node; \<open>renameNoReplace\<close> refuses every destination.
\<close>

definition rebase :: "cpath \<Rightarrow> cpath \<Rightarrow> cpath \<Rightarrow> cpath" where
  "rebase a b q = b @ drop (length a) q"

definition fs_move :: "cpath \<Rightarrow> cpath \<Rightarrow> fsys \<Rightarrow> fsys" where
  "fs_move a b f =
     map (\<lambda>(q, n). if prefix a q then (rebase a b q, n) else (q, n))
       (filter (\<lambda>(q, n). prefix a q \<or> \<not> prefix b q) f)"

definition fs_rename :: "cpath \<Rightarrow> cpath \<Rightarrow> fsys \<Rightarrow> err + fsys" where
  "fs_rename a b f = (case lookup f a of None \<Rightarrow> Inl ENOENT
     | Some n \<Rightarrow>
         if a = b then Inr f
         else if prefix a b then Inl EINVAL
         else if \<not> parent_dir f b then Inl ENOENT
         else (case lookup f b of
             None \<Rightarrow> Inr (fs_move a b f)
           | Some m \<Rightarrow> if is_dir m then Inl EEXIST
               else if is_dir n then Inl ENOTDIR else Inr (fs_move a b f)))"

definition fs_rename_noreplace :: "cpath \<Rightarrow> cpath \<Rightarrow> fsys \<Rightarrow> err + fsys" where
  "fs_rename_noreplace a b f = (case lookup f a of None \<Rightarrow> Inl ENOENT
     | Some n \<Rightarrow>
         if lookup f b \<noteq> None then Inl EEXIST
         else if prefix a b then Inl EINVAL
         else if \<not> parent_dir f b then Inl ENOENT
         else Inr (fs_move a b f))"

section \<open>What each operation may change\<close>

definition differs :: "fsys \<Rightarrow> fsys \<Rightarrow> cpath set" where
  "differs f g = {p. lookup f p \<noteq> lookup g p}"

lemma differs_refl [simp]: "differs f f = {}"
  by (simp add: differs_def)

lemma differs_trans: "differs f h \<subseteq> differs f g \<union> differs g h"
  by (auto simp: differs_def)

lemma differs_put: "differs f (fs_put p n f) \<subseteq> {p}"
  and differs_del: "differs f (fs_del p f) \<subseteq> {p}"
  by (auto simp: differs_def lookup_put lookup_del)

lemma differs_create: "fs_create k m i p f = Inr g \<Longrightarrow> differs f g \<subseteq> {p}"
  using differs_put by (auto simp: fs_create_def split: if_splits)

lemma differs_write: "fs_write c p f = Inr g \<Longrightarrow> differs f g \<subseteq> {p}"
  using differs_put by (auto simp: fs_write_def split: option.splits if_splits)

lemma differs_remove: "fs_remove p f = Inr g \<Longrightarrow> differs f g \<subseteq> {p}"
  using differs_del by (auto simp: fs_remove_def split: option.splits if_splits)

lemma differs_chmod: "fs_chmod m p f = Inr g \<Longrightarrow> differs f g \<subseteq> {follow f p}"
  using differs_put by (auto simp: fs_chmod_def split: option.splits)

lemma map_of_move_outside:
  "\<not> prefix a q \<Longrightarrow> \<not> prefix b q \<Longrightarrow> map_of (fs_move a b f) q = map_of f q"
  by (induction f) (auto simp: fs_move_def rebase_def)

lemma differs_move: "differs f (fs_move a b f) \<subseteq> subtree a \<union> subtree b"
proof
  fix q
  assume "q \<in> differs f (fs_move a b f)"
  then have "map_of (fs_move a b f) q \<noteq> map_of f q"
    by (auto simp: differs_def lookup_def)
  then show "q \<in> subtree a \<union> subtree b"
    using map_of_move_outside [of a q b f] by auto
qed

lemma differs_rename: "fs_rename a b f = Inr g \<Longrightarrow> differs f g \<subseteq> subtree a \<union> subtree b"
  using differs_move by (auto simp: fs_rename_def split: option.splits if_splits)

lemma differs_rename_noreplace:
  "fs_rename_noreplace a b f = Inr g \<Longrightarrow> differs f g \<subseteq> subtree a \<union> subtree b"
  using differs_move by (auto simp: fs_rename_noreplace_def split: option.splits if_splits)

section \<open>A move relocates the subtree\<close>

lemma rebase_eq_iff: "prefix a q \<Longrightarrow> b @ r = rebase a b q \<longleftrightarrow> q = a @ r"
  by (auto simp: rebase_def prefix_def)

lemma rebase_append [simp]: "rebase a b (a @ r) = b @ r"
  by (simp add: rebase_def)

lemma lookup_move_dst:
  assumes "\<not> prefix a b"
  shows "lookup (fs_move a b f) (b @ r) = lookup f (a @ r)"
  unfolding lookup_def
proof (induction f)
  case Nil
  then show ?case by (simp add: fs_move_def)
next
  case (Cons x f)
  obtain q n where x: "x = (q, n)" by fastforce
  show ?case
  proof (cases "prefix a q")
    case True
    then show ?thesis using Cons x by (auto simp: fs_move_def rebase_eq_iff)
  next
    case False
    then have "q \<noteq> a @ r" by auto
    with False Cons x show ?thesis by (auto simp: fs_move_def)
  qed
qed

lemma lookup_move_src:
  assumes "\<not> prefix a b" and "\<not> prefix b a"
  shows "lookup (fs_move a b f) (a @ r) = None"
proof -
  have "\<not> prefix b (a @ r)" if "prefix b (a @ r)"
    using that assms prefix_same_cases [of a "a @ r" b] by auto
  then have nb: "\<not> prefix b (a @ r)" by blast
  show ?thesis
    unfolding lookup_def
  proof (induction f)
    case Nil
    then show ?case by (simp add: fs_move_def)
  next
    case (Cons x f)
    obtain q n where x: "x = (q, n)" by fastforce
    have "rebase a b q \<noteq> a @ r" using nb by (metis prefixI rebase_def)
    then show ?case using Cons x by (auto simp: fs_move_def)
  qed
qed

section \<open>Well-formed trees\<close>

text \<open>
  Every node but the root has a directory above it. All operations keep this, so a removed
  directory never leaves entries behind and a created node is always reachable.
\<close>

definition wf_tree :: "fsys \<Rightarrow> bool" where
  "wf_tree f \<longleftrightarrow> (\<forall>p x. lookup f (p @ [x]) \<noteq> None \<longrightarrow>
     (\<exists>n. lookup f p = Some n \<and> is_dir n))"

lemma wf_treeD: "wf_tree f \<Longrightarrow> lookup f (p @ [x]) = Some m \<Longrightarrow> \<exists>n. lookup f p = Some n \<and> is_dir n"
  unfolding wf_tree_def by blast

lemma wf_put_new:
  assumes wf: "wf_tree f" and new: "lookup f p = None" and pd: "parent_dir f p"
  shows "wf_tree (fs_put p n f)"
  unfolding wf_tree_def
proof (intro allI impI)
  fix q x
  assume *: "lookup (fs_put p n f) (q @ [x]) \<noteq> None"
  show "\<exists>m. lookup (fs_put p n f) q = Some m \<and> is_dir m"
  proof (cases "q @ [x] = p")
    case True
    then have "butlast p = q" "q \<noteq> p" by auto
    with pd show ?thesis by (auto simp: parent_dir_def split: option.splits)
  next
    case False
    with * obtain m where "lookup f (q @ [x]) = Some m" by auto
    from wf_treeD [OF wf this] obtain d where "lookup f q = Some d" "is_dir d" by blast
    moreover from this new have "q \<noteq> p" by auto
    ultimately show ?thesis by simp
  qed
qed

lemma wf_put_same:
  assumes wf: "wf_tree f" and old: "lookup f p = Some n" and k: "is_dir n \<longrightarrow> is_dir m"
  shows "wf_tree (fs_put p m f)"
  unfolding wf_tree_def
proof (intro allI impI)
  fix q x
  assume "lookup (fs_put p m f) (q @ [x]) \<noteq> None"
  then obtain l where "lookup f (q @ [x]) = Some l"
    using old by (cases "q @ [x] = p") auto
  from wf_treeD [OF wf this] obtain d where d: "lookup f q = Some d" "is_dir d" by blast
  then show "\<exists>m'. lookup (fs_put p m f) q = Some m' \<and> is_dir m'"
    using old k by (cases "q = p") auto
qed

lemma wf_create: "wf_tree f \<Longrightarrow> fs_create k m i p f = Inr g \<Longrightarrow> wf_tree g"
  by (auto simp: fs_create_def intro: wf_put_new split: if_splits)

lemma wf_write: "wf_tree f \<Longrightarrow> fs_write c p f = Inr g \<Longrightarrow> wf_tree g"
  by (auto simp: fs_write_def intro: wf_put_same split: option.splits if_splits)

lemma wf_chmod: "wf_tree f \<Longrightarrow> fs_chmod m p f = Inr g \<Longrightarrow> wf_tree g"
  by (auto simp: fs_chmod_def is_dir_def intro: wf_put_same split: option.splits if_splits)

lemma wf_remove:
  assumes wf: "wf_tree f" and r: "fs_remove p f = Inr g"
  shows "wf_tree g"
  unfolding wf_tree_def
proof (intro allI impI)
  fix q x
  assume *: "lookup g (q @ [x]) \<noteq> None"
  from r obtain n where n: "lookup f p = Some n" "is_dir n \<longrightarrow> children p f = []"
    and g: "g = fs_del p f"
    by (auto simp: fs_remove_def split: option.splits if_splits)
  from * g obtain m where m: "lookup f (q @ [x]) = Some m"
    by (cases "q @ [x] = p") auto
  from wf_treeD [OF wf m] obtain d where d: "lookup f q = Some d" "is_dir d" by blast
  have "q \<noteq> p"
  proof
    assume "q = p"
    with d n have "children p f = []" by simp
    with m \<open>q = p\<close> show False by (simp add: children_Nil_iff)
  qed
  with d g show "\<exists>n. lookup g q = Some n \<and> is_dir n" by simp
qed

lemma wf_ancestors:
  "wf_tree f \<Longrightarrow> lookup f (p @ q) = Some n \<Longrightarrow> q \<noteq> [] \<Longrightarrow> \<exists>d. lookup f p = Some d \<and> is_dir d"
proof (induction q arbitrary: n rule: rev_induct)
  case Nil
  then show ?case by simp
next
  case (snoc x q)
  from wf_treeD [OF snoc.prems(1), of "p @ q" x n] snoc.prems(2)
  obtain d where d: "lookup f (p @ q) = Some d" "is_dir d" by auto
  show ?case
  proof (cases "q = []")
    case True
    with d show ?thesis by simp
  next
    case False
    with snoc.IH [OF snoc.prems(1) d(1)] show ?thesis by blast
  qed
qed

lemma wf_no_dir_no_below:
  "wf_tree f \<Longrightarrow> (\<And>n. lookup f p = Some n \<Longrightarrow> \<not> is_dir n) \<Longrightarrow> r \<noteq> [] \<Longrightarrow> lookup f (p @ r) = None"
  using wf_ancestors by (metis not_Some_eq)

lemma wf_move:
  assumes wf: "wf_tree f" and ab: "\<not> prefix a b" and ex: "lookup f a = Some n"
    and pd: "parent_dir f b" and dst: "\<And>m. lookup f b = Some m \<Longrightarrow> \<not> is_dir m"
  shows "wf_tree (fs_move a b f)"
proof -
  let ?g = "fs_move a b f"
  have nba: "\<not> prefix b a"
  proof
    assume "prefix b a"
    then obtain r where r: "a = b @ r" by (auto simp: prefix_def)
    with ab have "r \<noteq> []" by auto
    with wf_no_dir_no_below [OF wf dst] r ex show False by auto
  qed
  have out: "lookup ?g q = lookup f q" if "\<not> prefix a q" "\<not> prefix b q" for q
    using that map_of_move_outside by (simp add: lookup_def)
  obtain bp bx where b: "b = bp @ [bx]"
    using pd by (metis append_butlast_last_id parent_dir_def)
  obtain d where d: "lookup f bp = Some d" "is_dir d"
    using pd b by (auto simp: parent_dir_def split: option.splits)
  show ?thesis
    unfolding wf_tree_def
  proof (intro allI impI)
    fix q x
    assume *: "lookup ?g (q @ [x]) \<noteq> None"
    show "\<exists>m. lookup ?g q = Some m \<and> is_dir m"
    proof (cases "prefix b (q @ [x])")
      case True
      then obtain r where r: "q @ [x] = b @ r" by (auto simp: prefix_def)
      show ?thesis
      proof (cases r rule: rev_cases)
        case Nil
        then have "q = bp" using r b by simp
        moreover have "\<not> prefix b bp" using b by (auto simp: prefix_def)
        moreover have "\<not> prefix a bp" using ab b by (meson prefixI prefix_order.trans)
        ultimately show ?thesis using out d by simp
      next
        case (snoc r' y)
        then have q: "q = b @ r'" and "x = y" using r by auto
        then have "lookup f ((a @ r') @ [x]) \<noteq> None"
          using * snoc r lookup_move_dst [OF ab, of f "r' @ [x]"] by simp
        then obtain m where "lookup f (a @ r') = Some m" "is_dir m"
          using wf_treeD [OF wf] by blast
        then show ?thesis using q lookup_move_dst [OF ab] by simp
      qed
    next
      case nb: False
      have na: "\<not> prefix a (q @ [x])"
      proof
        assume "prefix a (q @ [x])"
        then obtain r where "q @ [x] = a @ r" by (auto simp: prefix_def)
        with * lookup_move_src [OF ab nba, of f r] show False by simp
      qed
      then have "\<not> prefix a q" "\<not> prefix b q"
        using nb by (auto intro: prefix_order.trans)
      moreover from * na nb out obtain m where "lookup f (q @ [x]) = Some m" by auto
      ultimately show ?thesis using wf_treeD [OF wf] out by metis
    qed
  qed
qed

lemma wf_rename:
  assumes "wf_tree f" and "fs_rename a b f = Inr g"
  shows "wf_tree g"
  using assms by (auto simp: fs_rename_def intro!: wf_move split: option.splits if_splits)

lemma wf_rename_noreplace: "wf_tree f \<Longrightarrow> fs_rename_noreplace a b f = Inr g \<Longrightarrow> wf_tree g"
  by (auto simp: fs_rename_noreplace_def intro!: wf_move split: option.splits if_splits)

end
