(* ===== verification/Machine.thy ===== *)
theory Machine
  imports File_System
begin

text \<open>
  The machine the program runs on: the file tree, a clock of system calls and the
  environment. Every system call takes one tick; the environment may make any call fail
  with an unclassified error (\<open>e_fault\<close>) and then the call has no effect, so a theorem about
  all environments covers every error path, and also every crash: a process that dies at
  tick \<open>n\<close> leaves the file tree that the run with \<open>e_fault\<close> true from \<open>n\<close> on leaves. Time,
  random bytes, context cancellation, process liveness and free space are read from the
  environment at the current tick. The states are extensible records, so that a component
  adds its own memory to the world.
\<close>

record env =
  e_fault :: "nat \<Rightarrow> bool"
  e_clock :: "nat \<Rightarrow> int"
  e_rand :: "nat \<Rightarrow> nat \<Rightarrow> char"
  e_cancelled :: "nat \<Rightarrow> bool"
  e_alive :: "nat \<Rightarrow> int \<Rightarrow> bool"
  e_free :: "nat \<Rightarrow> i64"
  e_blocks :: "string \<Rightarrow> i64"
  e_marshal :: "bool \<Rightarrow> json \<Rightarrow> string"
  e_sha256 :: "string \<Rightarrow> string"
  e_limited :: "string \<Rightarrow> json option list"
  e_dev :: "64 word"
  e_cow :: bool

record world =
  w_fs :: fsys
  w_tick :: nat
  w_ino :: "64 word"
  w_env :: env

section \<open>System calls\<close>

definition sys ::
  "('z world_scheme \<Rightarrow> (err + 'a) \<times> 'z world_scheme) \<Rightarrow> ('z world_scheme, err + 'a) state"
where
  "sys f = State (\<lambda>w. let w' = w\<lparr>w_tick := Suc (w_tick w)\<rparr> in
     if e_fault (w_env w) (w_tick w) then (Inl EIO, w') else f w')"

definition query :: "(fsys \<Rightarrow> err + 'a) \<Rightarrow> ('z world_scheme, err + 'a) state" where
  "query q = sys (\<lambda>w. (q (w_fs w), w))"

text \<open>A call that changes the tree; a created node takes the next inode number.\<close>

definition update :: "(64 word \<Rightarrow> fsys \<Rightarrow> err + fsys) \<Rightarrow> ('z world_scheme, err option) state" where
  "update u = do {
     r \<leftarrow> sys (\<lambda>w. case u (w_ino w) (w_fs w) of
        Inl e \<Rightarrow> (Inl e, w)
      | Inr f \<Rightarrow> (Inr (), w\<lparr>w_fs := f, w_ino := w_ino w + 1\<rparr>));
     ret (case r of Inl e \<Rightarrow> Some e | Inr _ \<Rightarrow> None) }"

definition os_Lstat :: "string \<Rightarrow> ('z world_scheme, err + node) state" where
  "os_Lstat p = query (fs_lstat (comps p))"

definition os_Stat :: "string \<Rightarrow> ('z world_scheme, err + node) state" where
  "os_Stat p = query (fs_stat (comps p))"

definition os_Readlink :: "string \<Rightarrow> ('z world_scheme, err + string) state" where
  "os_Readlink p = query (fs_readlink (comps p))"

definition os_ReadFile :: "string \<Rightarrow> ('z world_scheme, err + content) state" where
  "os_ReadFile p = query (fs_read (comps p))"

definition os_ReadDir :: "string \<Rightarrow> ('z world_scheme, err + (string \<times> node) list) state" where
  "os_ReadDir p = query (fs_readdir (comps p))"

definition os_Mkdir :: "string \<Rightarrow> 32 word \<Rightarrow> ('z world_scheme, err option) state" where
  "os_Mkdir p perm = update (\<lambda>i. fs_create KDir perm i (comps p))"

definition os_Symlink :: "string \<Rightarrow> string \<Rightarrow> ('z world_scheme, err option) state" where
  "os_Symlink target p = update (\<lambda>i. fs_create (KLink target) 511 i (comps p))"

definition os_Remove :: "string \<Rightarrow> ('z world_scheme, err option) state" where
  "os_Remove p = update (\<lambda>_. fs_remove (comps p))"

definition os_Rename :: "string \<Rightarrow> string \<Rightarrow> ('z world_scheme, err option) state" where
  "os_Rename a b = update (\<lambda>_. fs_rename (comps a) (comps b))"

definition renameNoReplace :: "string \<Rightarrow> string \<Rightarrow> ('z world_scheme, err option) state" where
  "renameNoReplace a b = update (\<lambda>_. fs_rename_noreplace (comps a) (comps b))"

definition os_Chmod :: "string \<Rightarrow> 32 word \<Rightarrow> ('z world_scheme, err option) state" where
  "os_Chmod p perm = update (\<lambda>_. fs_chmod perm (comps p))"

text \<open>
  File handles: \<open>O_CREATE|O_EXCL\<close>, then operations on the file just opened (its path is the
  handle), which do not follow links.
\<close>

definition open_excl :: "string \<Rightarrow> 32 word \<Rightarrow> ('z world_scheme, err option) state" where
  "open_excl p perm = update (\<lambda>i. fs_create (KFile (Content [] [])) perm i (comps p))"

definition file_write :: "string \<Rightarrow> content \<Rightarrow> ('z world_scheme, err option) state" where
  "file_write p c = update (\<lambda>_. fs_write c (comps p))"

definition fs_fchmod :: "32 word \<Rightarrow> cpath \<Rightarrow> fsys \<Rightarrow> err + fsys" where
  "fs_fchmod perm p f = (case lookup f p of
       Some n \<Rightarrow> Inr (fs_put p (n\<lparr>n_perm := perm\<rparr>) f) | None \<Rightarrow> Inl ENOENT)"

definition file_chmod :: "string \<Rightarrow> 32 word \<Rightarrow> ('z world_scheme, err option) state" where
  "file_chmod p perm = update (\<lambda>_. fs_fchmod perm (comps p))"

text \<open>\<open>os.WriteFile\<close>: \<open>O_CREATE|O_TRUNC\<close> follows a final link, then the bytes are written.\<close>

definition fs_truncate :: "32 word \<Rightarrow> 64 word \<Rightarrow> cpath \<Rightarrow> fsys \<Rightarrow> err + fsys" where
  "fs_truncate perm i p f = (case lookup f (follow f p) of
       None \<Rightarrow> fs_create (KFile (Content [] [])) perm i (follow f p) f
     | Some n \<Rightarrow> if is_dir n then Inl EISDIR else fs_write (Content [] []) (follow f p) f)"

definition os_WriteFile :: "string \<Rightarrow> content \<Rightarrow> 32 word \<Rightarrow> ('z world_scheme, err option) state"
where
  "os_WriteFile p c perm =
     check (update (\<lambda>i. fs_truncate perm i (comps p))) (\<lambda>e. ret (Some e))
       (do { r \<leftarrow> update (\<lambda>_ f. fs_write c (follow f (comps p)) f);
             s \<leftarrow> update (\<lambda>_. Inr);
             ret (if r \<noteq> None then r else s) })"

definition io_step :: "('z world_scheme, err option) state" where
  "io_step = update (\<lambda>_. Inr)"

text \<open>\<open>Sync\<close> and \<open>Close\<close> can fail and change nothing the program can see.\<close>

abbreviation file_sync :: "('z world_scheme, err option) state" where
  "file_sync \<equiv> io_step"

abbreviation file_close :: "('z world_scheme, err option) state" where
  "file_close \<equiv> io_step"

text \<open>\<open>os.MkdirAll\<close>: on the reversed component list, as the library recurses on the parent.\<close>

fun mkdir_all :: "32 word \<Rightarrow> string list \<Rightarrow> ('z world_scheme, err option) state" where
  "mkdir_all perm [] = attempt (query (fs_stat [])) (\<lambda>e. ret (Some e))
     (\<lambda>n. ret (if is_dir n then None else Some ENOTDIR))"
| "mkdir_all perm (x # xs) = attempt (query (fs_stat (rev (x # xs))))
     (\<lambda>_. check (mkdir_all perm xs) (\<lambda>e. ret (Some e))
        (check (update (\<lambda>i. fs_create KDir perm i (rev (x # xs))))
           (\<lambda>e. attempt (query (fs_lstat (rev (x # xs)))) (\<lambda>_. ret (Some e))
              (\<lambda>n. ret (if is_dir n then None else Some e)))
           (ret None)))
     (\<lambda>n. ret (if is_dir n then None else Some ENOTDIR))"

definition os_MkdirAll :: "string \<Rightarrow> 32 word \<Rightarrow> ('z world_scheme, err option) state" where
  "os_MkdirAll p perm = mkdir_all perm (rev (comps p))"

text \<open>
  \<open>os.RemoveAll\<close>: entries are removed deepest first; a failing entry is left, the others are
  still tried, and the first error is returned. A missing path is no error.
\<close>

fun remove_list :: "err option \<Rightarrow> cpath list \<Rightarrow> ('z world_scheme, err option) state" where
  "remove_list acc [] = ret acc"
| "remove_list acc (q # qs) = do {
     r \<leftarrow> update (\<lambda>_. fs_remove q);
     remove_list (if acc = None then r else acc) qs }"

definition os_RemoveAll :: "string \<Rightarrow> ('z world_scheme, err option) state" where
  "os_RemoveAll p = do {
     qs \<leftarrow> gets (\<lambda>w. rev (below (comps p) (w_fs w)));
     remove_list None qs }"

text \<open>
  \<open>filepath.WalkDir\<close> and \<open>filepath.Walk\<close>: the callback sees every entry in lexical depth-first
  order, an unreadable entry as an error, and stops the walk by returning one. What the
  callback's closure accumulates is passed along.
\<close>

fun walk_list ::
  "(cpath \<Rightarrow> err + node \<Rightarrow> 'a \<Rightarrow> ('z world_scheme, err + 'a) state) \<Rightarrow> 'a \<Rightarrow> cpath list \<Rightarrow>
   ('z world_scheme, err + 'a) state"
where
  "walk_list cb acc [] = ret (Inr acc)"
| "walk_list cb acc (q # qs) = do {
     r \<leftarrow> query (fs_lstat q);
     attempt (cb q r acc) (\<lambda>e. ret (Inl e)) (\<lambda>acc. walk_list cb acc qs) }"

definition WalkDir ::
  "string \<Rightarrow> (cpath \<Rightarrow> err + node \<Rightarrow> 'a \<Rightarrow> ('z world_scheme, err + 'a) state) \<Rightarrow> 'a \<Rightarrow>
   ('z world_scheme, err + 'a) state"
where
  "WalkDir root cb acc = do {
     r \<leftarrow> os_Lstat root;
     (case r of
        Inl e \<Rightarrow> cb (comps root) (Inl e) acc
      | Inr n \<Rightarrow> do {
          qs \<leftarrow> gets (\<lambda>w. below (comps root) (w_fs w));
          walk_list cb acc qs }) }"

text \<open>A walk whose callback only inspects the entries.\<close>

definition err_unit :: "(err + unit) \<Rightarrow> err option" where
  "err_unit r = (case r of Inl e \<Rightarrow> Some e | Inr _ \<Rightarrow> None)"

definition WalkCheck ::
  "string \<Rightarrow> (cpath \<Rightarrow> err + node \<Rightarrow> err option) \<Rightarrow> ('z world_scheme, err option) state"
where
  "WalkCheck root cb = do {
     r \<leftarrow> WalkDir root
       (\<lambda>q n _. ret (case cb q n of Some e \<Rightarrow> Inl e | None \<Rightarrow> Inr ())) ();
     ret (err_unit r) }"

section \<open>Reading the environment\<close>

definition tick_read :: "(env \<Rightarrow> nat \<Rightarrow> 'a) \<Rightarrow> ('z world_scheme, 'a) state" where
  "tick_read f = State (\<lambda>w. (f (w_env w) (w_tick w), w\<lparr>w_tick := Suc (w_tick w)\<rparr>))"

definition time_Now :: "('z world_scheme, int) state" where
  "time_Now = tick_read e_clock"

definition ctx_Err :: "('z world_scheme, err option) state" where
  "ctx_Err = tick_read (\<lambda>e t. if e_cancelled e t then Some Cancelled else None)"

definition process_alive :: "int \<Rightarrow> ('z world_scheme, bool) state" where
  "process_alive pid = tick_read (\<lambda>e t. e_alive e t pid)"

definition rand_Read :: "nat \<Rightarrow> ('z world_scheme, err + string) state" where
  "rand_Read n = sys (\<lambda>w. (Inr (map (e_rand (w_env w) (w_tick w)) [0..<n]), w))"

definition statfs_free :: "('z world_scheme, err + i64) state" where
  "statfs_free = sys (\<lambda>w. (Inr (e_free (w_env w) (w_tick w)), w))"

definition env_get :: "(env \<Rightarrow> 'a) \<Rightarrow> ('z world_scheme, 'a) state" where
  "env_get f = gets (\<lambda>w. f (w_env w))"

section \<open>Weakest preconditions of the calls\<close>

definition tick :: "'z world_scheme \<Rightarrow> 'z world_scheme" where
  "tick w = w\<lparr>w_tick := Suc (w_tick w)\<rparr>"

lemma tick_simps [simp]:
  "w_fs (tick w) = w_fs w" "w_env (tick w) = w_env w" "w_ino (tick w) = w_ino w"
  "w_tick (tick w) = Suc (w_tick w)" "world.more (tick w) = world.more w"
  by (simp_all add: tick_def)

lemma wp_sys [wp_simps]:
  "wp (sys f) Q w =
     (if e_fault (w_env w) (w_tick w) then Q (Inl EIO) (tick w)
      else (case f (tick w) of (r, w') \<Rightarrow> Q r w'))"
  by (auto simp: wp_def sys_def tick_def Let_def split: prod.splits)

lemma wp_query [wp_simps]:
  "wp (query q) Q w =
     (if e_fault (w_env w) (w_tick w) then Q (Inl EIO) (tick w) else Q (q (w_fs w)) (tick w))"
  by (simp add: query_def wp_simps)

lemma wp_update [wp_simps]:
  "wp (update u) Q w =
     (if e_fault (w_env w) (w_tick w) then Q (Some EIO) (tick w)
      else (case u (w_ino w) (w_fs w) of
         Inl e \<Rightarrow> Q (Some e) (tick w)
       | Inr f \<Rightarrow> Q None ((tick w)\<lparr>w_fs := f, w_ino := w_ino w + 1\<rparr>)))"
  by (simp add: update_def wp_simps split: sum.splits)

lemma wp_tick_read [wp_simps]: "wp (tick_read f) Q w = Q (f (w_env w) (w_tick w)) (tick w)"
  by (simp add: tick_read_def wp_def tick_def)

text \<open>The system calls unfold to queries and updates of the tree.\<close>

lemmas call_defs =
  os_Lstat_def os_Stat_def os_Readlink_def os_ReadFile_def os_ReadDir_def os_Mkdir_def
  os_Symlink_def os_Remove_def os_Rename_def renameNoReplace_def os_Chmod_def open_excl_def
  file_write_def file_chmod_def io_step_def

section \<open>Frames\<close>

text \<open>
  \<open>same\<close>: nothing but the clock moved; \<open>puts p n\<close>: the node \<open>n\<close> was put at \<open>p\<close>;
  \<open>writes S\<close>: only paths of \<open>S\<close> may differ afterwards. None touches the environment or the
  memory of the component that runs.
\<close>

definition same :: "'z world_scheme \<Rightarrow> 'z world_scheme \<Rightarrow> bool" where
  "same w w' \<longleftrightarrow> w_fs w' = w_fs w \<and> w_env w' = w_env w \<and> world.more w' = world.more w"

definition puts :: "cpath \<Rightarrow> node \<Rightarrow> 'z world_scheme \<Rightarrow> 'z world_scheme \<Rightarrow> bool" where
  "puts p n w w' \<longleftrightarrow> w_fs w' = fs_put p n (w_fs w) \<and> w_env w' = w_env w \<and>
     world.more w' = world.more w"

lemma same_refl [simp]: "same w w"
  by (simp add: same_def)

lemma same_trans: "same u v \<Longrightarrow> same v w \<Longrightarrow> same u w"
  by (simp add: same_def)

lemma same_tick [simp]: "same w (tick v) = same w v"
  by (simp add: same_def)

lemma sameD: "same w v \<Longrightarrow> w_fs v = w_fs w \<and> w_env v = w_env w"
  by (simp add: same_def)

definition writes :: "cpath set \<Rightarrow> 'z world_scheme \<Rightarrow> 'z world_scheme \<Rightarrow> bool" where
  "writes S w w' \<longleftrightarrow>
     differs (w_fs w) (w_fs w') \<subseteq> S \<and> w_env w' = w_env w \<and> world.more w' = world.more w"

lemma writes_lookup: "writes S w w' \<Longrightarrow> p \<notin> S \<Longrightarrow> lookup (w_fs w') p = lookup (w_fs w) p"
  unfolding writes_def differs_def by (metis (mono_tags, lifting) mem_Collect_eq subsetD)

lemma writes_same: "same v v' \<Longrightarrow> writes S v v'"
  by (simp add: writes_def same_def)

lemma writes_put: "puts p n v v' \<Longrightarrow> p \<in> S \<Longrightarrow> writes S v v'"
  using differs_put [of "w_fs v" p n] by (auto simp: writes_def puts_def)

lemma writes_refl: "writes S w w"
  by (simp add: writes_def)

lemma writes_trans: "writes S u v \<Longrightarrow> writes S v w \<Longrightarrow> writes S u w"
  using differs_trans [of "w_fs u" "w_fs w" "w_fs v"] by (auto simp: writes_def)

lemma writes_mono: "writes S v w \<Longrightarrow> S \<subseteq> T \<Longrightarrow> writes T v w"
  by (auto simp: writes_def)

interpretation frame: effect "writes S :: 'z world_scheme \<Rightarrow> 'z world_scheme \<Rightarrow> bool" for S
  by unfold_locales (rule writes_refl, rule writes_trans)

lemmas [eff_intros] = frame.on_control

lemma frame_mono: "achieves (writes S) Q m \<Longrightarrow> S \<subseteq> T \<Longrightarrow> achieves (writes T) Q m"
  by (rule achieves_rel_mono, assumption, erule writes_mono, assumption)

lemma sys_keeps:
  assumes "\<And>w w' r. f w = (r, w') \<Longrightarrow> writes S w w' \<and> Q r" and "Q (Inl EIO)"
  shows "achieves (writes S) Q (sys f)"
proof (rule achievesI)
  fix w r w'
  assume run: "run_state (sys f) w = (r, w')"
  let ?w = "w\<lparr>w_tick := Suc (w_tick w)\<rparr>"
  show "writes S w w' \<and> Q r"
  proof (cases "e_fault (w_env w) (w_tick w)")
    case True
    with run assms(2) show ?thesis by (auto simp: sys_def writes_def Let_def)
  next
    case False
    with run have "f ?w = (r, w')" by (simp add: sys_def Let_def)
    with assms(1) have "writes S ?w w' \<and> Q r" by blast
    then show ?thesis by (simp add: writes_def)
  qed
qed

lemma query_frame: "(\<And>f. Q (q f)) \<Longrightarrow> Q (Inl EIO) \<Longrightarrow> achieves (writes S) Q (query q)"
  unfolding query_def by (rule sys_keeps) (auto simp: writes_refl)

lemma query_keeps [eff_intros]: "keeps (writes S) (query q)"
  by (rule query_frame) auto

lemma update_frame:
  assumes "\<And>i f g. u i f = Inr g \<Longrightarrow> differs f g \<subseteq> S"
  shows "keeps (writes S) (update u)"
  unfolding update_def
proof (rule frame.on_bind)
  show "keeps (writes S) (sys (\<lambda>w. case u (w_ino w) (w_fs w) of Inl e \<Rightarrow> (Inl e, w)
      | Inr f \<Rightarrow> (Inr (), w\<lparr>w_fs := f, w_ino := w_ino w + 1\<rparr>)))"
    by (rule sys_keeps) (auto simp: writes_def dest: assms [THEN subsetD] split: sum.splits)
qed (rule frame.on_ret, simp)

lemma keeps_queries [eff_intros]:
  "keeps (writes S) (os_Lstat p)" "keeps (writes S) (os_Stat p)"
  "keeps (writes S) (os_Readlink p)" "keeps (writes S) (os_ReadFile p)"
  "keeps (writes S) (os_ReadDir p)"
  unfolding os_Lstat_def os_Stat_def os_Readlink_def os_ReadFile_def os_ReadDir_def
  by (rule query_keeps)+

lemma keeps_reads [eff_intros]:
  "keeps (writes S) (tick_read h)" "keeps (writes S) time_Now" "keeps (writes S) ctx_Err"
  "keeps (writes S) (process_alive pid)" "keeps (writes S) (env_get g)"
  by (auto simp: tick_read_def time_Now_def ctx_Err_def process_alive_def env_get_def
      intro!: achievesI simp: writes_def)

lemma rand_Read_spec:
  "achieves (writes S) (\<lambda>r. case r of Inr s \<Rightarrow> length s = n | Inl _ \<Rightarrow> True) (rand_Read n)"
  unfolding rand_Read_def by (rule sys_keeps) (auto simp: writes_refl)

lemmas rand_Read_keeps [eff_intros] = keeps_if_achieves [OF rand_Read_spec]

lemma statfs_free_keeps [eff_intros]: "keeps (writes S) statfs_free"
  unfolding statfs_free_def by (rule sys_keeps) (auto simp: writes_refl)

lemma keeps_updates [eff_intros]:
  "comps p \<in> S \<Longrightarrow> keeps (writes S) (os_Mkdir p perm)"
  "comps p \<in> S \<Longrightarrow> keeps (writes S) (os_Symlink t p)"
  "comps p \<in> S \<Longrightarrow> keeps (writes S) (os_Remove p)"
  "comps p \<in> S \<Longrightarrow> keeps (writes S) (open_excl p perm)"
  "comps p \<in> S \<Longrightarrow> keeps (writes S) (file_write p c)"
  "comps p \<in> S \<Longrightarrow> keeps (writes S) (file_chmod p perm)"
  unfolding os_Mkdir_def os_Symlink_def os_Remove_def open_excl_def file_write_def file_chmod_def
  by (auto intro!: update_frame simp: fs_fchmod_def
      dest!: differs_create differs_remove differs_write differs_put [THEN subsetD]
      split: option.splits)

lemma io_step_keeps [eff_intros]: "keeps (writes S) io_step"
  unfolding io_step_def by (rule update_frame) simp

lemma keeps_renames [eff_intros]:
  "subtree (comps a) \<union> subtree (comps b) \<subseteq> S \<Longrightarrow> keeps (writes S) (os_Rename a b)"
  "subtree (comps a) \<union> subtree (comps b) \<subseteq> S \<Longrightarrow> keeps (writes S) (renameNoReplace a b)"
  unfolding os_Rename_def renameNoReplace_def
  by (rule update_frame, drule differs_rename differs_rename_noreplace, blast)+

lemma mkdir_all_keeps:
  fixes S :: "cpath set"
  shows "(\<And>q. prefix q (rev xs) \<Longrightarrow> q \<in> S) \<Longrightarrow>
     keeps (writes S :: 'z world_scheme \<Rightarrow> _) (mkdir_all perm xs)"
proof (induction xs)
  case Nil
  show ?case by (auto intro!: eff_intros)
next
  case (Cons x xs)
  have "keeps (writes S :: 'z world_scheme \<Rightarrow> _) (mkdir_all perm xs)"
    by (rule Cons.IH, rule Cons.prems) simp
  moreover have "keeps (writes S :: 'z world_scheme \<Rightarrow> _)
      (update (\<lambda>i. fs_create KDir perm i (rev (x # xs))))"
    using Cons.prems by (intro update_frame) (auto dest!: differs_create)
  ultimately show ?case
    by (auto intro!: eff_intros simp del: rev.simps)
qed

lemma os_MkdirAll_keeps [eff_intros]:
  "{q. prefix q (comps p)} \<subseteq> S \<Longrightarrow> keeps (writes S) (os_MkdirAll p perm)"
  unfolding os_MkdirAll_def by (rule mkdir_all_keeps) auto

lemma remove_list_keeps:
  fixes S :: "cpath set"
  shows "set qs \<subseteq> S \<Longrightarrow> keeps (writes S :: 'z world_scheme \<Rightarrow> _) (remove_list acc qs)"
proof (induction qs arbitrary: acc)
  case Nil
  show ?case by (auto intro: eff_intros)
next
  case (Cons q qs)
  have "keeps (writes S :: 'z world_scheme \<Rightarrow> _) (update (\<lambda>_. fs_remove q))"
    using Cons.prems by (intro update_frame) (auto dest!: differs_remove)
  then show ?case
    unfolding remove_list.simps by (rule frame.on_bind) (use Cons in simp)
qed

lemma os_RemoveAll_keeps [eff_intros]:
  "subtree (comps p) \<subseteq> S \<Longrightarrow> keeps (writes S) (os_RemoveAll p)"
  unfolding os_RemoveAll_def
  by (rule frame.on_bind [where P = "\<lambda>qs. set qs \<subseteq> S"])
    (auto intro!: frame.on_gets remove_list_keeps simp: set_below)

lemma walk_list_keeps:
  fixes S :: "cpath set" and cb :: "_ \<Rightarrow> _ \<Rightarrow> 'a \<Rightarrow> ('z world_scheme, err + 'a) state"
  shows "(\<And>q r a. q \<in> set qs \<Longrightarrow> keeps (writes S) (cb q r a)) \<Longrightarrow>
    keeps (writes S) (walk_list cb acc qs)"
proof (induction qs arbitrary: acc)
  case Nil
  show ?case by (auto intro: eff_intros)
next
  case (Cons q qs)
  have "keeps (writes S) (walk_list cb a qs)" for a by (rule Cons.IH) (simp add: Cons.prems)
  moreover have "keeps (writes S) (cb q r a)" for r a by (simp add: Cons.prems)
  ultimately show ?case
    by (auto intro!: frame.on_bind query_keeps frame.on_attempt frame.on_ret)
qed

lemma WalkDir_keeps [eff_intros]:
  fixes S :: "cpath set" and cb :: "_ \<Rightarrow> _ \<Rightarrow> 'a \<Rightarrow> ('z world_scheme, err + 'a) state"
  assumes "\<And>q r a. prefix (comps root) q \<Longrightarrow> keeps (writes S) (cb q r a)"
  shows "keeps (writes S) (WalkDir root cb acc)"
  unfolding WalkDir_def
proof (rule frame.on_bind, rule keeps_queries, rule achieves_case_sum)
  show "keeps (writes S) (cb (comps root) (Inl e) acc)" for e by (simp add: assms)
  have "keeps (writes S) (walk_list cb acc qs)" if "set qs \<subseteq> subtree (comps root)" for qs
    using that assms by (intro walk_list_keeps) auto
  then show "keeps (writes S)
      (do { qs \<leftarrow> gets (\<lambda>w. below (comps root) (w_fs w)); walk_list cb acc qs })"
    by (intro frame.on_bind [where P = "\<lambda>qs. set qs \<subseteq> subtree (comps root)"] frame.on_gets)
      (auto simp: set_below)
qed

lemma WalkCheck_keeps [eff_intros]: "keeps (writes S) (WalkCheck root cb)"
  unfolding WalkCheck_def by (auto intro!: eff_intros)

section \<open>Programs that only read\<close>

interpretation still: effect same
  by unfold_locales (auto intro: same_trans)

lemmas [eff_intros] = still.on_control

lemma query_spec: "wp (query q) (\<lambda>r v. same w v \<and> (r = Inl EIO \<or> r = q (w_fs w))) w"
  by (simp add: wp_simps)

lemma query_same [eff_intros]: "keeps same (query q)"
  by (rule achieves_if_wp) (simp add: wp_simps)

lemma reads_same [eff_intros]:
  "keeps same (os_Lstat p)" "keeps same (os_Stat p)" "keeps same (os_Readlink p)"
  "keeps same (os_ReadFile p)" "keeps same (os_ReadDir p)" "keeps same (tick_read h)"
  "keeps same time_Now" "keeps same ctx_Err" "keeps same (process_alive pid)"
  "keeps same (env_get g)" "keeps same (rand_Read n)" "keeps same statfs_free"
  unfolding os_Lstat_def os_Stat_def os_Readlink_def os_ReadFile_def os_ReadDir_def time_Now_def
    ctx_Err_def process_alive_def env_get_def rand_Read_def statfs_free_def
  by (auto intro!: query_same achieves_if_wp simp: wp_simps)

lemma walk_list_same:
  fixes cb :: "_ \<Rightarrow> _ \<Rightarrow> 'a \<Rightarrow> ('z world_scheme, err + 'a) state"
  shows "(\<And>q r a. keeps same (cb q r a)) \<Longrightarrow> keeps same (walk_list cb acc qs)"
  by (induction qs arbitrary: acc) (auto intro!: eff_intros)

lemma WalkDir_same [eff_intros]:
  "(\<And>q r a. keeps same (cb q r a)) \<Longrightarrow> keeps same (WalkDir root cb acc)"
  unfolding WalkDir_def by (auto intro!: eff_intros walk_list_same)

lemma WalkCheck_same [eff_intros]: "keeps same (WalkCheck root cb)"
  unfolding WalkCheck_def by (auto intro!: eff_intros)

lemma keeps_same_writes: "achieves same Q m \<Longrightarrow> achieves (writes S) Q m"
  by (erule achieves_rel_mono) (rule writes_same)

lemma os_read_specs:
  "wp (os_Lstat p) (\<lambda>r v. same w v \<and> (r = Inl EIO \<or> r = fs_lstat (comps p) (w_fs w))) w"
  "wp (os_Stat p) (\<lambda>r v. same w v \<and> (r = Inl EIO \<or> r = fs_stat (comps p) (w_fs w))) w"
  "wp (os_Readlink p) (\<lambda>r v. same w v \<and> (r = Inl EIO \<or> r = fs_readlink (comps p) (w_fs w))) w"
  "wp (os_ReadFile p) (\<lambda>r v. same w v \<and> (r = Inl EIO \<or> r = fs_read (comps p) (w_fs w))) w"
  "wp (os_ReadDir p) (\<lambda>r v. same w v \<and> (r = Inl EIO \<or> r = fs_readdir (comps p) (w_fs w))) w"
  by (simp_all add: os_Lstat_def os_Stat_def os_Readlink_def os_ReadFile_def os_ReadDir_def wp_simps)

text \<open>A program that keeps a relation, as a step in a longer argument.\<close>

lemma wp_keeps: "achieves R Q m \<Longrightarrow> (\<And>r v. R w v \<Longrightarrow> Q r \<Longrightarrow> P r v) \<Longrightarrow> wp m P w"
  by (rule wp_mono [OF achieves_wp]) auto

text \<open>A walk that reports no error has seen every node below the root, and passed it.\<close>

lemma walk_list_checked:
  assumes e: "\<And>q e. cb q (Inl e) \<noteq> None"
  shows "wp (walk_list (\<lambda>q n _. ret (case cb q n of Some e \<Rightarrow> Inl e | None \<Rightarrow> Inr ())) () qs)
     (\<lambda>r w'. w_fs w' = w_fs w \<and>
       (r = Inr () \<longrightarrow> (\<forall>q \<in> set qs. cb q (fs_lstat q (w_fs w)) = None))) w"
proof (induction qs arbitrary: w)
  case Nil
  show ?case by (simp add: wp_simps)
next
  case (Cons q qs)
  show ?case
    unfolding walk_list.simps
  proof (rule wp_bindI [where P = "\<lambda>n v. v = tick w \<and> (n = Inl EIO \<or> n = fs_lstat q (w_fs w))"])
    show "wp (query (fs_lstat q)) (\<lambda>n v. v = tick w \<and> (n = Inl EIO \<or> n = fs_lstat q (w_fs w))) w"
      by (simp add: wp_simps)
  next
    fix n v
    assume *: "v = tick w \<and> (n = Inl EIO \<or> n = fs_lstat q (w_fs w))"
    show "wp (attempt (ret (case cb q n of Some e \<Rightarrow> Inl e | None \<Rightarrow> Inr ())) (\<lambda>e. ret (Inl e))
        (\<lambda>acc. walk_list (\<lambda>q n _. ret (case cb q n of Some e \<Rightarrow> Inl e | None \<Rightarrow> Inr ())) acc qs))
       (\<lambda>r w'. w_fs w' = w_fs w \<and>
         (r = Inr () \<longrightarrow> (\<forall>q \<in> set (q # qs). cb q (fs_lstat q (w_fs w)) = None))) v"
    proof (cases "cb q n")
      case None
      then have "cb q (fs_lstat q (w_fs w)) = None" using * e by metis
      with None * show ?thesis
        by (auto simp: wp_simps intro: wp_mono [OF Cons.IH])
    next
      case (Some x)
      with * show ?thesis by (simp add: wp_simps)
    qed
  qed
qed

lemma WalkCheck_checked:
  assumes e: "\<And>q e. cb q (Inl e) \<noteq> None"
  shows "wp (WalkCheck root cb)
     (\<lambda>r w'. w_fs w' = w_fs w \<and> (r = None \<longrightarrow>
        (\<forall>q n. prefix (comps root) q \<longrightarrow> list_all proper q \<longrightarrow> lookup (w_fs w) q = Some n \<longrightarrow>
           cb q (Inr n) = None))) w"
proof -
  have run: "wp (WalkDir root
       (\<lambda>q n _. ret (case cb q n of Some e \<Rightarrow> Inl e | None \<Rightarrow> Inr ())) ())
     (\<lambda>r w'. w_fs w' = w_fs w \<and> (r = Inr () \<longrightarrow>
        (\<forall>q \<in> set (below (comps root) (w_fs w)). cb q (fs_lstat q (w_fs w)) = None))) w"
    unfolding WalkDir_def
  proof (rule wp_bindI [where P = "\<lambda>_ v. v = tick w"])
    show "wp (os_Lstat root) (\<lambda>_ v. v = tick w) w"
      by (simp add: os_Lstat_def wp_simps)
  next
    fix r and v :: "'a world_scheme"
    assume v: "v = tick w"
    note wl = walk_list_checked [where cb = cb, OF e, where w = v and qs = "below (comps root) (w_fs v)"]
    let ?Q = "\<lambda>r (w' :: 'a world_scheme). w_fs w' = w_fs w \<and> (r = Inr () \<longrightarrow>
        (\<forall>q \<in> set (below (comps root) (w_fs w)). cb q (fs_lstat q (w_fs w)) = None))"
    have "wp (ret (case cb (comps root) (Inl y) of None \<Rightarrow> Inr () | Some e \<Rightarrow> Inl e)) ?Q v" for y
      using e [of "comps root" y] v by (auto simp: wp_simps)
    then show "wp (case r of
        Inl x \<Rightarrow> ret (case cb (comps root) (Inl x) of None \<Rightarrow> Inr () | Some e \<Rightarrow> Inl e)
      | Inr n \<Rightarrow> (do { qs \<leftarrow> gets (\<lambda>w. below (comps root) (w_fs w));
          walk_list (\<lambda>q n _. ret (case cb q n of Some e \<Rightarrow> Inl e | None \<Rightarrow> Inr ())) () qs }))
       ?Q v"
      using wl v by (cases r) (simp_all add: wp_bind wp_gets)
  qed
  show ?thesis
    unfolding WalkCheck_def
    by (rule wp_bindI [OF run])
      (auto simp: wp_simps err_unit_def set_below fs_lstat_def split: sum.splits option.splits)
qed

end

