(* ===== verification/Json.thy ===== *)
theory Json
  imports Machine
begin

text \<open>
  How the program's records are stored: \<open>encoding/json\<close> with \<open>DisallowUnknownFields\<close>. A key of
  the input selects a field by its tag, exactly or else up to letter case; a key of no field
  is an error; \<open>null\<close> leaves the field as it is; a missing key leaves the zero value; a
  number out of the field's range is an error. A string in the form of a time stamp is
  \<open>JTime\<close>. A file written by the program holds the marshalled text, which the decoder reads
  back as the value it was made from (the documented behaviour of the package); any other
  file holds an arbitrary stream of values.
\<close>

section \<open>Decoding a struct\<close>

definition resolve :: "string list \<Rightarrow> string \<Rightarrow> string option" where
  "resolve keys k = (if k \<in> set keys then Some k else find (\<lambda>f. EqualFold f k) keys)"

fun dec_fields ::
  "string list \<Rightarrow> (string \<Rightarrow> json \<Rightarrow> 'a \<Rightarrow> 'a option) \<Rightarrow> (string \<times> json) list \<Rightarrow> 'a \<Rightarrow> 'a option"
where
  "dec_fields keys put [] a = Some a"
| "dec_fields keys put ((k, j) # xs) a =
     (case resolve keys k of
        None \<Rightarrow> None
      | Some f \<Rightarrow> (case put f j a of None \<Rightarrow> None | Some b \<Rightarrow> dec_fields keys put xs b))"

definition dec_obj ::
  "string list \<Rightarrow> (string \<Rightarrow> json \<Rightarrow> 'a \<Rightarrow> 'a option) \<Rightarrow> 'a \<Rightarrow> json \<Rightarrow> 'a option"
where
  "dec_obj keys put zero j =
     (case j of JNull \<Rightarrow> Some zero | JObj xs \<Rightarrow> dec_fields keys put xs zero | _ \<Rightarrow> None)"

lemma resolve_member [simp]: "k \<in> set keys \<Longrightarrow> resolve keys k = Some k"
  by (simp add: resolve_def)

section \<open>Fields\<close>

definition set_str :: "((string \<Rightarrow> string) \<Rightarrow> 'a \<Rightarrow> 'a) \<Rightarrow> json \<Rightarrow> 'a \<Rightarrow> 'a option" where
  "set_str upd j a = (case j of
     JNull \<Rightarrow> Some a | JStr s \<Rightarrow> Some (upd (\<lambda>_. s) a) | _ \<Rightarrow> None)"

definition set_bool :: "((bool \<Rightarrow> bool) \<Rightarrow> 'a \<Rightarrow> 'a) \<Rightarrow> json \<Rightarrow> 'a \<Rightarrow> 'a option" where
  "set_bool upd j a = (case j of
     JNull \<Rightarrow> Some a | JBool b \<Rightarrow> Some (upd (\<lambda>_. b) a) | _ \<Rightarrow> None)"

definition set_time :: "((int \<Rightarrow> int) \<Rightarrow> 'a \<Rightarrow> 'a) \<Rightarrow> json \<Rightarrow> 'a \<Rightarrow> 'a option" where
  "set_time upd j a = (case j of
     JNull \<Rightarrow> Some a | JTime t \<Rightarrow> Some (upd (\<lambda>_. t) a) | _ \<Rightarrow> None)"

definition set_int :: "((int \<Rightarrow> int) \<Rightarrow> 'a \<Rightarrow> 'a) \<Rightarrow> json \<Rightarrow> 'a \<Rightarrow> 'a option" where
  "set_int upd j a = (case j of
     JNull \<Rightarrow> Some a
   | JNum n \<Rightarrow> if - (2 ^ 63) \<le> n \<and> n < 2 ^ 63 then Some (upd (\<lambda>_. n) a) else None
   | _ \<Rightarrow> None)"

definition set_i64 :: "((i64 \<Rightarrow> i64) \<Rightarrow> 'a \<Rightarrow> 'a) \<Rightarrow> json \<Rightarrow> 'a \<Rightarrow> 'a option" where
  "set_i64 upd j a = (case j of
     JNull \<Rightarrow> Some a
   | JNum n \<Rightarrow>
       if - (2 ^ 63) \<le> n \<and> n < 2 ^ 63 then Some (upd (\<lambda>_. word_of_int n) a) else None
   | _ \<Rightarrow> None)"

definition set_uint ::
  "(('w::len word \<Rightarrow> 'w word) \<Rightarrow> 'a \<Rightarrow> 'a) \<Rightarrow> json \<Rightarrow> 'a \<Rightarrow> 'a option"
where
  "set_uint upd j a = (case j of
     JNull \<Rightarrow> Some a
   | JNum n \<Rightarrow>
       if 0 \<le> n \<and> n < 2 ^ LENGTH('w) then Some (upd (\<lambda>_. word_of_int n) a) else None
   | _ \<Rightarrow> None)"

text \<open>A pointer to a struct: \<open>null\<close> sets it to nil, an object fills a new struct.\<close>

definition set_ptr ::
  "(json \<Rightarrow> 'b option) \<Rightarrow> (('b option \<Rightarrow> 'b option) \<Rightarrow> 'a \<Rightarrow> 'a) \<Rightarrow> json \<Rightarrow> 'a \<Rightarrow> 'a option"
where
  "set_ptr dec upd j a = (case j of
     JNull \<Rightarrow> Some (upd (\<lambda>_. None) a)
   | _ \<Rightarrow> (case dec j of None \<Rightarrow> None | Some b \<Rightarrow> Some (upd (\<lambda>_. Some b) a)))"

abbreviation JI64 :: "i64 \<Rightarrow> json" where
  "JI64 w \<equiv> JNum (sint w)"

abbreviation JUint :: "'w::len word \<Rightarrow> json" where
  "JUint w \<equiv> JNum (uint w)"

named_theorems codec_simps

lemma set_str_JStr [codec_simps]: "set_str upd (JStr s) a = Some (upd (\<lambda>_. s) a)"
  by (simp add: set_str_def)

lemma set_bool_JBool [codec_simps]: "set_bool upd (JBool b) a = Some (upd (\<lambda>_. b) a)"
  by (simp add: set_bool_def)

lemma set_time_JTime [codec_simps]: "set_time upd (JTime t) a = Some (upd (\<lambda>_. t) a)"
  by (simp add: set_time_def)

lemma set_i64_JI64 [codec_simps]: "set_i64 upd (JI64 w) a = Some (upd (\<lambda>_. w) a)"
  using sint_ge [of w] sint_lt [of w] by (simp add: set_i64_def)

lemma set_uint_JUint [codec_simps]: "set_uint upd (JUint w) a = Some (upd (\<lambda>_. w) a)"
  by (simp add: set_uint_def)

lemma set_int_JNum [codec_simps]:
  "- (2 ^ 63) \<le> n \<Longrightarrow> n < 2 ^ 63 \<Longrightarrow> set_int upd (JNum n) a = Some (upd (\<lambda>_. n) a)"
  by (simp add: set_int_def)

lemma dec_fields_Cons [codec_simps]:
  "k \<in> set keys \<Longrightarrow> put k j a = Some b \<Longrightarrow>
   dec_fields keys put ((k, j) # xs) a = dec_fields keys put xs b"
  by simp

section \<open>Files of JSON\<close>

text \<open>
  The text of \<open>json.MarshalIndent\<close> or \<open>json.Marshal\<close> with the newline the program appends.
\<close>

definition json_content :: "env \<Rightarrow> bool \<Rightarrow> json \<Rightarrow> content" where
  "json_content e indent j = Content (e_marshal e indent j @ [CHR 0x0A]) [Some j]"

text \<open>A decoder's stream read as exactly one value.\<close>

definition decode_single :: "(json \<Rightarrow> 'a option) \<Rightarrow> json option list \<Rightarrow> err + 'a" where
  "decode_single dec s = (case s of
     [] \<Rightarrow> Inl DecodeError
   | None # _ \<Rightarrow> Inl DecodeError
   | Some j # rest \<Rightarrow> (case dec j of
        None \<Rightarrow> Inl DecodeError
      | Some a \<Rightarrow> (case rest of
          [] \<Rightarrow> Inr a
        | None # _ \<Rightarrow> Inl DecodeError
        | Some _ # _ \<Rightarrow> Inl (Text ''trailing JSON value''))))"

text \<open>And as its first value, the rest ignored.\<close>

definition decode_first :: "(json \<Rightarrow> 'a option) \<Rightarrow> json option list \<Rightarrow> err + 'a" where
  "decode_first dec s = (case s of
     Some j # _ \<Rightarrow> (case dec j of None \<Rightarrow> Inl DecodeError | Some a \<Rightarrow> Inr a)
   | _ \<Rightarrow> Inl DecodeError)"

lemma decode_single_one [simp]: "dec j = Some a \<Longrightarrow> decode_single dec [Some j] = Inr a"
  by (simp add: decode_single_def)

lemma decode_first_one [simp]: "dec j = Some a \<Longrightarrow> decode_first dec (Some j # s) = Inr a"
  by (simp add: decode_first_def)

lemma decode_single_Inr:
  "decode_single dec s = Inr a \<longleftrightarrow> (\<exists>j. s = [Some j] \<and> dec j = Some a)"
  by (auto simp: decode_single_def split: list.splits option.splits)

section \<open>Decimal text\<close>

definition digit_char :: "nat \<Rightarrow> char" where
  "digit_char d = char_of (48 + d mod 10)"

fun dec_nat :: "nat \<Rightarrow> string" where
  "dec_nat n = (if n < 10 then [digit_char n] else dec_nat (n div 10) @ [digit_char (n mod 10)])"

declare dec_nat.simps [simp del]

definition dec_int :: "int \<Rightarrow> string" where
  "dec_int i = (if i < 0 then ''-'' @ dec_nat (nat (- i)) else dec_nat (nat i))"

lemma digit_char_alnum: "alnum (digit_char d)"
proof -
  have "d mod 10 < 10" by simp
  then have "d mod 10 \<in> {0,1,2,3,4,5,6,7,8,9}" by (simp only: insert_iff empty_iff) arith
  then show ?thesis
    unfolding digit_char_def by (elim insertE emptyE) (simp_all only:, code_simp+)
qed

lemma dec_nat_alnum: "list_all alnum (dec_nat n)"
  by (induction n rule: dec_nat.induct) (subst dec_nat.simps, simp add: digit_char_alnum)

lemma dec_int_ident: "list_all ident_char (dec_int i)"
proof -
  have "list_all ident_char (dec_nat n)" for n
    using dec_nat_alnum [of n] by (auto simp: list_all_iff ident_char_def)
  then show ?thesis by (auto simp: dec_int_def ident_char_def)
qed

end
