(* ===== verification/Workspace_Types.thy ===== *)
theory Workspace_Types
  imports Json
begin

text \<open>
  The records of the Windows broker's store (\<open>workspace/types.go\<close>, \<open>workspace/key.go\<close>,
  \<open>internal/libraryimage/key.go\<close>, and \<open>PendingParent\<close> of \<open>workspace/store.go\<close>) with their JSON
  form. A Go \<open>int\<close> is an \<open>int\<close> the decoder keeps to 64 bits, an \<open>int64\<close> a word; the zero time
  is \<open>0\<close>.
\<close>

section \<open>Records\<close>

record LibraryKey =
  lk_SchemaVersion :: string
  lk_Digest :: string
  lk_UnityVersion :: string
  lk_UnityExecutableSHA256 :: string
  lk_ManifestSHA256 :: string
  lk_PackagesLockSHA256 :: string
  lk_ProjectSettingsSHA256 :: string
  lk_BuildTarget :: string
  lk_ScriptingBackend :: string
  lk_ProjectIdentitySHA256 :: string

record CompatibilityKey =
  ck_SchemaVersion :: int
  ck_Digest :: string
  ck_LibraryKey :: LibraryKey
  ck_Provider :: string
  ck_Filesystem :: string
  ck_VirtualBytes :: i64
  ck_BlockBytes :: i64
  ck_SectorBytes :: i64
  ck_LocalPackagesDigest :: string

record SourceSnapshot =
  ss_Digest :: string
  ss_AssetsDigest :: string
  ss_PackagesDigest :: string
  ss_SettingsDigest :: string
  ss_FileCount :: i64
  ss_LogicalBytes :: i64
  ss_LocalPackagesDigest :: string

record FileIdentity =
  fi_VolumeSerial :: string
  fi_FileID :: string

record VolumeIdentity =
  vi_VirtualDiskID :: string
  vi_VolumeGUID :: string
  vi_VolumeSerial :: string
  vi_Filesystem :: string
  vi_ClusterBytes :: i64

record ParentMetadata =
  pm_SchemaVersion :: int
  pm_Provider :: string
  pm_CompatibilityKey :: CompatibilityKey
  pm_SourceSnapshot :: SourceSnapshot
  pm_OwnershipToken :: string
  pm_CreatedAt :: int
  pm_LastUsedAt :: int
  pm_VHDXPath :: string
  pm_FileIdentity :: FileIdentity
  pm_FileWriteTime :: int
  pm_Volume :: VolumeIdentity
  pm_VirtualBytes :: i64
  pm_BlockBytes :: i64
  pm_SectorBytes :: i64
  pm_LogicalBytes :: i64
  pm_AllocatedBytes :: i64
  pm_CommittedSHA256 :: string
  pm_Immutable :: bool

record LeaseJournal =
  jn_SchemaVersion :: int
  jn_LeaseID :: string
  jn_RunID :: string
  jn_UserSID :: string
  jn_OwnershipToken :: string
  jn_ParentKey :: string
  jn_ParentPath :: string
  jn_ChildPath :: string
  jn_WorkspaceID :: string
  jn_WorkspacePath :: string
  jn_MountPath :: string
  jn_State :: string
  jn_BootSessionID :: string
  jn_ClientPID :: int
  jn_UnityPID :: int
  jn_Retained :: bool
  jn_CreatedAt :: int
  jn_UpdatedAt :: int
  jn_FileIdentity :: FileIdentity
  jn_PhysicalPath :: string
  jn_VolumeGUID :: string
  jn_RecoveryAt :: "int option"
  jn_RecoveryError :: string

record RetainedRecord =
  rr_SchemaVersion :: int
  rr_RunID :: string
  rr_LeaseID :: string
  rr_OwnershipToken :: string
  rr_ParentKey :: string
  rr_ChildPath :: string
  rr_CreatedAt :: int

record PendingParent =
  pp_TransactionID :: string
  pp_UserSID :: string
  pp_OwnershipToken :: string
  pp_Key :: CompatibilityKey
  pp_Source :: SourceSnapshot
  pp_StagingPath :: string
  pp_MountPath :: string
  pp_CreatedAt :: int
  pp_UpdatedAt :: int
  pp_ClientPID :: int

record Capacity =
  cp_QuotaBytes :: i64
  cp_AllocatedBytes :: i64
  cp_ReclaimableBytes :: i64
  cp_HostFreeBytes :: i64
  cp_HostFloorBytes :: i64
  cp_ReserveBytes :: i64

definition Provider :: string where
  "Provider = ''vhdx-differencing''"

definition ParentSchemaVersion :: int where
  "ParentSchemaVersion = 2"

definition ProtocolSchemaVersion :: int where
  "ProtocolSchemaVersion = 2"

section \<open>Nested structs and omitted fields\<close>

text \<open>An object decoded into a struct field fills the struct in place.\<close>

definition set_rec ::
  "string list \<Rightarrow> (string \<Rightarrow> json \<Rightarrow> 'b \<Rightarrow> 'b option) \<Rightarrow> ('a \<Rightarrow> 'b) \<Rightarrow> (('b \<Rightarrow> 'b) \<Rightarrow> 'a \<Rightarrow> 'a) \<Rightarrow>
   json \<Rightarrow> 'a \<Rightarrow> 'a option"
where
  "set_rec keys put get upd j a = (case j of
     JNull \<Rightarrow> Some a
   | JObj xs \<Rightarrow> map_option (\<lambda>b. upd (\<lambda>_. b) a) (dec_fields keys put xs (get a))
   | _ \<Rightarrow> None)"

definition dec_time :: "json \<Rightarrow> int option" where
  "dec_time j = (case j of JTime t \<Rightarrow> Some t | _ \<Rightarrow> None)"

definition omit_str :: "string \<Rightarrow> string \<Rightarrow> (string \<times> json) list" where
  "omit_str k s = (if s = '''' then [] else [(k, JStr s)])"

definition omit_int :: "string \<Rightarrow> int \<Rightarrow> (string \<times> json) list" where
  "omit_int k i = (if i = 0 then [] else [(k, JNum i)])"

section \<open>The library key and the compatibility key\<close>

definition library_keys :: "string list" where
  "library_keys = [''schemaVersion'', ''digest'', ''unityVersion'', ''unityExecutableSha256'',
     ''manifestSha256'', ''packagesLockSha256'', ''projectSettingsSha256'', ''buildTarget'',
     ''scriptingBackend'', ''projectIdentitySha256'']"

definition library_put :: "string \<Rightarrow> json \<Rightarrow> LibraryKey \<Rightarrow> LibraryKey option" where
  "library_put k =
     (if k = ''schemaVersion'' then set_str lk_SchemaVersion_update
      else if k = ''digest'' then set_str lk_Digest_update
      else if k = ''unityVersion'' then set_str lk_UnityVersion_update
      else if k = ''unityExecutableSha256'' then set_str lk_UnityExecutableSHA256_update
      else if k = ''manifestSha256'' then set_str lk_ManifestSHA256_update
      else if k = ''packagesLockSha256'' then set_str lk_PackagesLockSHA256_update
      else if k = ''projectSettingsSha256'' then set_str lk_ProjectSettingsSHA256_update
      else if k = ''buildTarget'' then set_str lk_BuildTarget_update
      else if k = ''scriptingBackend'' then set_str lk_ScriptingBackend_update
      else set_str lk_ProjectIdentitySHA256_update)"

definition zero_library :: LibraryKey where
  "zero_library = \<lparr>lk_SchemaVersion = '''', lk_Digest = '''', lk_UnityVersion = '''',
     lk_UnityExecutableSHA256 = '''', lk_ManifestSHA256 = '''', lk_PackagesLockSHA256 = '''',
     lk_ProjectSettingsSHA256 = '''', lk_BuildTarget = '''', lk_ScriptingBackend = '''',
     lk_ProjectIdentitySHA256 = ''''\<rparr>"

definition enc_library :: "LibraryKey \<Rightarrow> json" where
  "enc_library k = JObj
     [(''schemaVersion'', JStr (lk_SchemaVersion k)), (''digest'', JStr (lk_Digest k)),
      (''unityVersion'', JStr (lk_UnityVersion k)),
      (''unityExecutableSha256'', JStr (lk_UnityExecutableSHA256 k)),
      (''manifestSha256'', JStr (lk_ManifestSHA256 k)),
      (''packagesLockSha256'', JStr (lk_PackagesLockSHA256 k)),
      (''projectSettingsSha256'', JStr (lk_ProjectSettingsSHA256 k)),
      (''buildTarget'', JStr (lk_BuildTarget k)),
      (''scriptingBackend'', JStr (lk_ScriptingBackend k)),
      (''projectIdentitySha256'', JStr (lk_ProjectIdentitySHA256 k))]"

definition key_keys :: "string list" where
  "key_keys = [''schemaVersion'', ''digest'', ''libraryKey'', ''provider'', ''filesystem'',
     ''virtualBytes'', ''blockBytes'', ''sectorBytes'', ''localPackagesDigest'']"

definition key_put :: "string \<Rightarrow> json \<Rightarrow> CompatibilityKey \<Rightarrow> CompatibilityKey option" where
  "key_put k =
     (if k = ''schemaVersion'' then set_int ck_SchemaVersion_update
      else if k = ''digest'' then set_str ck_Digest_update
      else if k = ''libraryKey'' then
        set_rec library_keys library_put ck_LibraryKey ck_LibraryKey_update
      else if k = ''provider'' then set_str ck_Provider_update
      else if k = ''filesystem'' then set_str ck_Filesystem_update
      else if k = ''virtualBytes'' then set_i64 ck_VirtualBytes_update
      else if k = ''blockBytes'' then set_i64 ck_BlockBytes_update
      else if k = ''sectorBytes'' then set_i64 ck_SectorBytes_update
      else set_str ck_LocalPackagesDigest_update)"

definition zero_key :: CompatibilityKey where
  "zero_key = \<lparr>ck_SchemaVersion = 0, ck_Digest = '''', ck_LibraryKey = zero_library,
     ck_Provider = '''', ck_Filesystem = '''', ck_VirtualBytes = 0, ck_BlockBytes = 0,
     ck_SectorBytes = 0, ck_LocalPackagesDigest = ''''\<rparr>"

definition enc_key :: "CompatibilityKey \<Rightarrow> json" where
  "enc_key k = JObj (
     [(''schemaVersion'', JNum (ck_SchemaVersion k)), (''digest'', JStr (ck_Digest k)),
      (''libraryKey'', enc_library (ck_LibraryKey k)), (''provider'', JStr (ck_Provider k)),
      (''filesystem'', JStr (ck_Filesystem k)), (''virtualBytes'', JI64 (ck_VirtualBytes k)),
      (''blockBytes'', JI64 (ck_BlockBytes k)), (''sectorBytes'', JI64 (ck_SectorBytes k))]
     @ omit_str ''localPackagesDigest'' (ck_LocalPackagesDigest k))"

definition snapshot_keys :: "string list" where
  "snapshot_keys = [''digest'', ''assetsDigest'', ''packagesDigest'', ''projectSettingsDigest'',
     ''fileCount'', ''logicalBytes'', ''localPackagesDigest'']"

definition source_put :: "string \<Rightarrow> json \<Rightarrow> SourceSnapshot \<Rightarrow> SourceSnapshot option" where
  "source_put k =
     (if k = ''digest'' then set_str ss_Digest_update
      else if k = ''assetsDigest'' then set_str ss_AssetsDigest_update
      else if k = ''packagesDigest'' then set_str ss_PackagesDigest_update
      else if k = ''projectSettingsDigest'' then set_str ss_SettingsDigest_update
      else if k = ''fileCount'' then set_i64 ss_FileCount_update
      else if k = ''logicalBytes'' then set_i64 ss_LogicalBytes_update
      else set_str ss_LocalPackagesDigest_update)"

definition zero_source :: SourceSnapshot where
  "zero_source = \<lparr>ss_Digest = '''', ss_AssetsDigest = '''', ss_PackagesDigest = '''',
     ss_SettingsDigest = '''', ss_FileCount = 0, ss_LogicalBytes = 0, ss_LocalPackagesDigest = ''''\<rparr>"

definition enc_source :: "SourceSnapshot \<Rightarrow> json" where
  "enc_source s = JObj (
     [(''digest'', JStr (ss_Digest s)), (''assetsDigest'', JStr (ss_AssetsDigest s)),
      (''packagesDigest'', JStr (ss_PackagesDigest s)),
      (''projectSettingsDigest'', JStr (ss_SettingsDigest s)),
      (''fileCount'', JI64 (ss_FileCount s)), (''logicalBytes'', JI64 (ss_LogicalBytes s))]
     @ omit_str ''localPackagesDigest'' (ss_LocalPackagesDigest s))"

section \<open>Identities\<close>

definition file_put :: "string \<Rightarrow> json \<Rightarrow> FileIdentity \<Rightarrow> FileIdentity option" where
  "file_put k = (if k = ''volumeSerial'' then set_str fi_VolumeSerial_update else set_str fi_FileID_update)"

definition file_keys :: "string list" where
  "file_keys = [''volumeSerial'', ''fileId'']"

definition zero_file :: FileIdentity where
  "zero_file = \<lparr>fi_VolumeSerial = '''', fi_FileID = ''''\<rparr>"

definition enc_file :: "FileIdentity \<Rightarrow> json" where
  "enc_file i = JObj [(''volumeSerial'', JStr (fi_VolumeSerial i)), (''fileId'', JStr (fi_FileID i))]"

definition volume_keys :: "string list" where
  "volume_keys = [''virtualDiskId'', ''volumeGuid'', ''volumeSerial'', ''filesystem'', ''clusterBytes'']"

definition volume_put :: "string \<Rightarrow> json \<Rightarrow> VolumeIdentity \<Rightarrow> VolumeIdentity option" where
  "volume_put k =
     (if k = ''virtualDiskId'' then set_str vi_VirtualDiskID_update
      else if k = ''volumeGuid'' then set_str vi_VolumeGUID_update
      else if k = ''volumeSerial'' then set_str vi_VolumeSerial_update
      else if k = ''filesystem'' then set_str vi_Filesystem_update
      else set_i64 vi_ClusterBytes_update)"

definition zero_volume :: VolumeIdentity where
  "zero_volume = \<lparr>vi_VirtualDiskID = '''', vi_VolumeGUID = '''', vi_VolumeSerial = '''',
     vi_Filesystem = '''', vi_ClusterBytes = 0\<rparr>"

definition enc_volume :: "VolumeIdentity \<Rightarrow> json" where
  "enc_volume v = JObj
     [(''virtualDiskId'', JStr (vi_VirtualDiskID v)), (''volumeGuid'', JStr (vi_VolumeGUID v)),
      (''volumeSerial'', JStr (vi_VolumeSerial v)), (''filesystem'', JStr (vi_Filesystem v)),
      (''clusterBytes'', JI64 (vi_ClusterBytes v))]"

section \<open>Parent metadata\<close>

definition metadata_keys :: "string list" where
  "metadata_keys = [''schemaVersion'', ''provider'', ''compatibilityKey'', ''sourceSnapshot'',
     ''ownershipToken'', ''createdAt'', ''lastUsedAt'', ''vhdxPath'', ''fileIdentity'',
     ''fileWriteTime'', ''volume'', ''virtualBytes'', ''blockBytes'', ''sectorBytes'',
     ''logicalBytes'', ''allocatedBytes'', ''committedSha256'', ''immutable'']"

definition metadata_put :: "string \<Rightarrow> json \<Rightarrow> ParentMetadata \<Rightarrow> ParentMetadata option" where
  "metadata_put k =
     (if k = ''schemaVersion'' then set_int pm_SchemaVersion_update
      else if k = ''provider'' then set_str pm_Provider_update
      else if k = ''compatibilityKey'' then
        set_rec key_keys key_put pm_CompatibilityKey pm_CompatibilityKey_update
      else if k = ''sourceSnapshot'' then
        set_rec snapshot_keys source_put pm_SourceSnapshot pm_SourceSnapshot_update
      else if k = ''ownershipToken'' then set_str pm_OwnershipToken_update
      else if k = ''createdAt'' then set_time pm_CreatedAt_update
      else if k = ''lastUsedAt'' then set_time pm_LastUsedAt_update
      else if k = ''vhdxPath'' then set_str pm_VHDXPath_update
      else if k = ''fileIdentity'' then
        set_rec file_keys file_put pm_FileIdentity pm_FileIdentity_update
      else if k = ''fileWriteTime'' then set_time pm_FileWriteTime_update
      else if k = ''volume'' then set_rec volume_keys volume_put pm_Volume pm_Volume_update
      else if k = ''virtualBytes'' then set_i64 pm_VirtualBytes_update
      else if k = ''blockBytes'' then set_i64 pm_BlockBytes_update
      else if k = ''sectorBytes'' then set_i64 pm_SectorBytes_update
      else if k = ''logicalBytes'' then set_i64 pm_LogicalBytes_update
      else if k = ''allocatedBytes'' then set_i64 pm_AllocatedBytes_update
      else if k = ''committedSha256'' then set_str pm_CommittedSHA256_update
      else set_bool pm_Immutable_update)"

definition zero_metadata :: ParentMetadata where
  "zero_metadata = \<lparr>pm_SchemaVersion = 0, pm_Provider = '''', pm_CompatibilityKey = zero_key,
     pm_SourceSnapshot = zero_source, pm_OwnershipToken = '''', pm_CreatedAt = 0, pm_LastUsedAt = 0,
     pm_VHDXPath = '''', pm_FileIdentity = zero_file, pm_FileWriteTime = 0, pm_Volume = zero_volume,
     pm_VirtualBytes = 0, pm_BlockBytes = 0, pm_SectorBytes = 0, pm_LogicalBytes = 0,
     pm_AllocatedBytes = 0, pm_CommittedSHA256 = '''', pm_Immutable = False\<rparr>"

definition dec_metadata :: "json \<Rightarrow> ParentMetadata option" where
  "dec_metadata = dec_obj metadata_keys metadata_put zero_metadata"

definition enc_metadata :: "ParentMetadata \<Rightarrow> json" where
  "enc_metadata m = JObj
     [(''schemaVersion'', JNum (pm_SchemaVersion m)), (''provider'', JStr (pm_Provider m)),
      (''compatibilityKey'', enc_key (pm_CompatibilityKey m)),
      (''sourceSnapshot'', enc_source (pm_SourceSnapshot m)),
      (''ownershipToken'', JStr (pm_OwnershipToken m)), (''createdAt'', JTime (pm_CreatedAt m)),
      (''lastUsedAt'', JTime (pm_LastUsedAt m)), (''vhdxPath'', JStr (pm_VHDXPath m)),
      (''fileIdentity'', enc_file (pm_FileIdentity m)),
      (''fileWriteTime'', JTime (pm_FileWriteTime m)), (''volume'', enc_volume (pm_Volume m)),
      (''virtualBytes'', JI64 (pm_VirtualBytes m)), (''blockBytes'', JI64 (pm_BlockBytes m)),
      (''sectorBytes'', JI64 (pm_SectorBytes m)), (''logicalBytes'', JI64 (pm_LogicalBytes m)),
      (''allocatedBytes'', JI64 (pm_AllocatedBytes m)),
      (''committedSha256'', JStr (pm_CommittedSHA256 m)), (''immutable'', JBool (pm_Immutable m))]"

section \<open>Lease journals, retained records and pending parents\<close>

definition lease_put :: "string \<Rightarrow> json \<Rightarrow> LeaseJournal \<Rightarrow> LeaseJournal option" where
  "lease_put k =
     (if k = ''schemaVersion'' then set_int jn_SchemaVersion_update
      else if k = ''leaseId'' then set_str jn_LeaseID_update
      else if k = ''runId'' then set_str jn_RunID_update
      else if k = ''userSid'' then set_str jn_UserSID_update
      else if k = ''ownershipToken'' then set_str jn_OwnershipToken_update
      else if k = ''parentKey'' then set_str jn_ParentKey_update
      else if k = ''parentPath'' then set_str jn_ParentPath_update
      else if k = ''childPath'' then set_str jn_ChildPath_update
      else if k = ''workspaceId'' then set_str jn_WorkspaceID_update
      else if k = ''workspacePath'' then set_str jn_WorkspacePath_update
      else if k = ''mountPath'' then set_str jn_MountPath_update
      else if k = ''state'' then set_str jn_State_update
      else if k = ''bootSessionId'' then set_str jn_BootSessionID_update
      else if k = ''clientPid'' then set_int jn_ClientPID_update
      else if k = ''unityPid'' then set_int jn_UnityPID_update
      else if k = ''retained'' then set_bool jn_Retained_update
      else if k = ''createdAt'' then set_time jn_CreatedAt_update
      else if k = ''updatedAt'' then set_time jn_UpdatedAt_update
      else if k = ''fileIdentity'' then
        set_rec file_keys file_put jn_FileIdentity jn_FileIdentity_update
      else if k = ''physicalPath'' then set_str jn_PhysicalPath_update
      else if k = ''volumeGuid'' then set_str jn_VolumeGUID_update
      else if k = ''recoveryAt'' then set_ptr dec_time jn_RecoveryAt_update
      else set_str jn_RecoveryError_update)"

definition zero_journal :: LeaseJournal where
  "zero_journal = \<lparr>jn_SchemaVersion = 0, jn_LeaseID = '''', jn_RunID = '''', jn_UserSID = '''',
     jn_OwnershipToken = '''', jn_ParentKey = '''', jn_ParentPath = '''', jn_ChildPath = '''',
     jn_WorkspaceID = '''', jn_WorkspacePath = '''', jn_MountPath = '''', jn_State = '''',
     jn_BootSessionID = '''', jn_ClientPID = 0, jn_UnityPID = 0, jn_Retained = False,
     jn_CreatedAt = 0, jn_UpdatedAt = 0, jn_FileIdentity = zero_file, jn_PhysicalPath = '''',
     jn_VolumeGUID = '''', jn_RecoveryAt = None, jn_RecoveryError = ''''\<rparr>"

definition dec_lease :: "json \<Rightarrow> LeaseJournal option" where
  "dec_lease = dec_obj [''schemaVersion'', ''leaseId'', ''runId'', ''userSid'', ''ownershipToken'',
     ''parentKey'', ''parentPath'', ''childPath'', ''workspaceId'', ''workspacePath'',
     ''mountPath'', ''state'', ''bootSessionId'', ''clientPid'', ''unityPid'', ''retained'',
     ''createdAt'', ''updatedAt'', ''fileIdentity'', ''physicalPath'', ''volumeGuid'',
     ''recoveryAt'', ''recoveryError''] lease_put zero_journal"

definition enc_lease :: "LeaseJournal \<Rightarrow> json" where
  "enc_lease j = JObj (
     [(''schemaVersion'', JNum (jn_SchemaVersion j)), (''leaseId'', JStr (jn_LeaseID j)),
      (''runId'', JStr (jn_RunID j)), (''userSid'', JStr (jn_UserSID j)),
      (''ownershipToken'', JStr (jn_OwnershipToken j)), (''parentKey'', JStr (jn_ParentKey j)),
      (''parentPath'', JStr (jn_ParentPath j)), (''childPath'', JStr (jn_ChildPath j))]
     @ omit_str ''workspaceId'' (jn_WorkspaceID j) @ omit_str ''workspacePath'' (jn_WorkspacePath j)
     @ [(''mountPath'', JStr (jn_MountPath j)), (''state'', JStr (jn_State j))]
     @ omit_str ''bootSessionId'' (jn_BootSessionID j)
     @ [(''clientPid'', JNum (jn_ClientPID j))] @ omit_int ''unityPid'' (jn_UnityPID j)
     @ [(''retained'', JBool (jn_Retained j)), (''createdAt'', JTime (jn_CreatedAt j)),
        (''updatedAt'', JTime (jn_UpdatedAt j)), (''fileIdentity'', enc_file (jn_FileIdentity j))]
     @ omit_str ''physicalPath'' (jn_PhysicalPath j) @ omit_str ''volumeGuid'' (jn_VolumeGUID j)
     @ (case jn_RecoveryAt j of None \<Rightarrow> [] | Some t \<Rightarrow> [(''recoveryAt'', JTime t)])
     @ omit_str ''recoveryError'' (jn_RecoveryError j))"

definition retained_put :: "string \<Rightarrow> json \<Rightarrow> RetainedRecord \<Rightarrow> RetainedRecord option" where
  "retained_put k =
     (if k = ''schemaVersion'' then set_int rr_SchemaVersion_update
      else if k = ''runId'' then set_str rr_RunID_update
      else if k = ''leaseId'' then set_str rr_LeaseID_update
      else if k = ''ownershipToken'' then set_str rr_OwnershipToken_update
      else if k = ''parentKey'' then set_str rr_ParentKey_update
      else if k = ''childPath'' then set_str rr_ChildPath_update
      else set_time rr_CreatedAt_update)"

definition dec_retained :: "json \<Rightarrow> RetainedRecord option" where
  "dec_retained = dec_obj [''schemaVersion'', ''runId'', ''leaseId'', ''ownershipToken'',
     ''parentKey'', ''childPath'', ''createdAt''] retained_put
     \<lparr>rr_SchemaVersion = 0, rr_RunID = '''', rr_LeaseID = '''', rr_OwnershipToken = '''',
      rr_ParentKey = '''', rr_ChildPath = '''', rr_CreatedAt = 0\<rparr>"

definition enc_retained :: "RetainedRecord \<Rightarrow> json" where
  "enc_retained r = JObj
     [(''schemaVersion'', JNum (rr_SchemaVersion r)), (''runId'', JStr (rr_RunID r)),
      (''leaseId'', JStr (rr_LeaseID r)), (''ownershipToken'', JStr (rr_OwnershipToken r)),
      (''parentKey'', JStr (rr_ParentKey r)), (''childPath'', JStr (rr_ChildPath r)),
      (''createdAt'', JTime (rr_CreatedAt r))]"

definition pending_parent_put :: "string \<Rightarrow> json \<Rightarrow> PendingParent \<Rightarrow> PendingParent option" where
  "pending_parent_put k =
     (if k = ''transactionId'' then set_str pp_TransactionID_update
      else if k = ''userSid'' then set_str pp_UserSID_update
      else if k = ''ownershipToken'' then set_str pp_OwnershipToken_update
      else if k = ''compatibilityKey'' then set_rec key_keys key_put pp_Key pp_Key_update
      else if k = ''sourceSnapshot'' then set_rec snapshot_keys source_put pp_Source pp_Source_update
      else if k = ''stagingPath'' then set_str pp_StagingPath_update
      else if k = ''mountPath'' then set_str pp_MountPath_update
      else if k = ''createdAt'' then set_time pp_CreatedAt_update
      else if k = ''updatedAt'' then set_time pp_UpdatedAt_update
      else set_int pp_ClientPID_update)"

definition dec_pending_parent :: "json \<Rightarrow> PendingParent option" where
  "dec_pending_parent = dec_obj [''transactionId'', ''userSid'', ''ownershipToken'',
     ''compatibilityKey'', ''sourceSnapshot'', ''stagingPath'', ''mountPath'', ''createdAt'',
     ''updatedAt'', ''clientPid''] pending_parent_put
     \<lparr>pp_TransactionID = '''', pp_UserSID = '''', pp_OwnershipToken = '''', pp_Key = zero_key,
      pp_Source = zero_source, pp_StagingPath = '''', pp_MountPath = '''', pp_CreatedAt = 0,
      pp_UpdatedAt = 0, pp_ClientPID = 0\<rparr>"

definition enc_pending_parent :: "PendingParent \<Rightarrow> json" where
  "enc_pending_parent p = JObj (
     [(''transactionId'', JStr (pp_TransactionID p)), (''userSid'', JStr (pp_UserSID p)),
      (''ownershipToken'', JStr (pp_OwnershipToken p)),
      (''compatibilityKey'', enc_key (pp_Key p)), (''sourceSnapshot'', enc_source (pp_Source p)),
      (''stagingPath'', JStr (pp_StagingPath p)), (''mountPath'', JStr (pp_MountPath p)),
      (''createdAt'', JTime (pp_CreatedAt p)), (''updatedAt'', JTime (pp_UpdatedAt p))]
     @ omit_int ''clientPid'' (pp_ClientPID p))"

section \<open>Round trips\<close>

definition go_int :: "int \<Rightarrow> bool" where
  "go_int i \<longleftrightarrow> - (2 ^ 63) \<le> i \<and> i < 2 ^ 63"

lemma set_int_go [codec_simps]: "go_int i \<Longrightarrow> set_int upd (JNum i) a = Some (upd (\<lambda>_. i) a)"
  by (simp add: go_int_def set_int_JNum)

lemma go_int_zero [simp]: "go_int 0"
  by (simp add: go_int_def)

text \<open>An omitted field reads back as its zero value.\<close>

lemma dec_omit [codec_simps]:
  "k \<in> set keys \<Longrightarrow> put k (JStr s) a = Some b \<Longrightarrow> (s = '''' \<Longrightarrow> b = a) \<Longrightarrow>
   dec_fields keys put (omit_str k s @ ys) a = dec_fields keys put ys b"
  "k \<in> set keys \<Longrightarrow> put k (JStr s) a = Some b \<Longrightarrow> (s = '''' \<Longrightarrow> b = a) \<Longrightarrow>
   dec_fields keys put (omit_str k s) a = Some b"
  "k \<in> set keys \<Longrightarrow> put k (JNum i) a = Some b \<Longrightarrow> (i = 0 \<Longrightarrow> b = a) \<Longrightarrow>
   dec_fields keys put (omit_int k i @ ys) a = dec_fields keys put ys b"
  "k \<in> set keys \<Longrightarrow> put k (JNum i) a = Some b \<Longrightarrow> (i = 0 \<Longrightarrow> b = a) \<Longrightarrow>
   dec_fields keys put (omit_int k i) a = Some b"
  by (auto simp: omit_str_def omit_int_def)

lemma set_rec_enc:
  "dec_fields keys put xs (get a) = Some b \<Longrightarrow>
   set_rec keys put get upd (JObj xs) a = Some (upd (\<lambda>_. b) a)"
  by (simp add: set_rec_def)

lemma set_rec_file [codec_simps]:
  "get a = zero_file \<Longrightarrow>
   set_rec file_keys file_put get upd (enc_file i) a = Some (upd (\<lambda>_. i) a)"
  by (cases i) (simp add: set_rec_def enc_file_def file_keys_def file_put_def zero_file_def codec_simps)

lemma set_rec_volume [codec_simps]:
  "get a = zero_volume \<Longrightarrow>
   set_rec volume_keys volume_put get upd (enc_volume v) a = Some (upd (\<lambda>_. v) a)"
  by (cases v)
    (simp add: set_rec_def enc_volume_def volume_keys_def volume_put_def zero_volume_def codec_simps)

lemma set_rec_library [codec_simps]:
  "get a = zero_library \<Longrightarrow>
   set_rec library_keys library_put get upd (enc_library l) a = Some (upd (\<lambda>_. l) a)"
  by (cases l)
    (simp add: set_rec_def enc_library_def library_keys_def library_put_def zero_library_def codec_simps)

lemma set_rec_source [codec_simps]:
  "get a = zero_source \<Longrightarrow>
   set_rec snapshot_keys source_put get upd (enc_source s) a = Some (upd (\<lambda>_. s) a)"
  by (cases s)
    (simp add: set_rec_def enc_source_def snapshot_keys_def source_put_def zero_source_def codec_simps)

lemma set_rec_key [codec_simps]:
  "get a = zero_key \<Longrightarrow> go_int (ck_SchemaVersion k) \<Longrightarrow>
   set_rec key_keys key_put get upd (enc_key k) a = Some (upd (\<lambda>_. k) a)"
  unfolding enc_key_def
  by (rule set_rec_enc)
    (cases k, simp add: key_keys_def key_put_def zero_key_def codec_simps)

lemma dec_enc_metadata:
  "go_int (pm_SchemaVersion m) \<Longrightarrow> go_int (ck_SchemaVersion (pm_CompatibilityKey m)) \<Longrightarrow>
   dec_metadata (enc_metadata m) = Some m"
  by (cases m) (simp add: dec_metadata_def enc_metadata_def dec_obj_def metadata_keys_def
      metadata_put_def zero_metadata_def codec_simps)

lemma dec_enc_retained: "go_int (rr_SchemaVersion r) \<Longrightarrow> dec_retained (enc_retained r) = Some r"
  by (cases r) (simp add: dec_retained_def enc_retained_def dec_obj_def retained_put_def codec_simps)

lemma dec_enc_pending_parent:
  "go_int (ck_SchemaVersion (pp_Key p)) \<Longrightarrow> go_int (pp_ClientPID p) \<Longrightarrow>
   dec_pending_parent (enc_pending_parent p) = Some p"
  by (cases p) (simp add: dec_pending_parent_def enc_pending_parent_def dec_obj_def
      pending_parent_put_def codec_simps)

lemma set_ptr_time [codec_simps]: "set_ptr dec_time upd (JTime t) a = Some (upd (\<lambda>_. Some t) a)"
  by (simp add: set_ptr_def dec_time_def)

lemma dec_enc_lease:
  "go_int (jn_SchemaVersion j) \<Longrightarrow> go_int (jn_ClientPID j) \<Longrightarrow> go_int (jn_UnityPID j) \<Longrightarrow>
   dec_lease (enc_lease j) = Some j"
  by (cases j; cases "jn_RecoveryAt j")
    (simp_all add: dec_lease_def enc_lease_def dec_obj_def lease_put_def zero_journal_def codec_simps)

end
