(* ===== verification/Atomic_File.thy ===== *)
theory Atomic_File
  imports Json
begin

text \<open>
  \<open>internal/atomicfile\<close>: durable replacement of a file through a temporary one
  (\<open>WriteDurable\<close>), exclusive creation (\<open>WriteExclusiveDurable\<close>), the plain variant
  (\<open>Write\<close>), and the bounded rename retry. The lemmas say which paths each may touch, that
  success means the bytes are there, and that a reader of the target never sees anything
  but the old file or the complete new one, whatever fails.
\<close>

section \<open>Definitions\<close>

definition renameAttempts :: nat where
  "renameAttempts = 100"

primrec rename_loop ::
  "nat \<Rightarrow> err option \<Rightarrow> string \<Rightarrow> string \<Rightarrow> ('z world_scheme, err option) state"
where
  "rename_loop 0 err oldpath newpath = ret err"
| "rename_loop (Suc n) err oldpath newpath =
     check (os_Rename oldpath newpath) (\<lambda>e. rename_loop n (Some e) oldpath newpath) (ret None)"

definition Rename :: "string \<Rightarrow> string \<Rightarrow> ('z world_scheme, err option) state" where
  "Rename oldpath newpath = rename_loop renameAttempts None oldpath newpath"

definition Write :: "string \<Rightarrow> content \<Rightarrow> 32 word \<Rightarrow> ('z world_scheme, err option) state" where
  "Write path data perm =
     (let tmp = path @ ''.tmp'' in
      check (os_WriteFile tmp data perm) (\<lambda>e. ret (Some e))
        (check (Rename tmp path) (\<lambda>e. ignore (os_Remove tmp) (ret (Some e))) (ret None)))"

text \<open>\<open>os.CreateTemp\<close>: up to 10000 random names, opened exclusively with mode 0600.\<close>

definition temp_suffix :: "env \<Rightarrow> nat \<Rightarrow> string" where
  "temp_suffix e t = dec_nat (fold (\<lambda>i n. 256 * n + of_char (e_rand e t i)) [0..<4] 0)"

definition join_path :: "string \<Rightarrow> string \<Rightarrow> string" where
  "join_path dir name =
     (if dir \<noteq> '''' \<and> last dir = slash then dir @ name else dir @ slash # name)"

primrec create_temp :: "nat \<Rightarrow> string \<Rightarrow> string \<Rightarrow> ('z world_scheme, err + string) state" where
  "create_temp 0 dir pattern = ret (Inl EEXIST)"
| "create_temp (Suc n) dir pattern = do {
     suffix \<leftarrow> tick_read temp_suffix;
     let name = join_path dir (pattern @ suffix);
     check (open_excl name 384)
       (\<lambda>e. if IsExist e then create_temp n dir pattern else ret (Inl e)) (ret (Inr name)) }"

definition os_CreateTemp :: "string \<Rightarrow> string \<Rightarrow> ('z world_scheme, err + string) state" where
  "os_CreateTemp dir pattern =
     (if slash \<in> set pattern then ret (Inl (Text ''pattern contains path separator''))
      else create_temp 10000 dir pattern)"

definition errorsJoin :: "err option \<Rightarrow> err option \<Rightarrow> err option" where
  "errorsJoin primary cleanup = (case primary of
       Some e \<Rightarrow> (case cleanup of Some _ \<Rightarrow> Some (Wrapped ''cleanup'' e) | None \<Rightarrow> Some e)
     | None \<Rightarrow> cleanup)"

definition temp_pattern :: "string \<Rightarrow> string" where
  "temp_pattern base = ''.'' @ base @ ''.tmp-''"

text \<open>The deferred function of both writers.\<close>

definition write_exit ::
  "bool \<Rightarrow> string \<Rightarrow> err option \<Rightarrow> ('z world_scheme, err option) state"
where
  "write_exit closed created returnErr = do {
     returnErr \<leftarrow> (if closed then ret returnErr
                  else do { c \<leftarrow> file_close; ret (errorsJoin returnErr c) });
     (case returnErr of
        None \<Rightarrow> ret None
      | Some e \<Rightarrow> ignore (os_Remove created) (ret (Some e))) }"

definition WriteDurable ::
  "string \<Rightarrow> content \<Rightarrow> 32 word \<Rightarrow> ('z world_scheme, err option) state"
where
  "WriteDurable path data perm =
     attempt (os_CreateTemp (Dir path) (temp_pattern (Base path))) (\<lambda>e. ret (Some e))
     (\<lambda>tmp.
       check (file_chmod tmp perm) (\<lambda>e. write_exit False tmp (Some e)) (
       check (file_write tmp data) (\<lambda>e. write_exit False tmp (Some e)) (
       check file_sync (\<lambda>e. write_exit False tmp (Some e)) (
       check file_close (\<lambda>e. write_exit True tmp (Some e)) (
       check (Rename tmp path) (\<lambda>e. write_exit True tmp (Some e)) (
       attempt (os_ReadFile path) (\<lambda>e. write_exit True tmp (Some e)) (\<lambda>actual.
       write_exit True tmp
         (if bytes actual \<noteq> bytes data
          then Some (Text ''durable atomic write read-back mismatch'') else None))))))))"

definition WriteExclusiveDurable ::
  "string \<Rightarrow> content \<Rightarrow> 32 word \<Rightarrow> ('z world_scheme, err option) state"
where
  "WriteExclusiveDurable path data perm =
     check (open_excl path perm) (\<lambda>e. ret (Some e)) (
     check (file_write path data) (\<lambda>e. write_exit False path (Some e)) (
     check file_sync (\<lambda>e. write_exit False path (Some e)) (
     check file_close (\<lambda>e. write_exit True path (Some e)) (
     attempt (os_ReadFile path) (\<lambda>e. write_exit True path (Some e)) (\<lambda>actual.
     write_exit True path (if bytes actual \<noteq> bytes data then Some UnexpectedEOF else None))))))"

section \<open>What they may write\<close>

text \<open>The temporary names of a target, beside it.\<close>

definition temp_paths :: "cpath \<Rightarrow> cpath set" where
  "temp_paths p = {butlast p @ [temp_pattern (last p) @ s] | s. list_all alnum s}"

definition durable_scope :: "cpath \<Rightarrow> cpath set" where
  "durable_scope p = subtree p \<union> (\<Union>q \<in> temp_paths p. subtree q)"

lemma IsAbs_render [simp]: "IsAbs (render True cs)"
  by (simp add: render_def)

lemma comps_append_name:
  assumes "IsAbs d" and "proper x"
  shows "comps (join_path d x) = comps d @ [x]"
proof (cases "d \<noteq> '''' \<and> last d = slash")
  case True
  then obtain d' where d: "d = d' @ [slash]" by (metis append_butlast_last_id)
  have "split_slash (d' @ slash # x) = split_slash d' @ [x]"
    using assms by (simp add: split_slash_append split_slash_single proper_def)
  moreover have "split_slash d = split_slash d' @ [[]]"
    using d split_slash_append [of d' "[]"] by simp
  ultimately show ?thesis
    using assms d True IsAbs_append [of d x]
    by (simp add: comps_def join_path_def norm_comps_append proper_def)
next
  case False
  then have "join_path d x = d @ slash # x" by (auto simp: join_path_def)
  moreover have "IsAbs (d @ slash # x)" using assms by simp
  ultimately show ?thesis
    using assms
    by (simp add: comps_def norm_comps_append split_slash_append
        split_slash_single proper_def)
qed

lemma temp_proper: "proper b \<Longrightarrow> list_all alnum s \<Longrightarrow> proper (temp_pattern b @ s)"
  by (auto simp: proper_def list_all_iff temp_pattern_def)

lemma temp_suffix_alnum: "list_all alnum (temp_suffix e t)"
  by (simp add: temp_suffix_def dec_nat_alnum)

lemma subtree_refl [simp]: "p \<in> subtree p"
  by simp

lemma create_temp_frame:
  fixes S :: "cpath set"
  assumes dir: "IsAbs dir" and b: "proper b"
    and S: "\<And>s. list_all alnum s \<Longrightarrow> comps dir @ [temp_pattern b @ s] \<in> S"
  shows "achieves (writes S :: 'z world_scheme \<Rightarrow> _)
     (\<lambda>r. case r of Inr tmp \<Rightarrow> \<exists>s. list_all alnum s \<and>
              comps tmp = comps dir @ [temp_pattern b @ s] | Inl _ \<Rightarrow> True)
     (create_temp n dir (temp_pattern b))"
proof (induction n)
  case 0
  show ?case by (simp add: frame.on_ret)
next
  case (Suc n)
  have tr: "achieves (writes S :: 'z world_scheme \<Rightarrow> _) (list_all alnum) (tick_read temp_suffix)"
    by (auto intro!: achievesI simp: tick_read_def writes_def temp_suffix_alnum)
  have c: "comps (join_path dir (temp_pattern b @ s)) = comps dir @ [temp_pattern b @ s]"
    if "list_all alnum s" for s
    using comps_append_name [OF dir temp_proper [OF b that]] .
  show ?case
    unfolding create_temp.simps Let_def
    by (rule frame.on_bind [OF tr], rule frame.on_check [where P = "\<lambda>_. True"])
      (auto intro!: keeps_updates achieves_if frame.on_ret Suc.IH simp: S c)
qed

lemma rename_loop_frame:
  fixes S :: "cpath set"
  shows "subtree (comps a) \<union> subtree (comps b) \<subseteq> S \<Longrightarrow>
     keeps (writes S :: 'z world_scheme \<Rightarrow> _) (rename_loop n e a b)"
  by (induction n arbitrary: e) (auto intro!: eff_intros)

lemma Rename_frame [eff_intros]:
  "subtree (comps a) \<union> subtree (comps b) \<subseteq> S \<Longrightarrow> keeps (writes S) (Rename a b)"
  unfolding Rename_def by (rule rename_loop_frame)

lemma write_exit_frame [eff_intros]:
  "comps p \<in> S \<Longrightarrow> keeps (writes S) (write_exit closed p e)"
  unfolding write_exit_def by (auto intro!: eff_intros)

text \<open>
  A target is a cleaned absolute path with a last component, which every path the program
  joins from a configured root is.
\<close>

definition target :: "string \<Rightarrow> bool" where
  "target p \<longleftrightarrow> IsAbs p \<and> Clean p = p \<and> comps p \<noteq> []"

lemma target_render: "target p \<Longrightarrow> p = render True (butlast (comps p) @ [last (comps p)])"
  by (metis Clean_def append_butlast_last_id target_def)

lemma target_proper: "target p \<Longrightarrow> list_all proper (butlast (comps p) @ [last (comps p)])"
  by (simp add: target_def comps_proper)

lemma target_Join: "IsAbs a \<Longrightarrow> list_all proper bs \<Longrightarrow> bs \<noteq> [] \<Longrightarrow> target (Join (a # bs))"
  by (simp add: target_def IsAbs_Join comps_Join Join_Clean)

lemma Dir_target:
  assumes "target p"
  shows "IsAbs (Dir p)" and "comps (Dir p) = butlast (comps p)"
  using Dir_render [OF target_proper [OF assms]] target_render [OF assms] target_proper [OF assms]
  by (simp_all add: comps_render_rooted)

lemma Base_target:
  assumes "target p"
  shows "Base p = last (comps p)"
proof -
  have "proper (last (comps p))" using target_proper [OF assms] by simp
  from Base_render [OF this, of "butlast (comps p)"] target_render [OF assms]
  show ?thesis by simp
qed

lemma os_CreateTemp_frame:
  assumes t: "target p" and S: "temp_paths (comps p) \<subseteq> S"
  shows "achieves (writes S)
     (\<lambda>r. case r of Inr tmp \<Rightarrow> comps tmp \<in> temp_paths (comps p) | Inl _ \<Rightarrow> True)
     (os_CreateTemp (Dir p) (temp_pattern (Base p)))"
proof -
  have b: "proper (Base p)" using target_proper [OF t] Base_target [OF t] by simp
  have "achieves (writes S) (\<lambda>r. case r of Inr tmp \<Rightarrow> \<exists>s. list_all alnum s \<and>
        comps tmp = comps (Dir p) @ [temp_pattern (Base p) @ s] | Inl _ \<Rightarrow> True)
      (create_temp 10000 (Dir p) (temp_pattern (Base p)))"
    using S Dir_target [OF t] Base_target [OF t]
    by (intro create_temp_frame b) (auto simp: temp_paths_def)
  then show ?thesis
    unfolding os_CreateTemp_def
    by (intro achieves_if frame.on_ret)
      (simp, erule achieves_weaken,
        use Dir_target [OF t] Base_target [OF t] in \<open>auto simp: temp_paths_def split: sum.splits\<close>)
qed

lemma temp_in_scope: "q \<in> temp_paths p \<Longrightarrow> subtree q \<union> subtree p \<subseteq> durable_scope p"
  by (auto simp: durable_scope_def)

lemma WriteDurable_frame:
  assumes "target p"
  shows "keeps (writes (durable_scope (comps p))) (WriteDurable p data perm)"
proof -
  have "temp_paths (comps p) \<subseteq> durable_scope (comps p)"
    by (auto simp: durable_scope_def)
  note ct = os_CreateTemp_frame [OF assms this]
  show ?thesis
    unfolding WriteDurable_def
  proof (rule frame.on_attempt [OF ct], goal_cases)
    case (2 tmp)
    then have "comps tmp \<in> temp_paths (comps p)" by simp
    note sc = temp_in_scope [OF this]
    then have "comps tmp \<in> durable_scope (comps p)" by auto
    with sc show ?case by (auto intro!: eff_intros)
  qed (auto intro!: eff_intros)
qed

lemma WriteExclusiveDurable_frame [eff_intros]:
  "comps p \<in> S \<Longrightarrow> keeps (writes S) (WriteExclusiveDurable p data perm)"
  unfolding WriteExclusiveDurable_def by (auto intro!: eff_intros)

section \<open>What a reader of the target sees\<close>

lemma rename_loop_spec:
  "wp (rename_loop n e a b) (\<lambda>r w'.
     (w_fs w' = w_fs w \<and> (n = 0 \<and> r = e \<or> r \<noteq> None)) \<or>
     (r = None \<and> fs_rename (comps a) (comps b) (w_fs w) = Inr (w_fs w'))) w"
proof (induction n arbitrary: e w)
  case 0
  show ?case by (simp add: wp_simps)
next
  case (Suc n)
  have step: "wp (rename_loop n (Some x) a b) (\<lambda>r w'.
     (w_fs w' = w_fs w \<and> (Suc n = 0 \<and> r = e \<or> r \<noteq> None)) \<or>
     (r = None \<and> fs_rename (comps a) (comps b) (w_fs w) = Inr (w_fs w'))) (tick w)" for x
    by (rule wp_mono [OF Suc.IH]) auto
  show ?case
    unfolding rename_loop.simps
    by (rule wp_checkI [where P = "\<lambda>r v. (r \<noteq> None \<and> v = tick w) \<or>
          (r = None \<and> fs_rename (comps a) (comps b) (w_fs w) = Inr (w_fs v))"])
      (auto simp: os_Rename_def wp_simps intro: step [simplified] split: sum.splits)
qed

lemma io_step_spec: "(\<And>r w'. w_fs w' = w_fs w \<Longrightarrow> Q r w') \<Longrightarrow> wp io_step Q w"
  by (simp add: io_step_def wp_simps)

lemma os_ReadFile_spec:
  assumes "\<And>e w'. w_fs w' = w_fs w \<Longrightarrow> Q (Inl e) w'"
    and "\<And>c w'. w_fs w' = w_fs w \<Longrightarrow> fs_read (comps p) (w_fs w) = Inr c \<Longrightarrow> Q (Inr c) w'"
  shows "wp (os_ReadFile p) Q w"
  by (cases "fs_read (comps p) (w_fs w)") (auto simp: os_ReadFile_def wp_simps assms)

lemma file_write_spec:
  "(\<And>e w'. w_fs w' = w_fs w \<Longrightarrow> Q (Some e) w') \<Longrightarrow>
   (\<And>w' n. lookup (w_fs w) (comps p) = Some n \<Longrightarrow> is_regular n \<Longrightarrow>
      w_fs w' = fs_put (comps p) (n\<lparr>n_kind := KFile c\<rparr>) (w_fs w) \<Longrightarrow> Q None w') \<Longrightarrow>
   wp (file_write p c) Q w"
  by (auto simp: file_write_def fs_write_def wp_simps split: option.splits if_splits sum.splits)

text \<open>A program that touches none of \<open>p\<close> keeps what \<open>p\<close> holds.\<close>

lemma keeps_wp:
  assumes "keeps (writes S) m" and "p \<notin> S"
    and "\<And>r w'. lookup (w_fs w') p = lookup (w_fs w) p \<Longrightarrow> Q r w'"
  shows "wp m Q w"
  using wp_mono [OF achieves_wp [OF assms(1), of w]] assms writes_lookup by metis

lemma temp_not_target: "p \<noteq> [] \<Longrightarrow> p \<notin> temp_paths p"
proof
  assume "p \<noteq> []" "p \<in> temp_paths p"
  then obtain s where "p = butlast p @ [temp_pattern (last p) @ s]"
    by (auto simp: temp_paths_def)
  then have "last p = temp_pattern (last p) @ s" by (metis last_snoc)
  then have "length (last p) = length (temp_pattern (last p) @ s)" by simp
  then show False by (simp add: temp_pattern_def)
qed

definition old_or_new :: "cpath \<Rightarrow> content \<Rightarrow> fsys \<Rightarrow> fsys \<Rightarrow> bool" where
  "old_or_new p data f g \<longleftrightarrow> lookup g p = lookup f p \<or>
     (\<exists>n. lookup g p = Some n \<and> n_kind n = KFile data)"

lemma rename_old_or_new:
  assumes "lookup f q = Some n" and "n_kind n = KFile data" and "p \<noteq> q"
    and "fs_rename q p f = Inr g"
  shows "\<exists>n. lookup g p = Some n \<and> n_kind n = KFile data"
proof -
  from assms have "\<not> prefix q p" "g = fs_move q p f"
    by (auto simp: fs_rename_def split: if_splits option.splits)
  with lookup_move_dst [of q p f "[]"] assms show ?thesis by simp
qed

lemma WriteDurable_old_or_new:
  assumes t: "target path"
  shows "wp (WriteDurable path data perm)
     (\<lambda>r w'. old_or_new (comps path) data (w_fs w) (w_fs w')) w"
proof -
  let ?P = "comps path"
  have ne: "?P \<noteq> []" using t by (simp add: target_def)
  have nt: "?P \<notin> temp_paths ?P" by (rule temp_not_target [OF ne])
  define G where "G = (\<lambda>v :: 'a world_scheme. old_or_new ?P data (w_fs w) (w_fs v))"
  have G_eq: "G v'" if "G v" "lookup (w_fs v') ?P = lookup (w_fs v) ?P" for v v' :: "'a world_scheme"
    using that unfolding G_def old_or_new_def by metis
  have exit: "wp (write_exit c tmp e) (\<lambda>r. G) v"
    if "G v" "comps tmp \<noteq> ?P" for c tmp e and v :: "'a world_scheme"
    by (rule keeps_wp [OF write_exit_frame [of tmp "{comps tmp}"], where p = ?P])
      (use that G_eq in auto)
  have ct: "wp (os_CreateTemp (Dir path) (temp_pattern (Base path)))
      (\<lambda>r v. G v \<and> (case r of Inr tmp \<Rightarrow> comps tmp \<noteq> ?P | Inl _ \<Rightarrow> True)) w"
    by (rule wp_mono [OF achieves_wp [OF os_CreateTemp_frame [OF t subset_refl]]])
      (use nt in \<open>auto simp: G_def old_or_new_def writes_lookup [OF _ nt] split: sum.splits\<close>)
  define B where "B = (\<lambda>tmp (v :: 'a world_scheme). G v \<and>
     (\<exists>n. lookup (w_fs v) (comps tmp) = Some n \<and> n_kind n = KFile data))"
  have fin: "wp (check (Rename tmp path) (\<lambda>e. write_exit True tmp (Some e)) (
       attempt (os_ReadFile path) (\<lambda>e. write_exit True tmp (Some e)) (\<lambda>actual.
       write_exit True tmp (h actual)))) (\<lambda>r. G) v"
    if B: "B tmp v" and tmp: "comps tmp \<noteq> ?P" for tmp h v
  proof (rule wp_checkI [where P = "\<lambda>r. G"])
    show "wp (Rename tmp path) (\<lambda>r. G) v"
      unfolding Rename_def
      by (rule wp_mono [OF rename_loop_spec])
        (use B tmp rename_old_or_new [of "w_fs v" "comps tmp" _ data ?P] in
          \<open>auto simp: B_def G_def old_or_new_def\<close>)
  qed (auto intro!: exit tmp wp_attemptI [where P = "\<lambda>r. G"] os_ReadFile_spec intro: G_eq)
  have wr: "wp (file_write tmp data) (\<lambda>r v. G v \<and> (r = None \<longrightarrow> B tmp v)) v"
    if "G v" and "comps tmp \<noteq> ?P" for tmp v
    using that by (intro file_write_spec) (auto simp: B_def G_def old_or_new_def)
  show ?thesis
    unfolding G_def [symmetric] WriteDurable_def
  proof (rule wp_attemptI [OF ct], simp add: wp_simps, goal_cases)
    case (1 tmp v)
    then have "G v" and tmp: "comps tmp \<noteq> ?P" by auto
    have ch: "wp (file_chmod tmp perm) (\<lambda>r. G) v"
      by (rule keeps_wp [where S = "{comps tmp}" and p = ?P])
        (use 1 G_eq in \<open>auto intro: eff_intros\<close>)
    have io: "wp io_step (\<lambda>r v. B tmp v) v" if "B tmp v" for v
      using that by (intro io_step_spec) (auto simp: B_def G_def)
    show ?case
      by (rule wp_checkI [OF ch], simp add: exit tmp, rule wp_checkI [OF wr],
          assumption, rule tmp, simp add: exit tmp,
          rule wp_checkI [OF io], simp, simp add: exit tmp B_def,
          rule wp_checkI [OF io], simp, simp add: exit tmp B_def, rule fin [OF _ tmp])
  qed
qed

section \<open>What success means\<close>

definition holds_file :: "cpath \<Rightarrow> content \<Rightarrow> 32 word \<Rightarrow> fsys \<Rightarrow> bool" where
  "holds_file p c perm f \<longleftrightarrow>
     (\<exists>n. lookup f p = Some n \<and> n_kind n = KFile c \<and> n_perm n = perm)"

lemma holds_file_read: "holds_file p c perm f \<Longrightarrow> fs_read p f = Inr c"
  by (auto simp: holds_file_def fs_read_def follow_def)

lemma file_chmod_spec:
  "(\<And>e w'. w_fs w' = w_fs w \<Longrightarrow> Q (Some e) w') \<Longrightarrow>
   (\<And>w' n. lookup (w_fs w) (comps p) = Some n \<Longrightarrow>
      w_fs w' = fs_put (comps p) (n\<lparr>n_perm := m\<rparr>) (w_fs w) \<Longrightarrow> Q None w') \<Longrightarrow>
   wp (file_chmod p m) Q w"
  by (auto simp: file_chmod_def fs_fchmod_def wp_simps split: option.splits sum.splits)

lemma rename_holds_file:
  assumes "holds_file q c m f" and "p \<noteq> q" and "fs_rename q p f = Inr g"
  shows "holds_file p c m g"
proof -
  obtain n where n: "lookup f q = Some n" "n_kind n = KFile c" "n_perm n = m"
    using assms(1) by (auto simp: holds_file_def)
  with assms have "\<not> prefix q p" "g = fs_move q p f"
    by (auto simp: fs_rename_def split: if_splits option.splits)
  with lookup_move_dst [of q p f "[]"] n show ?thesis by (simp add: holds_file_def)
qed

text \<open>A program that cannot return nil keeps every claim about a nil result.\<close>

lemma write_exit_some:
  "(\<And>e' v'. Q (Some e') v') \<Longrightarrow> wp (write_exit closed p (Some e)) Q v"
  by (cases closed)
    (auto simp: write_exit_def wp_simps errorsJoin_def split: option.splits intro!: io_step_spec)

lemma write_exit_check:
  "(\<And>e' v'. Q (Some e') v') \<Longrightarrow> (e = None \<Longrightarrow> Q None v) \<Longrightarrow> wp (write_exit True p e) Q v"
  by (cases e) (auto intro: write_exit_some simp: write_exit_def wp_simps)

lemma WriteDurable_success:
  assumes t: "target path"
  shows "wp (WriteDurable path data perm)
     (\<lambda>r w'. r = None \<longrightarrow> holds_file (comps path) data perm (w_fs w')) w"
proof -
  let ?P = "comps path"
  let ?Q = "\<lambda>r (v :: 'a world_scheme). r = None \<longrightarrow> holds_file ?P data perm (w_fs v)"
  have nt: "?P \<notin> temp_paths ?P" using t by (intro temp_not_target) (simp add: target_def)
  have ct: "wp (os_CreateTemp (Dir path) (temp_pattern (Base path)))
      (\<lambda>r v. case r of Inr tmp \<Rightarrow> comps tmp \<noteq> ?P | Inl _ \<Rightarrow> True) w"
    by (rule wp_mono [OF achieves_wp [OF os_CreateTemp_frame [OF t subset_refl]]])
      (use nt in \<open>auto split: sum.splits\<close>)
  define H where "H = (\<lambda>tmp (v :: 'a world_scheme). holds_file (comps tmp) data perm (w_fs v))"
  have ch: "wp (file_chmod tmp perm)
      (\<lambda>r v. r = None \<longrightarrow> (\<exists>n. lookup (w_fs v) (comps tmp) = Some n \<and> n_perm n = perm)) v"
    for tmp and v :: "'a world_scheme"
    by (rule file_chmod_spec) auto
  have wr: "wp (file_write tmp data) (\<lambda>r v. r = None \<longrightarrow> H tmp v) v"
    if "\<exists>n. lookup (w_fs v) (comps tmp) = Some n \<and> n_perm n = perm"
    for tmp and v :: "'a world_scheme"
    using that by (intro file_write_spec) (auto simp: H_def holds_file_def)
  have io: "wp io_step (\<lambda>r. H tmp) v" if "H tmp v" for tmp v
    using that by (intro io_step_spec) (auto simp: H_def)
  have rn: "wp (Rename tmp path) ?Q v" if "H tmp v" "comps tmp \<noteq> ?P" for tmp v
    unfolding Rename_def
    by (rule wp_mono [OF rename_loop_spec])
      (use that rename_holds_file [of "comps tmp" data perm "w_fs v" ?P] in
        \<open>auto simp: H_def renameAttempts_def\<close>)
  have rd: "wp (os_ReadFile path) (\<lambda>r v. holds_file ?P data perm (w_fs v)) v"
    if "holds_file ?P data perm (w_fs v)" for v :: "'a world_scheme"
    using that by (intro os_ReadFile_spec) auto
  show ?thesis
    unfolding WriteDurable_def
  proof (rule wp_attemptI [OF ct], simp add: wp_simps, goal_cases)
    case (1 tmp v)
    then have tmp: "comps tmp \<noteq> ?P" by simp
    show ?case
      by (rule wp_checkI [OF ch], rule write_exit_some, simp,
          rule wp_checkI [OF wr], simp, rule write_exit_some, simp,
          rule wp_checkI [OF io], simp, rule write_exit_some, simp,
          rule wp_checkI [OF io], simp, rule write_exit_some, simp,
          rule wp_checkI [OF rn], simp, rule tmp, rule write_exit_some, simp,
          rule wp_attemptI [OF rd], simp, rule write_exit_some, simp,
          rule write_exit_check, simp_all)
  qed
qed

text \<open>\<open>O_EXCL\<close>: an existing node stops the exclusive writer before it does anything.\<close>

lemma WriteExclusiveDurable_existing:
  "lookup (w_fs w) (comps path) \<noteq> None \<Longrightarrow>
   wp (WriteExclusiveDurable path data perm) (\<lambda>r w'. r \<noteq> None \<and> w_fs w' = w_fs w) w"
  by (auto simp: WriteExclusiveDurable_def open_excl_def fs_create_def wp_simps)

lemma WriteExclusiveDurable_success:
  "wp (WriteExclusiveDurable path data perm)
     (\<lambda>r w'. r = None \<longrightarrow> lookup (w_fs w) (comps path) = None \<and>
        holds_file (comps path) data perm (w_fs w')) w"
proof -
  let ?p = "comps path"
  have op: "wp (open_excl path perm) (\<lambda>r v. r = None \<longrightarrow> lookup (w_fs w) ?p = None \<and>
      (\<exists>n. lookup (w_fs v) ?p = Some n \<and> n_perm n = perm)) w"
    by (auto simp: open_excl_def fs_create_def wp_simps split: sum.splits if_splits)
  have wr: "wp (file_write path data) (\<lambda>r v. r = None \<longrightarrow> holds_file ?p data perm (w_fs v)) v"
    if "\<exists>n. lookup (w_fs v) ?p = Some n \<and> n_perm n = perm" for v :: "'a world_scheme"
    using that by (intro file_write_spec) (auto simp: holds_file_def)
  have io: "wp io_step (\<lambda>r v. holds_file ?p data perm (w_fs v)) v"
    if "holds_file ?p data perm (w_fs v)" for v :: "'a world_scheme"
    using that by (intro io_step_spec) auto
  have rd: "wp (os_ReadFile path) (\<lambda>r v. holds_file ?p data perm (w_fs v)) v"
    if "holds_file ?p data perm (w_fs v)" for v :: "'a world_scheme"
    using that by (intro os_ReadFile_spec) auto
  show ?thesis
    unfolding WriteExclusiveDurable_def
    by (rule wp_checkI [OF op], simp add: wp_simps,
        rule wp_checkI [OF wr], simp, rule write_exit_some, simp,
        rule wp_checkI [OF io], simp, rule write_exit_some, simp,
        rule wp_checkI [OF io], simp, rule write_exit_some, simp,
        rule wp_attemptI [OF rd], simp, rule write_exit_some, simp,
        rule write_exit_check, simp_all)
qed

section \<open>The plain writer\<close>

text \<open>The plain writer, when its temporary name is no link.\<close>

definition no_link :: "cpath \<Rightarrow> fsys \<Rightarrow> bool" where
  "no_link p f \<longleftrightarrow> (\<forall>n. lookup f p = Some n \<longrightarrow> \<not> is_link n)"

lemma no_link_follow: "no_link p f \<Longrightarrow> follow f p = p"
  by (auto simp: no_link_def follow_def is_link_def split: option.splits kind.splits)

definition holds :: "cpath \<Rightarrow> content \<Rightarrow> fsys \<Rightarrow> bool" where
  "holds p c f \<longleftrightarrow> (\<exists>n. lookup f p = Some n \<and> n_kind n = KFile c)"

lemma regular_no_link: "lookup f p = Some n \<Longrightarrow> is_regular n \<Longrightarrow> no_link p f"
  by (auto simp: no_link_def)

lemma writes_put_at: "writes {p} w (tick v) = writes {p} w v"
  by (simp add: writes_def)

lemma os_WriteFile_success:
  fixes w :: "'z world_scheme"
  assumes "no_link (comps p) (w_fs w)"
  shows "wp (os_WriteFile p c perm) (\<lambda>r v. writes {comps p} w v \<and> (r = None \<longrightarrow> holds (comps p) c (w_fs v))) w"
proof -
  let ?p = "comps p"
  let ?I = "\<lambda>v. writes {?p} w v \<and> (\<exists>n. lookup (w_fs v) ?p = Some n \<and> is_regular n)"
  let ?J = "\<lambda>v. writes {?p} w v \<and> holds ?p c (w_fs v)"
  have f: "follow (w_fs w) ?p = ?p" using assms by (rule no_link_follow)
  have "writes {?p} w v" if "fs_truncate perm i ?p (w_fs w) = Inr (w_fs v)" "w_env v = w_env w" "world.more v = world.more w"
    for i and v :: "'z world_scheme"
    using that by (auto simp: fs_truncate_def f fs_create_def fs_write_def writes_def differs_def lookup_put
        split: option.splits if_splits dest!: sym [of _ "w_fs v"])
  moreover have "\<exists>n. lookup g ?p = Some n \<and> is_regular n" if "fs_truncate perm i ?p (w_fs w) = Inr g" for i g
    using that by (auto simp: fs_truncate_def f fs_create_def fs_write_def is_regular_def split: option.splits if_splits)
  ultimately have trunc: "wp (update (\<lambda>i. fs_truncate perm i ?p))
      (\<lambda>r v. writes {?p} w v \<and> (r = None \<longrightarrow> ?I v)) w"
    by (auto simp: wp_update writes_same split: sum.splits)
  have put: "wp (update (\<lambda>_ f. fs_write c (follow f ?p) f)) (\<lambda>r v. writes {?p} w v \<and> (r = None \<longrightarrow> ?J v)) u"
    if u: "?I u" for u
  proof -
    obtain n where n: "lookup (w_fs u) ?p = Some n" "is_regular n" using u by blast
    then have "fs_write c (follow (w_fs u) ?p) (w_fs u) = Inr (fs_put ?p (n\<lparr>n_kind := KFile c\<rparr>) (w_fs u))"
      by (simp add: no_link_follow [OF regular_no_link [OF n]] fs_write_def)
    moreover have "differs (w_fs w) (fs_put ?p m (w_fs u)) \<subseteq> {?p}" for m
      using u by (auto simp: writes_def differs_def lookup_put)
    ultimately show ?thesis using u by (auto simp: wp_update writes_def holds_def)
  qed
  have close: "wp (update (\<lambda>_. Inr)) (\<lambda>r v. w_fs v = w_fs u \<and> w_env v = w_env u \<and> world.more v = world.more u) u"
    for u :: "'z world_scheme"
    by (simp add: wp_update)
  show ?thesis
    unfolding os_WriteFile_def
    by (rule wp_checkI [OF trunc], simp add: wp_ret, rule wp_bindI [OF put], simp, rule wp_bindI [OF close])
      (auto simp: wp_ret writes_def)
qed

lemma Write_success:
  assumes tmp: "no_link (comps (path @ ''.tmp'')) (w_fs w)" and ne: "comps (path @ ''.tmp'') \<noteq> comps path"
  shows "wp (Write path data perm) (\<lambda>r v.
     writes (subtree (comps (path @ ''.tmp'')) \<union> subtree (comps path)) w v \<and>
     (r = None \<longrightarrow> holds (comps path) data (w_fs v))) w"
proof -
  let ?t = "path @ ''.tmp''" and ?Q = "\<lambda>r v. writes (subtree (comps (path @ ''.tmp'')) \<union> subtree (comps path)) w v \<and>
     (r = None \<longrightarrow> holds (comps path) data (w_fs v))"
  let ?S = "subtree (comps ?t) \<union> subtree (comps path)"
  have ren: "wp (Rename ?t path) (\<lambda>r v. writes ?S w v \<and> (r = None \<longrightarrow> holds (comps path) data (w_fs v))) u"
    if u: "writes {comps ?t} w u" "holds (comps ?t) data (w_fs u)" for u
  proof (rule wp_mono [OF wp_conj [OF achieves_wp [OF Rename_frame [of ?t path ?S]]
        rename_loop_spec [of renameAttempts None ?t path, folded Rename_def]]])
    fix r v
    assume a: "(writes ?S u v \<and> True) \<and> ((w_fs v = w_fs u \<and> (renameAttempts = 0 \<and> r = None \<or> r \<noteq> None)) \<or>
       (r = None \<and> fs_rename (comps ?t) (comps path) (w_fs u) = Inr (w_fs v)))"
    obtain n where n: "lookup (w_fs u) (comps ?t) = Some n" "n_kind n = KFile data"
      using u(2) by (auto simp: holds_def)
    have "writes ?S w v" using a u(1) writes_mono [of "{comps ?t}" w u ?S] writes_trans [of ?S w u v] by simp
    then show "writes ?S w v \<and> (r = None \<longrightarrow> holds (comps path) data (w_fs v))"
      using a rename_old_or_new [OF n] ne by (auto simp: renameAttempts_def holds_def)
  qed simp
  have rem: "wp (ignore (os_Remove ?t) (ret (Some e))) ?Q u" if "writes ?S w u" for e u
    by (rule wp_ignoreI [OF achieves_wp [OF keeps_updates(3) [of ?t ?S]]], simp)
      (use that in \<open>auto simp: wp_ret intro: writes_trans\<close>)
  show ?thesis
    unfolding Write_def Let_def
    by (rule wp_checkI [OF os_WriteFile_success [OF tmp]])
      (auto simp: wp_ret intro!: wp_checkI [OF ren] rem elim: writes_mono)
qed

end
