(* ===== verification/Store.thy ===== *)
theory Store
  imports Workspace_Types Atomic_File
begin

text \<open>
  The broker's store on disk: \<open>workspace/paths.go\<close> and \<open>workspace/store.go\<close>. A store is its
  paths (its clock is \<open>time.Now\<close>). Platform calls are those of the non-Windows build
  (\<open>workspace/allocated_other.go\<close>).
\<close>

section \<open>Paths\<close>

record Paths =
  pt_Root :: string
  pt_UserRoot :: string
  pt_Parents :: string
  pt_Pending :: string
  pt_Children :: string
  pt_Leases :: string
  pt_Retained :: string
  pt_Quarantine :: string
  pt_Receipts :: string

definition NewPaths :: "string \<Rightarrow> string \<Rightarrow> err + Paths" where
  "NewPaths root userSID =
     (if \<not> IsAbs root \<or> TrimSpace userSID = '''' \<or>
         list_ex (\<lambda>c. c = CHR ''/'' \<or> c = CHR 0x5C) userSID
      then Inl (Wrapped ''invalid root or SID'' ErrInvalidInput)
      else let clean = Clean root; userRoot = Join [clean, userSID] in
        Inr \<lparr>pt_Root = clean, pt_UserRoot = userRoot,
             pt_Parents = Join [userRoot, ''parents''], pt_Pending = Join [userRoot, ''pending''],
             pt_Children = Join [userRoot, ''children''], pt_Leases = Join [userRoot, ''leases''],
             pt_Retained = Join [userRoot, ''retained''],
             pt_Quarantine = Join [userRoot, ''quarantine''],
             pt_Receipts = Join [userRoot, ''receipts'']\<rparr>)"

definition Paths_Parent :: "Paths \<Rightarrow> string \<Rightarrow> err + string" where
  "Paths_Parent p key =
     (if \<not> compatibility key then Inl (Wrapped ''invalid compatibility key'' ErrInvalidInput)
      else Inr (Join [pt_Parents p, key]))"

definition Paths_Child :: "Paths \<Rightarrow> string \<Rightarrow> err + string" where
  "Paths_Child p leaseID =
     (if \<not> is_identifier leaseID then Inl (Wrapped ''invalid lease ID'' ErrInvalidInput)
      else Inr (Join [pt_Children p, leaseID @ ''.vhdx'']))"

definition Paths_Lease :: "Paths \<Rightarrow> string \<Rightarrow> err + string" where
  "Paths_Lease p leaseID =
     (if \<not> is_identifier leaseID then Inl (Wrapped ''invalid lease ID'' ErrInvalidInput)
      else Inr (Join [pt_Leases p, leaseID @ ''.json'']))"

definition Paths_RetainedRecord :: "Paths \<Rightarrow> string \<Rightarrow> err + string" where
  "Paths_RetainedRecord p runID =
     (if \<not> is_identifier runID then Inl (Wrapped ''invalid run ID'' ErrInvalidInput)
      else Inr (Join [pt_Retained p, runID @ ''.json'']))"

section \<open>Files\<close>

definition completeContents :: string where
  "completeContents = ''testplay-vhdx-parent-v2'' @ [CHR 0x0A]"

definition ensureRealDirectory :: "string \<Rightarrow> ('z world_scheme, err option) state" where
  "ensureRealDirectory path = attempt (os_Lstat path)
     (\<lambda>e. if \<not> IsNotExist e then ret (Some e)
        else check (os_Mkdir path 448)
          (\<lambda>e. if IsExist e then ret None
             else check (os_MkdirAll (Dir path) 448) (\<lambda>e. ret (Some e)) (os_Mkdir path 448))
          (ret None))
     (\<lambda>info. if \<not> is_dir info \<or> is_link info then
          ret (Some (Text ''directory is not a real directory'')) else ret None)"

definition validateRegular :: "string \<Rightarrow> ('z world_scheme, err option) state" where
  "validateRegular path = attempt (os_Lstat path) (\<lambda>e. ret (Some e))
     (\<lambda>info. if \<not> is_regular info \<or> is_link info then ret (Some (Text ''not a regular file''))
        else ret None)"

definition writeJSONDurable :: "string \<Rightarrow> json \<Rightarrow> ('z world_scheme, err option) state" where
  "writeJSONDurable path j =
     do { e \<leftarrow> env_get (\<lambda>e. e); WriteDurable path (json_content e True j) 384 }"

definition store_writeJSONExclusive :: "string \<Rightarrow> json \<Rightarrow> ('z world_scheme, err option) state" where
  "store_writeJSONExclusive path j =
     do { e \<leftarrow> env_get (\<lambda>e. e); WriteExclusiveDurable path (json_content e True j) 384 }"

text \<open>The store's reader decodes the first value and does not look at what follows it.\<close>

definition store_readJSON ::
  "string \<Rightarrow> (json \<Rightarrow> 'a option) \<Rightarrow> ('z world_scheme, err + 'a) state"
where
  "store_readJSON path dec = attempt (os_ReadFile path) (\<lambda>e. ret (Inl e))
     (\<lambda>data. ret (decode_first dec (stream data)))"

definition store_randomID :: "string \<Rightarrow> ('z world_scheme, err + string) state" where
  "store_randomID prefix' = attempt (rand_Read 16) (\<lambda>e. ret (Inl e))
     (\<lambda>value. ret (Inr (prefix' @ ''-'' @ hex_encode value)))"

definition fileAllocatedBytes :: "string \<Rightarrow> ('z world_scheme, err + i64) state" where
  "fileAllocatedBytes path = attempt (os_Stat path) (\<lambda>e. ret (Inl e)) (\<lambda>info. ret (Inr (node_size info)))"

text \<open>The entries of a directory that may be absent; and \<open>entries, _ := os.ReadDir(path)\<close>.\<close>

definition entries_if_any :: "string \<Rightarrow> ('z world_scheme, err + (string \<times> node) list) state" where
  "entries_if_any path = do {
     r \<leftarrow> os_ReadDir path;
     ret (case r of Inl e \<Rightarrow> if IsNotExist e then Inr [] else Inl e | Inr es \<Rightarrow> Inr es) }"

definition entries_or_none :: "string \<Rightarrow> ('z world_scheme, (string \<times> node) list) state" where
  "entries_or_none path = do {
     r \<leftarrow> os_ReadDir path; ret (case r of Inl _ \<Rightarrow> [] | Inr es \<Rightarrow> es) }"

definition countDirectories :: "string \<Rightarrow> ('z world_scheme, int) state" where
  "countDirectories path = do {
     entries \<leftarrow> entries_or_none path;
     ret (int (length (filter (\<lambda>entry. is_dir (snd entry)) entries))) }"

definition countEntries :: "string \<Rightarrow> ('z world_scheme, int) state" where
  "countEntries path = do { entries \<leftarrow> entries_or_none path; ret (int (length entries)) }"

definition is_vhdx :: "cpath \<Rightarrow> node \<Rightarrow> bool" where
  "is_vhdx q n \<longleftrightarrow> \<not> is_dir n \<and> EqualFold (Ext (last q)) ''.vhdx''"

text \<open>\<open>filepath.WalkDir\<close> with a total that survives the error that stops the walk.\<close>

type_synonym 'w summing = "cpath \<Rightarrow> err + node \<Rightarrow> i64 \<Rightarrow> ('w, i64 \<times> err option) state"

fun walk_total ::
  "'z world_scheme summing \<Rightarrow> i64 \<Rightarrow> cpath list \<Rightarrow> ('z world_scheme, i64 \<times> err option) state"
where
  "walk_total cb acc [] = ret (acc, None)"
| "walk_total cb acc (q # qs) = do {
     r \<leftarrow> query (fs_lstat q);
     (acc, e) \<leftarrow> cb q r acc;
     (if e \<noteq> None then ret (acc, e) else walk_total cb acc qs) }"

definition WalkDirTotal ::
  "string \<Rightarrow> 'z world_scheme summing \<Rightarrow> ('z world_scheme, i64 \<times> err option) state"
where
  "WalkDirTotal root cb = do {
     r \<leftarrow> os_Lstat root;
     (case r of
        Inl e \<Rightarrow> cb (comps root) (Inl e) 0
      | Inr n \<Rightarrow> do {
          qs \<leftarrow> gets (\<lambda>w. below (comps root) (w_fs w));
          walk_total cb 0 qs }) }"

definition allocatedVHDXBytes :: "string \<Rightarrow> ('z world_scheme, i64 \<times> err option) state" where
  "allocatedVHDXBytes root = WalkDirTotal root
     (\<lambda>q entry acc. case entry of
        Inl walkErr \<Rightarrow> ret (acc, Some walkErr)
      | Inr n \<Rightarrow> if \<not> is_vhdx q n then ret (acc, None)
          else attempt (fileAllocatedBytes (render True q)) (\<lambda>e. ret (acc, Some e))
            (\<lambda>allocated. ret (acc + allocated, None)))"

definition logicalVHDXBytes :: "string \<Rightarrow> ('z world_scheme, i64 \<times> err option) state" where
  "logicalVHDXBytes root = WalkDirTotal root
     (\<lambda>q entry acc. case entry of
        Inl walkErr \<Rightarrow> ret (acc, Some walkErr)
      | Inr n \<Rightarrow> if \<not> is_vhdx q n then ret (acc, None)
          else attempt (os_Lstat (render True q)) (\<lambda>e. ret (acc, Some e))
            (\<lambda>info. ret (acc + node_size info, None)))"

fun ensure_all :: "string list \<Rightarrow> ('z world_scheme, err option) state" where
  "ensure_all [] = ret None"
| "ensure_all (p # ps) = check (ensureRealDirectory p) (\<lambda>e. ret (Some e)) (ensure_all ps)"

definition EnsureLayout :: "Paths \<Rightarrow> ('z world_scheme, err option) state" where
  "EnsureLayout s = ensure_all [pt_Root s, pt_UserRoot s, pt_Parents s, pt_Pending s, pt_Children s,
     pt_Leases s, pt_Retained s, pt_Quarantine s, pt_Receipts s]"

section \<open>Parents\<close>

record ParentResolution =
  res_Status :: string
  res_Path :: string
  res_Metadata :: "ParentMetadata option"
  res_Reason :: "err option"

definition ResolveParent :: "Paths \<Rightarrow> CompatibilityKey \<Rightarrow> ('z world_scheme, err + ParentResolution) state" where
  "ResolveParent s key =
     (if ck_SchemaVersion key \<noteq> ParentSchemaVersion \<or> \<not> compatibility (ck_Digest key)
      then ret (Inl (Wrapped ''invalid parent key'' ErrInvalidInput))
      else
        let dir = Join [pt_Parents s, ck_Digest key];
            metadataPath = Join [dir, ''metadata.json''];
            completePath = Join [dir, ''COMPLETE''];
            parentPath = Join [dir, ''parent.vhdx''];
            corrupt = (\<lambda>m e. ret (Inr \<lparr>res_Status = ''corrupt'', res_Path = parentPath,
                                       res_Metadata = m, res_Reason = Some e\<rparr>)) in
        attempt (os_Lstat dir)
          (\<lambda>e. ret (if IsNotExist e
             then Inr \<lparr>res_Status = ''missing'', res_Path = parentPath, res_Metadata = None,
                       res_Reason = None\<rparr>
             else Inl e)) (\<lambda>_.
        check (validateRegular completePath) (corrupt None) (
        attempt (os_ReadFile completePath) (\<lambda>_. corrupt None (Text ''invalid COMPLETE marker'')) (\<lambda>complete.
        if bytes complete \<noteq> completeContents then corrupt None (Text ''invalid COMPLETE marker'')
        else attempt (store_readJSON metadataPath dec_metadata) (corrupt None) (\<lambda>metadata.
        if pm_SchemaVersion metadata \<noteq> ParentSchemaVersion \<or> pm_Provider metadata \<noteq> Provider \<or>
           ck_Digest (pm_CompatibilityKey metadata) \<noteq> ck_Digest key \<or> \<not> pm_Immutable metadata \<or>
           Clean (pm_VHDXPath metadata) \<noteq> Clean parentPath
        then corrupt (Some metadata) (Text ''parent metadata identity mismatch'')
        else check (validateRegular parentPath) (corrupt (Some metadata))
          (ret (Inr \<lparr>res_Status = ''valid'', res_Path = parentPath, res_Metadata = Some metadata,
                     res_Reason = None\<rparr>)))))))"

definition BeginParent ::
  "Paths \<Rightarrow> string \<Rightarrow> CompatibilityKey \<Rightarrow> SourceSnapshot \<Rightarrow> string \<Rightarrow> int \<Rightarrow>
   ('z world_scheme, err + PendingParent) state"
where
  "BeginParent s userSID key source mountPath clientPID =
     check (EnsureLayout s) (\<lambda>e. ret (Inl e)) (
     attempt (ResolveParent s key) (\<lambda>e. ret (Inl e)) (\<lambda>resolved.
     if res_Status resolved = ''valid'' then ret (Inl ErrParentConflict)
     else attempt (store_randomID ''parent'') (\<lambda>e. ret (Inl e)) (\<lambda>transactionID.
     attempt (store_randomID ''token'') (\<lambda>e. ret (Inl e)) (\<lambda>token.
     let dir = Join [pt_Pending s, ck_Digest key] in
     check (os_Mkdir dir 448) (\<lambda>e. ret (Inl (if IsExist e then ErrParentConflict else e))) (do {
     created \<leftarrow> time_Now;
     updated \<leftarrow> time_Now;
     let pending = \<lparr>pp_TransactionID = transactionID, pp_UserSID = userSID, pp_OwnershipToken = token,
           pp_Key = key, pp_Source = source, pp_StagingPath = Join [dir, ''parent.staging.vhdx''],
           pp_MountPath = mountPath, pp_CreatedAt = created, pp_UpdatedAt = updated,
           pp_ClientPID = clientPID\<rparr>;
     check (store_writeJSONExclusive (Join [dir, ''pending.json'']) (enc_pending_parent pending))
       (\<lambda>e. ignore (os_Remove dir) (ret (Inl e)))
       (ret (Inr pending)) })))))"

definition ReadPending :: "Paths \<Rightarrow> string \<Rightarrow> ('z world_scheme, err + PendingParent) state" where
  "ReadPending s keyDigest =
     (if \<not> compatibility keyDigest then ret (Inl ErrInvalidInput)
      else attempt (store_readJSON (Join [pt_Pending s, keyDigest, ''pending.json'']) dec_pending_parent)
        (\<lambda>e. ret (Inl e))
        (\<lambda>pending. ret (
          if ck_Digest (pp_Key pending) \<noteq> keyDigest \<or>
             pp_StagingPath pending \<noteq> Join [pt_Pending s, keyDigest, ''parent.staging.vhdx'']
          then Inl ErrOwnershipMismatch else Inr pending)))"

text \<open>The closure \<open>rollback\<close> of \<open>CommitParent\<close>: undo the publication, whatever can be undone.\<close>

definition commit_rollback ::
  "string \<Rightarrow> string \<Rightarrow> string \<Rightarrow> err \<Rightarrow> ('z world_scheme, err) state"
where
  "commit_rollback parentDir finalPath stagingPath primary =
     ignore (os_Chmod finalPath 384) (
     ignore (os_Remove (Join [parentDir, ''COMPLETE''])) (
     ignore (os_Remove (Join [parentDir, ''metadata.json''])) (do {
     renameErr \<leftarrow> os_Rename finalPath stagingPath;
     removeErr \<leftarrow> os_Remove parentDir;
     ret (Joined (somes [Some primary, renameErr, removeErr])) })))"

definition CommitParent ::
  "Paths \<Rightarrow> PendingParent option \<Rightarrow> ParentMetadata \<Rightarrow> ('z world_scheme, err + ParentMetadata) state"
where
  "CommitParent s given metadata =
     (case given of None \<Rightarrow> ret (Inl ErrOwnershipMismatch) | Some pending \<Rightarrow>
      if pm_OwnershipToken metadata \<noteq> pp_OwnershipToken pending \<or>
         ck_Digest (pm_CompatibilityKey metadata) \<noteq> ck_Digest (pp_Key pending)
      then ret (Inl ErrOwnershipMismatch)
      else attempt (ReadPending s (ck_Digest (pp_Key pending))) (\<lambda>_. ret (Inl ErrOwnershipMismatch)) (\<lambda>actual.
      if pp_TransactionID actual \<noteq> pp_TransactionID pending \<or>
         pp_OwnershipToken actual \<noteq> pp_OwnershipToken pending
      then ret (Inl ErrOwnershipMismatch)
      else
        let parentDir = Join [pt_Parents s, ck_Digest (pp_Key pending)];
            finalPath = Join [parentDir, ''parent.vhdx''];
            rollback = (\<lambda>e. do { x \<leftarrow> commit_rollback parentDir finalPath (pp_StagingPath pending) e;
                                 ret (Inl x) }) in
        check (os_Mkdir parentDir 448) (\<lambda>e. ret (Inl e)) (
        attempt (os_Lstat finalPath)
          (\<lambda>e. if \<not> IsNotExist e then ret (Inl e) else
        check (Rename (pp_StagingPath pending) finalPath) (\<lambda>e. ret (Inl e)) (
        check (os_Chmod finalPath 256) rollback (do {
        now \<leftarrow> time_Now;
        let metadata = metadata\<lparr>pm_SchemaVersion := ParentSchemaVersion, pm_Provider := Provider,
              pm_VHDXPath := finalPath, pm_Immutable := True, pm_CreatedAt := now,
              pm_LastUsedAt := now\<rparr>;
        check (writeJSONDurable (Join [parentDir, ''metadata.json'']) (enc_metadata metadata)) rollback (
        check (WriteExclusiveDurable (Join [parentDir, ''COMPLETE'']) (Content completeContents [None]) 384)
          rollback (
        ignore (os_Remove (Join [Dir (pp_StagingPath pending), ''pending.json''])) (
        ignore (os_Remove (Dir (pp_StagingPath pending)))
          (ret (Inr metadata))))) })))
          (\<lambda>_. ret (Inl ErrParentConflict)))))"

definition AbortParent :: "Paths \<Rightarrow> PendingParent option \<Rightarrow> ('z world_scheme, err option) state" where
  "AbortParent s given =
     (case given of None \<Rightarrow> ret (Some ErrInvalidInput) | Some pending \<Rightarrow>
      attempt (ReadPending s (ck_Digest (pp_Key pending))) (\<lambda>e. ret (Some e)) (\<lambda>actual.
      if pp_TransactionID actual \<noteq> pp_TransactionID pending \<or>
         pp_OwnershipToken actual \<noteq> pp_OwnershipToken pending
      then ret (Some ErrOwnershipMismatch)
      else let dir = Dir (pp_StagingPath actual) in
        attempt (os_ReadDir dir) (\<lambda>e. ret (Some e)) (\<lambda>entries.
        case find (\<lambda>entry. fst entry \<noteq> ''pending.json'') entries of
          Some entry \<Rightarrow>
            ret (Some (Wrapped (''pending directory contains '' @ fst entry) ErrOwnershipMismatch))
        | None \<Rightarrow> check (os_Remove (Join [dir, ''pending.json''])) (\<lambda>e. ret (Some e)) (os_Remove dir))))"

text \<open>One pending directory of \<open>RecoverPending\<close>: what it adds to the two counts, or the error.\<close>

definition recover_pending_entry ::
  "Paths \<Rightarrow> int \<Rightarrow> int \<Rightarrow> (int \<Rightarrow> ('z world_scheme, bool) state) option \<Rightarrow> string \<times> node \<Rightarrow>
   int \<times> int \<Rightarrow> ('z world_scheme, (err \<times> int \<times> int) + int \<times> int) state"
where
  "recover_pending_entry s now grace processAlive entry counts =
     (let (preserved, quarantined) = counts; preserve = ret (Inr (preserved + 1, quarantined)) in
      if \<not> is_dir (snd entry) \<or> \<not> compatibility (fst entry) then ret (Inr counts)
      else attempt (ReadPending s (fst entry)) (\<lambda>_. preserve) (\<lambda>pending. do {
      keep \<leftarrow> (if now - grace < pp_UpdatedAt pending then ret True
               else case processAlive of None \<Rightarrow> ret False | Some alive \<Rightarrow> alive (pp_ClientPID pending));
      if keep then preserve
      else let dir = Dir (pp_StagingPath pending); fail = (\<lambda>e. ret (Inl (e, preserved, quarantined))) in do {
      staged \<leftarrow> os_Stat (pp_StagingPath pending);
      if (case staged of Inl e \<Rightarrow> IsNotExist e | Inr _ \<Rightarrow> False)
      then check (os_Remove (Join [dir, ''pending.json''])) fail (
           check (os_Remove dir) fail (ret (Inr counts)))
      else let destination = Join [pt_Quarantine s, pp_TransactionID pending @ ''-parent''] in
        attempt (os_Stat destination)
          (\<lambda>_. check (os_Rename dir destination) (\<lambda>_. preserve)
             (ret (Inr (preserved, quarantined + 1))))
          (\<lambda>_. preserve) } }))"

fun recover_pending_entries ::
  "(string \<times> node \<Rightarrow> int \<times> int \<Rightarrow> ('w, (err \<times> int \<times> int) + int \<times> int) state) \<Rightarrow>
   (string \<times> node) list \<Rightarrow> int \<times> int \<Rightarrow> ('w, int \<times> int \<times> err option) state"
where
  "recover_pending_entries f [] (p, q) = ret (p, q, None)"
| "recover_pending_entries f (entry # entries) counts = do {
     r \<leftarrow> f entry counts;
     (case r of Inl (e, p, q) \<Rightarrow> ret (p, q, Some e)
      | Inr counts \<Rightarrow> recover_pending_entries f entries counts) }"

definition RecoverPending ::
  "Paths \<Rightarrow> int \<Rightarrow> int \<Rightarrow> (int \<Rightarrow> ('z world_scheme, bool) state) option \<Rightarrow>
   ('z world_scheme, int \<times> int \<times> err option) state"
where
  "RecoverPending s now grace processAlive = attempt (os_ReadDir (pt_Pending s))
     (\<lambda>e. ret (0, 0, if IsNotExist e then None else Some e))
     (\<lambda>entries. recover_pending_entries (recover_pending_entry s now grace processAlive) entries (0, 0))"

section \<open>Leases and retained records\<close>

definition Store_WriteLease :: "Paths \<Rightarrow> LeaseJournal \<Rightarrow> ('z world_scheme, err option) state" where
  "Store_WriteLease s journal =
     check (EnsureLayout s) (\<lambda>e. ret (Some e)) (
     case Paths_Lease s (jn_LeaseID journal) of Inl e \<Rightarrow> ret (Some e) | Inr path \<Rightarrow> do {
       now \<leftarrow> time_Now;
       writeJSONDurable path (enc_lease (journal\<lparr>jn_SchemaVersion := ProtocolSchemaVersion,
         jn_UpdatedAt := now,
         jn_CreatedAt := (if jn_CreatedAt journal = 0 then now else jn_CreatedAt journal)\<rparr>)) })"

definition Store_ReadLease :: "Paths \<Rightarrow> string \<Rightarrow> ('z world_scheme, err + LeaseJournal) state" where
  "Store_ReadLease s leaseID =
     (case Paths_Lease s leaseID of Inl e \<Rightarrow> ret (Inl e) | Inr path \<Rightarrow>
      attempt (store_readJSON path dec_lease) (\<lambda>e. ret (Inl e))
        (\<lambda>journal. ret (
          if jn_LeaseID journal \<noteq> leaseID \<or> jn_SchemaVersion journal \<noteq> ProtocolSchemaVersion
          then Inl ErrOwnershipMismatch else Inr journal)))"

fun read_leases ::
  "Paths \<Rightarrow> LeaseJournal list \<Rightarrow> (string \<times> node) list \<Rightarrow> ('z world_scheme, LeaseJournal list) state"
where
  "read_leases s result [] = ret result"
| "read_leases s result ((name, info) # entries) =
     (if is_dir info \<or> Ext name \<noteq> ''.json'' then read_leases s result entries
      else do {
        r \<leftarrow> Store_ReadLease s (TrimSuffix name ''.json'');
        read_leases s (case r of Inl _ \<Rightarrow> result | Inr j \<Rightarrow> result @ [j]) entries })"

definition ListLeases :: "Paths \<Rightarrow> ('z world_scheme, err + LeaseJournal list) state" where
  "ListLeases s = attempt (entries_if_any (pt_Leases s)) (\<lambda>e. ret (Inl e))
     (\<lambda>entries. do { result \<leftarrow> read_leases s [] entries; ret (Inr result) })"

definition RemoveLease :: "Paths \<Rightarrow> LeaseJournal \<Rightarrow> ('z world_scheme, err option) state" where
  "RemoveLease s journal = attempt (Store_ReadLease s (jn_LeaseID journal)) (\<lambda>e. ret (Some e))
     (\<lambda>actual. if jn_OwnershipToken actual \<noteq> jn_OwnershipToken journal \<or>
          jn_ChildPath actual \<noteq> jn_ChildPath journal \<or> jn_ParentKey actual \<noteq> jn_ParentKey journal
        then ret (Some ErrOwnershipMismatch)
        else os_Remove (Join [pt_Leases s, jn_LeaseID journal @ ''.json'']))"

definition WriteRetained :: "Paths \<Rightarrow> LeaseJournal \<Rightarrow> ('z world_scheme, err option) state" where
  "WriteRetained s journal =
     (case Paths_RetainedRecord s (jn_RunID journal) of Inl e \<Rightarrow> ret (Some e) | Inr path \<Rightarrow> do {
       now \<leftarrow> time_Now;
       store_writeJSONExclusive path (enc_retained
         \<lparr>rr_SchemaVersion = ProtocolSchemaVersion, rr_RunID = jn_RunID journal,
          rr_LeaseID = jn_LeaseID journal, rr_OwnershipToken = jn_OwnershipToken journal,
          rr_ParentKey = jn_ParentKey journal, rr_ChildPath = jn_ChildPath journal,
          rr_CreatedAt = now\<rparr>) })"

definition ReadRetained :: "Paths \<Rightarrow> string \<Rightarrow> ('z world_scheme, err + RetainedRecord) state" where
  "ReadRetained s runID =
     (case Paths_RetainedRecord s runID of Inl e \<Rightarrow> ret (Inl e) | Inr path \<Rightarrow>
      attempt (store_readJSON path dec_retained) (\<lambda>e. ret (Inl e))
        (\<lambda>r. ret (
          if rr_SchemaVersion r \<noteq> ProtocolSchemaVersion \<or> rr_RunID r \<noteq> runID
          then Inl ErrOwnershipMismatch else Inr r)))"

definition RemoveRetained :: "Paths \<Rightarrow> RetainedRecord \<Rightarrow> ('z world_scheme, err option) state" where
  "RemoveRetained s given = attempt (ReadRetained s (rr_RunID given)) (\<lambda>e. ret (Some e))
     (\<lambda>actual. if rr_LeaseID actual \<noteq> rr_LeaseID given \<or>
          rr_OwnershipToken actual \<noteq> rr_OwnershipToken given \<or> rr_ChildPath actual \<noteq> rr_ChildPath given
        then ret (Some ErrOwnershipMismatch)
        else os_Remove (Join [pt_Retained s, rr_RunID given @ ''.json'']))"

section \<open>Garbage collection\<close>

text \<open>
  \<open>ProtectedParentKeys\<close>: each entry of a directory names the parent it protects, or is an error.
\<close>

fun protect ::
  "(string \<times> node \<Rightarrow> ('w, err + string) state) \<Rightarrow> string set \<Rightarrow> (string \<times> node) list \<Rightarrow>
   ('w, err + string set) state"
where
  "protect f protected [] = ret (Inr protected)"
| "protect f protected (entry # entries) =
     attempt (f entry) (\<lambda>e. ret (Inl e)) (\<lambda>key. protect f (insert key protected) entries)"

definition unknown :: "string \<Rightarrow> string \<Rightarrow> err" where
  "unknown what name = Wrapped (what @ name) ErrOwnershipMismatch"

definition lease_reference :: "Paths \<Rightarrow> string \<times> node \<Rightarrow> ('z world_scheme, err + string) state" where
  "lease_reference s entry = (let name = fst entry in
     if is_dir (snd entry) \<or> \<not> EqualFold (Ext name) ''.json''
     then ret (Inl (unknown ''unknown lease artifact '' name))
     else attempt (Store_ReadLease s (TrimSuffix name (Ext name)))
       (\<lambda>e. ret (Inl (Joined [e, unknown ''invalid lease parent reference '' name])))
       (\<lambda>journal. ret (if \<not> compatibility (jn_ParentKey journal)
          then Inl (Joined [unknown ''invalid lease parent reference '' name])
          else Inr (jn_ParentKey journal))))"

definition pending_reference :: "Paths \<Rightarrow> string \<times> node \<Rightarrow> ('z world_scheme, err + string) state" where
  "pending_reference s entry = (let name = fst entry in
     if \<not> is_dir (snd entry) \<or> \<not> compatibility name
     then ret (Inl (unknown ''unknown pending artifact '' name))
     else attempt (ReadPending s name)
       (\<lambda>e. ret (Inl (Joined [e, unknown ''invalid pending parent reference '' name])))
       (\<lambda>pending. ret (Inr (ck_Digest (pp_Key pending)))))"

definition retained_reference :: "Paths \<Rightarrow> string \<times> node \<Rightarrow> ('z world_scheme, err + string) state" where
  "retained_reference s entry = (let name = fst entry in
     if is_dir (snd entry) \<or> \<not> EqualFold (Ext name) ''.json''
     then ret (Inl (unknown ''unknown retained artifact '' name))
     else attempt (ReadRetained s (TrimSuffix name (Ext name)))
       (\<lambda>e. ret (Inl (Joined [e, unknown ''invalid retained parent reference '' name])))
       (\<lambda>r. ret (if \<not> compatibility (rr_ParentKey r)
          then Inl (Joined [unknown ''invalid retained parent reference '' name])
          else Inr (rr_ParentKey r))))"

definition ProtectedParentKeys :: "Paths \<Rightarrow> ('z world_scheme, err + string set) state" where
  "ProtectedParentKeys s =
     attempt (entries_if_any (pt_Leases s)) (\<lambda>e. ret (Inl e)) (\<lambda>leases.
     attempt (protect (lease_reference s) {} leases) (\<lambda>e. ret (Inl e)) (\<lambda>protected.
     attempt (entries_if_any (pt_Pending s)) (\<lambda>e. ret (Inl e)) (\<lambda>pendings.
     attempt (protect (pending_reference s) protected pendings) (\<lambda>e. ret (Inl e)) (\<lambda>protected.
     attempt (entries_if_any (pt_Retained s)) (\<lambda>e. ret (Inl e)) (\<lambda>retained.
     attempt (protect (retained_reference s) protected retained) (\<lambda>e. ret (Inl e)) (\<lambda>protected.
     attempt (entries_if_any (pt_Quarantine s)) (\<lambda>e. ret (Inl e)) (\<lambda>quarantine.
       if length quarantine \<noteq> 0 then ret (Inl (Wrapped ''quarantine is non-empty'' ErrOwnershipMismatch))
       else ret (Inr protected))))))))"

fun read_parents ::
  "Paths \<Rightarrow> ParentMetadata list \<Rightarrow> (string \<times> node) list \<Rightarrow> ('z world_scheme, ParentMetadata list) state"
where
  "read_parents s result [] = ret result"
| "read_parents s result ((name, info) # entries) =
     (if \<not> is_dir info \<or> \<not> compatibility name then read_parents s result entries
      else do {
        r \<leftarrow> store_readJSON (Join [pt_Parents s, name, ''metadata.json'']) dec_metadata;
        read_parents s (case r of Inl _ \<Rightarrow> result | Inr m \<Rightarrow> result @ [m]) entries })"

definition ListParents :: "Paths \<Rightarrow> ('z world_scheme, err + ParentMetadata list) state" where
  "ListParents s = attempt (entries_if_any (pt_Parents s)) (\<lambda>e. ret (Inl e))
     (\<lambda>entries. do { result \<leftarrow> read_parents s [] entries; ret (Inr (sort_key pm_LastUsedAt result)) })"

definition TouchParent :: "Paths \<Rightarrow> ParentMetadata \<Rightarrow> ('z world_scheme, err option) state" where
  "TouchParent s metadata = do {
     r \<leftarrow> ResolveParent s (pm_CompatibilityKey metadata);
     (case r of Inl e \<Rightarrow> ret (Some (Joined [e, ErrOwnershipMismatch])) | Inr resolved \<Rightarrow>
        (case (if res_Status resolved \<noteq> ''valid'' then None else res_Metadata resolved) of
           None \<Rightarrow> ret (Some (Joined [ErrOwnershipMismatch]))
         | Some found \<Rightarrow>
             if pm_OwnershipToken found \<noteq> pm_OwnershipToken metadata \<or>
                pm_FileIdentity found \<noteq> pm_FileIdentity metadata
             then ret (Some ErrOwnershipMismatch)
             else do {
               now \<leftarrow> time_Now;
               writeJSONDurable (Join [Join [pt_Parents s, ck_Digest (pm_CompatibilityKey metadata)], ''metadata.json''])
                 (enc_metadata (found\<lparr>pm_LastUsedAt := now\<rparr>)) })) }"

definition RemoveParentIfUnused :: "Paths \<Rightarrow> string \<Rightarrow> string set \<Rightarrow> ('z world_scheme, err + i64) state" where
  "RemoveParentIfUnused s key active =
     (if key \<in> active then ret (Inl ErrParentConflict)
      else case Paths_Parent s key of Inl e \<Rightarrow> ret (Inl e) | Inr dir \<Rightarrow> do {
        r \<leftarrow> ResolveParent s (zero_key\<lparr>ck_SchemaVersion := ParentSchemaVersion, ck_Digest := key\<rparr>);
        (case r of Inl e \<Rightarrow> ret (Inl (Joined [e, ErrOwnershipMismatch])) | Inr resolution \<Rightarrow>
          (case (if res_Status resolution \<noteq> ''valid'' then None else res_Metadata resolution) of
             None \<Rightarrow> ret (Inl (Joined [ErrOwnershipMismatch]))
           | Some metadata \<Rightarrow> check (os_RemoveAll dir) (\<lambda>e. ret (Inl e))
               (ret (Inr (pm_AllocatedBytes metadata))))) })"

section \<open>Status\<close>

record StoreStatus =
  ws_Provider :: string
  ws_BootSessionID :: string
  ws_ParentTTLSeconds :: i64
  ws_UserSID :: string
  ws_ParentCount :: int
  ws_ActiveChildCount :: int
  ws_RetainedChildCount :: int
  ws_PendingCount :: int
  ws_QuarantineCount :: int
  ws_ParentAllocatedBytes :: i64
  ws_ParentLogicalBytes :: i64
  ws_ActiveChildAllocatedBytes :: i64
  ws_ActiveChildLogicalBytes :: i64
  ws_RetainedChildAllocatedBytes :: i64
  ws_RetainedChildLogicalBytes :: i64
  ws_QuarantineAllocatedBytes :: i64
  ws_QuarantineLogicalBytes :: i64
  ws_ManualRecoveryRequired :: bool
  ws_GCBlocked :: bool
  ws_GCBlockReason :: string
  ws_Capacity :: Capacity

definition zero_status :: StoreStatus where
  "zero_status = \<lparr>ws_Provider = '''', ws_BootSessionID = '''', ws_ParentTTLSeconds = 0, ws_UserSID = '''',
     ws_ParentCount = 0, ws_ActiveChildCount = 0, ws_RetainedChildCount = 0, ws_PendingCount = 0,
     ws_QuarantineCount = 0, ws_ParentAllocatedBytes = 0, ws_ParentLogicalBytes = 0,
     ws_ActiveChildAllocatedBytes = 0, ws_ActiveChildLogicalBytes = 0,
     ws_RetainedChildAllocatedBytes = 0, ws_RetainedChildLogicalBytes = 0,
     ws_QuarantineAllocatedBytes = 0, ws_QuarantineLogicalBytes = 0, ws_ManualRecoveryRequired = False,
     ws_GCBlocked = False, ws_GCBlockReason = '''',
     ws_Capacity = \<lparr>cp_QuotaBytes = 0, cp_AllocatedBytes = 0, cp_ReclaimableBytes = 0,
       cp_HostFreeBytes = 0, cp_HostFloorBytes = 0, cp_ReserveBytes = 0\<rparr>\<rparr>"

text \<open>The two measurements of a file, each added when it succeeds.\<close>

definition add_file ::
  "((i64 \<Rightarrow> i64) \<Rightarrow> StoreStatus \<Rightarrow> StoreStatus) \<Rightarrow> ((i64 \<Rightarrow> i64) \<Rightarrow> StoreStatus \<Rightarrow> StoreStatus) \<Rightarrow>
   string \<Rightarrow> StoreStatus \<Rightarrow> ('z world_scheme, StoreStatus) state"
where
  "add_file allocated logical path st = do {
     a \<leftarrow> fileAllocatedBytes path;
     i \<leftarrow> os_Stat path;
     let st = (case a of Inr b \<Rightarrow> allocated (\<lambda>x. x + b) st | Inl _ \<Rightarrow> st);
     ret (case i of Inr info \<Rightarrow> logical (\<lambda>x. x + node_size info) st | Inl _ \<Rightarrow> st) }"

fun status_parents ::
  "ParentMetadata list \<Rightarrow> StoreStatus \<Rightarrow> ('z world_scheme, StoreStatus) state"
where
  "status_parents [] st = ret st"
| "status_parents (parent # parents) st = do {
     st \<leftarrow> add_file ws_ParentAllocatedBytes_update ws_ParentLogicalBytes_update (pm_VHDXPath parent) st;
     status_parents parents st }"

definition status_lease :: "err + LeaseJournal \<Rightarrow> StoreStatus \<Rightarrow> ('z world_scheme, StoreStatus) state" where
  "status_lease r st = (case r of
       Inl _ \<Rightarrow> ret (ws_QuarantineCount_update (\<lambda>n. n + 1) st)
     | Inr journal \<Rightarrow>
         if jn_State journal = ''quarantined'' then
           add_file ws_QuarantineAllocatedBytes_update ws_QuarantineLogicalBytes_update
             (jn_ChildPath journal) (ws_QuarantineCount_update (\<lambda>n. n + 1) st)
         else if jn_Retained journal then
           add_file ws_RetainedChildAllocatedBytes_update ws_RetainedChildLogicalBytes_update
             (jn_ChildPath journal) (ws_RetainedChildCount_update (\<lambda>n. n + 1) st)
         else if jn_State journal \<noteq> ''released'' then
           add_file ws_ActiveChildAllocatedBytes_update ws_ActiveChildLogicalBytes_update
             (jn_ChildPath journal) (ws_ActiveChildCount_update (\<lambda>n. n + 1) st)
         else ret st)"

fun status_leases ::
  "Paths \<Rightarrow> (string \<times> node) list \<Rightarrow> StoreStatus \<Rightarrow> ('z world_scheme, StoreStatus) state"
where
  "status_leases s [] st = ret st"
| "status_leases s ((name, info) # entries) st =
     (if is_dir info \<or> Ext name \<noteq> ''.json'' then status_leases s entries st
      else do {
        r \<leftarrow> store_readJSON (Join [pt_Leases s, name]) dec_lease;
        st \<leftarrow> status_lease r st;
        status_leases s entries st })"

definition Store_Status ::
  "Paths \<Rightarrow> i64 \<Rightarrow> i64 \<Rightarrow> i64 \<Rightarrow> ('z world_scheme, StoreStatus \<times> err option) state"
where
  "Store_Status s hostFree quota floor = do {
     parentCount \<leftarrow> countDirectories (pt_Parents s);
     pendingCount \<leftarrow> countDirectories (pt_Pending s);
     quarantineCount \<leftarrow> countEntries (pt_Quarantine s);
     let st = zero_status\<lparr>ws_Provider := Provider, ws_UserSID := Base (pt_UserRoot s),
           ws_ParentCount := parentCount, ws_PendingCount := pendingCount,
           ws_QuarantineCount := quarantineCount\<rparr>;
     parents \<leftarrow> ListParents s;
     st \<leftarrow> (case parents of Inl _ \<Rightarrow> ret st | Inr parents \<Rightarrow> status_parents parents st);
     entries \<leftarrow> entries_or_none (pt_Leases s);
     st \<leftarrow> status_leases s entries st;
     (allocated, _) \<leftarrow> allocatedVHDXBytes (pt_Quarantine s);
     (logical, _) \<leftarrow> logicalVHDXBytes (pt_Quarantine s);
     let st = st\<lparr>ws_QuarantineAllocatedBytes := ws_QuarantineAllocatedBytes st + allocated,
           ws_QuarantineLogicalBytes := ws_QuarantineLogicalBytes st + logical,
           ws_ManualRecoveryRequired := ws_QuarantineCount st > 0\<rparr>;
     (used, e) \<leftarrow> allocatedVHDXBytes (pt_UserRoot s);
     ret (if (case e of None \<Rightarrow> False | Some x \<Rightarrow> \<not> IsNotExist x) then (st, e)
       else (st\<lparr>ws_Capacity := \<lparr>cp_QuotaBytes = quota, cp_AllocatedBytes = used,
              cp_ReclaimableBytes = 0, cp_HostFreeBytes = hostFree, cp_HostFloorBytes = floor,
              cp_ReserveBytes = 0\<rparr>\<rparr>, None)) }"

end
