(* ===== verification/Tree_Measure.thy ===== *)
theory Tree_Measure
  imports Atomic_File
begin

text \<open>
  Reading whole trees: \<open>internal/fileusage\<close> (logical and allocated bytes) and the daemon's
  content digest (\<open>digestTree\<close>, \<open>writeDigestField\<close> in \<open>manager_unix.go\<close>). The digest is the
  hash of a stream of length-prefixed items; the stream determines the items, and the items
  are a function of the tree alone.
\<close>

section \<open>Usage\<close>

record usage =
  u_LogicalBytes :: i64
  u_AllocatedBytes :: i64

definition allocatedFileBytes :: "env \<Rightarrow> content \<Rightarrow> i64" where
  "allocatedFileBytes e c = e_blocks e (bytes c) * 512"

definition usage_visit :: "env \<Rightarrow> cpath \<Rightarrow> err + node \<Rightarrow> usage \<Rightarrow> err + usage" where
  "usage_visit e q r u = (case r of
       Inl x \<Rightarrow> Inl x
     | Inr n \<Rightarrow> (case n_kind n of
         KFile c \<Rightarrow> Inr (u\<lparr>u_LogicalBytes := u_LogicalBytes u + node_size n,
                           u_AllocatedBytes := u_AllocatedBytes u + allocatedFileBytes e c\<rparr>)
       | _ \<Rightarrow> Inr u))"

definition MeasureDirectoryUsage :: "string \<Rightarrow> ('z world_scheme, err + usage) state" where
  "MeasureDirectoryUsage root = do {
     e \<leftarrow> env_get (\<lambda>e. e);
     WalkDir root (\<lambda>q r u. ret (usage_visit e q r u)) \<lparr>u_LogicalBytes = 0, u_AllocatedBytes = 0\<rparr> }"

section \<open>The digest stream\<close>

primrec be_bytes :: "nat \<Rightarrow> nat \<Rightarrow> string" where
  "be_bytes 0 n = []"
| "be_bytes (Suc k) n = be_bytes k (n div 256) @ [char_of (n mod 256)]"

definition writeDigestField :: "string \<Rightarrow> string \<Rightarrow> string" where
  "writeDigestField h value = h @ be_bytes 8 (length value) @ value"

record tree_entry =
  te_relative :: string
  te_mode :: "32 word"
  te_directory :: bool

definition reserved_marker :: string where
  "reserved_marker = ''.testplay-storage-owner''"

definition workspaceOwnerFile :: string where
  "workspaceOwnerFile = ''.unity-workspace-storage-owner.json''"

unbundle bit_operations_syntax

definition node_mode :: "node \<Rightarrow> 32 word" where
  "node_mode n = n_perm n AND 511"

definition relative_to :: "string \<Rightarrow> cpath \<Rightarrow> string option" where
  "relative_to root q = Rel (Clean root) (render True q)"

definition digest_visit ::
  "string \<Rightarrow> cpath \<Rightarrow> err + node \<Rightarrow> tree_entry list \<Rightarrow> err + tree_entry list"
where
  "digest_visit root q r entries = (case r of
       Inl e \<Rightarrow> Inl e
     | Inr n \<Rightarrow>
         if is_link n then Inl (Text ''symlink is not allowed'')
         else if \<not> is_dir n \<and> \<not> is_regular n then Inl (Text ''special file is not allowed'')
         else if q \<noteq> comps root \<and> q \<noteq> [] \<and>
              (last q = reserved_marker \<or> last q = workspaceOwnerFile)
           then Inl (Text ''reserved marker is not allowed'')
         else (case relative_to root q of
             None \<Rightarrow> Inl (Text ''relative path'')
           | Some rel \<Rightarrow> Inr (entries @
               [\<lparr>te_relative = rel, te_mode = node_mode n, te_directory = is_dir n\<rparr>])))"

definition digest_header :: string where
  "digest_header = ''unity-workspace-storage-tree-v2'' @ [CHR 0x00]"

fun digest_entries ::
  "string \<Rightarrow> tree_entry list \<Rightarrow> string \<Rightarrow> i64 \<Rightarrow> ('z world_scheme, err + string \<times> i64) state"
where
  "digest_entries root [] h logical = ret (Inr (h, logical))"
| "digest_entries root (entry # entries) h logical =
     (let h1 = writeDigestField (h @ (if te_directory entry then ''d'' else ''f'')) (te_relative entry)
               @ be_bytes 4 (unat (te_mode entry)) in
      if te_directory entry then digest_entries root entries h1 logical
      else attempt (os_ReadFile (Join [root, te_relative entry])) (\<lambda>e. ret (Inl e))
        (\<lambda>c. digest_entries root entries
               (h1 @ be_bytes 8 (length (bytes c)) @ bytes c)
               (logical + of_nat (length (bytes c)))))"

definition digestTree :: "string \<Rightarrow> ('z world_scheme, err + string \<times> i64) state" where
  "digestTree root =
     attempt (WalkDir root (\<lambda>q r entries. ret (digest_visit root q r entries)) [])
       (\<lambda>e. ret (Inl e))
       (\<lambda>entries. attempt
          (digest_entries root (sort_key te_relative entries) digest_header 0)
          (\<lambda>e. ret (Inl e))
          (\<lambda>(h, logical). do {
             sha \<leftarrow> env_get e_sha256;
             ret (Inr (hex_encode (sha h), logical)) }))"

lemma MeasureDirectoryUsage_keeps [eff_intros]:
  "keeps (writes S) (MeasureDirectoryUsage root)"
  unfolding MeasureDirectoryUsage_def by (auto intro!: eff_intros)

lemma MeasureDirectoryUsage_same [eff_intros]: "keeps same (MeasureDirectoryUsage root)"
  unfolding MeasureDirectoryUsage_def by (auto intro!: eff_intros)

lemma digest_entries_same: "keeps same (digest_entries root es h l)"
  by (induction es arbitrary: h l) (auto intro!: eff_intros simp: Let_def)

lemma digestTree_same [eff_intros]: "keeps same (digestTree root)"
  unfolding digestTree_def by (auto intro!: eff_intros digest_entries_same)

lemma digest_entries_keeps:
  fixes S :: "cpath set"
  shows "keeps (writes S :: 'z world_scheme \<Rightarrow> _) (digest_entries root es h l)"
proof (induction es arbitrary: h l)
  case Nil
  show ?case by (auto intro: eff_intros)
next
  case (Cons e es)
  show ?case by (auto intro!: eff_intros Cons.IH)
qed

lemma digestTree_keeps [eff_intros]: "keeps (writes S) (digestTree root)"
  unfolding digestTree_def by (auto intro!: eff_intros digest_entries_keeps)

section \<open>The stream determines the items\<close>

datatype tree_item = TDir string "32 word" | TFile string "32 word" string

fun item_bytes :: "tree_item \<Rightarrow> string" where
  "item_bytes (TDir r m) = ''d'' @ be_bytes 8 (length r) @ r @ be_bytes 4 (unat m)"
| "item_bytes (TFile r m b) =
     ''f'' @ be_bytes 8 (length r) @ r @ be_bytes 4 (unat m) @ be_bytes 8 (length b) @ b"

fun item_rel :: "tree_item \<Rightarrow> string" where
  "item_rel (TDir r m) = r"
| "item_rel (TFile r m b) = r"

fun item_data :: "tree_item \<Rightarrow> string" where
  "item_data (TDir r m) = []"
| "item_data (TFile r m b) = b"

definition item_bounded :: "tree_item \<Rightarrow> bool" where
  "item_bounded x \<longleftrightarrow> length (item_rel x) < 2 ^ 64 \<and> length (item_data x) < 2 ^ 64"

definition digest_stream :: "tree_item list \<Rightarrow> string" where
  "digest_stream xs = digest_header @ concat (map item_bytes xs)"

lemma length_be_bytes [simp]: "length (be_bytes k n) = k"
  by (induction k arbitrary: n) auto

lemma be_bytes_inj: "be_bytes k n = be_bytes k m \<Longrightarrow> n < 256 ^ k \<Longrightarrow> m < 256 ^ k \<Longrightarrow> n = m"
proof (induction k arbitrary: n m)
  case 0
  then show ?case by simp
next
  case (Suc k)
  have "n div 256 = m div 256"
    using Suc.prems by (intro Suc.IH) (auto simp: less_mult_imp_div_less)
  moreover have "char_of (n mod 256) = (char_of (m mod 256) :: char)"
    using Suc.prems(1) by simp
  then have "n mod 256 = m mod 256"
    by (metis mod_mod_trivial of_char_of)
  ultimately show ?case by (metis div_mult_mod_eq)
qed

lemma be_bytes_8_inj:
  assumes "be_bytes 8 n = be_bytes 8 m" and "n < 2 ^ 64" and "m < 2 ^ 64"
  shows "n = m"
proof -
  have "(256 :: nat) ^ 8 = 2 ^ 64" using power_mult [of "2 :: nat" 8 8] by simp
  with assms be_bytes_inj [of 8 n m] show ?thesis by presburger
qed

lemma be_bytes_4_inj:
  assumes "be_bytes 4 (unat v) = be_bytes 4 (unat w)"
  shows "v = (w :: 32 word)"
proof -
  have "(256 :: nat) ^ 4 = 2 ^ 32" using power_mult [of "2 :: nat" 8 4] by simp
  moreover have "unat u < 2 ^ 32" for u :: "32 word"
    using unsigned_less [of u] by (simp add: word_less_nat_alt del: unsigned_less)
  ultimately have "unat v = unat w" using assms be_bytes_inj [of 4 "unat v" "unat w"] by metis
  then show ?thesis by (simp add: word_unat_eq_iff)
qed

lemma field_inj:
  assumes "be_bytes 8 (length r) @ r @ s = be_bytes 8 (length r') @ r' @ s'"
    and "length r < 2 ^ 64" and "length r' < 2 ^ 64"
  shows "r = r' \<and> s = s'"
proof -
  from assms(1) have "be_bytes 8 (length r) = be_bytes 8 (length r')" "r @ s = r' @ s'"
    by (simp_all add: append_eq_append_conv)
  with be_bytes_8_inj assms have "length r = length r'" by blast
  with \<open>r @ s = r' @ s'\<close> show ?thesis by simp
qed

lemma item_bytes_inj:
  assumes "item_bytes x @ s = item_bytes y @ t" and "item_bounded x" and "item_bounded y"
  shows "x = y \<and> s = t"
proof (cases x)
  case (TDir r m)
  then obtain r' m' where y: "y = TDir r' m'" using assms(1) by (cases y) auto
  from assms TDir y have "r = r' \<and> be_bytes 4 (unat m) @ s = be_bytes 4 (unat m') @ t"
    by (intro field_inj) (auto simp: item_bounded_def)
  then show ?thesis using TDir y be_bytes_4_inj by auto
next
  case (TFile r m b)
  then obtain r' m' b' where y: "y = TFile r' m' b'" using assms(1) by (cases y) auto
  from assms TFile y have "r = r' \<and>
      be_bytes 4 (unat m) @ (be_bytes 8 (length b) @ b @ s) =
      be_bytes 4 (unat m') @ (be_bytes 8 (length b') @ b' @ t)"
    by (intro field_inj) (auto simp: item_bounded_def)
  then have "r = r'" "m = m'" "be_bytes 8 (length b) @ b @ s = be_bytes 8 (length b') @ b' @ t"
    using be_bytes_4_inj by auto
  moreover from this(3) have "b = b' \<and> s = t"
    using assms TFile y by (intro field_inj) (auto simp: item_bounded_def)
  ultimately show ?thesis using TFile y by simp
qed

lemma item_bytes_nonempty: "item_bytes x \<noteq> []"
  by (cases x) simp_all

lemma concat_items_inj:
  "concat (map item_bytes xs) = concat (map item_bytes ys) \<Longrightarrow>
   list_all item_bounded xs \<Longrightarrow> list_all item_bounded ys \<Longrightarrow> xs = ys"
proof (induction xs arbitrary: ys)
  case Nil
  then show ?case by (cases ys) (auto simp: item_bytes_nonempty)
next
  case (Cons x xs)
  from Cons.prems obtain y ys' where ys: "ys = y # ys'"
    by (cases ys) (auto simp: item_bytes_nonempty)
  with Cons.prems item_bytes_inj [of x "concat (map item_bytes xs)" y "concat (map item_bytes ys')"]
  have "x = y" "concat (map item_bytes xs) = concat (map item_bytes ys')" by auto
  with Cons ys show ?case by auto
qed

section \<open>What the digest is a function of\<close>

definition entry_of :: "string \<Rightarrow> fsys \<Rightarrow> cpath \<Rightarrow> tree_entry" where
  "entry_of root f q = (let n = the (lookup f q) in
     \<lparr>te_relative = the (relative_to root q), te_mode = node_mode n, te_directory = is_dir n\<rparr>)"

definition file_bytes :: "fsys \<Rightarrow> cpath \<Rightarrow> string" where
  "file_bytes f p = (case fs_read p f of Inr c \<Rightarrow> bytes c | Inl _ \<Rightarrow> [])"

definition item_of :: "string \<Rightarrow> fsys \<Rightarrow> tree_entry \<Rightarrow> tree_item" where
  "item_of root f e =
     (if te_directory e then TDir (te_relative e) (te_mode e)
      else TFile (te_relative e) (te_mode e) (file_bytes f (comps (Join [root, te_relative e]))))"

text \<open>The canonical listing of a tree: every entry with its mode and its bytes, in order.\<close>

definition tree_items :: "string \<Rightarrow> fsys \<Rightarrow> tree_item list" where
  "tree_items root f =
     map (item_of root f) (sort_key te_relative (map (entry_of root f) (below (comps root) f)))"

definition items_size :: "tree_item list \<Rightarrow> i64" where
  "items_size xs = (\<Sum>x \<leftarrow> xs. of_nat (length (item_data x)))"

lemma os_ReadFile_wp:
  assumes "\<And>e w'. w_fs w' = w_fs w \<Longrightarrow> w_env w' = w_env w \<Longrightarrow> Q (Inl e) w'"
    and "\<And>c w'. w_fs w' = w_fs w \<Longrightarrow> w_env w' = w_env w \<Longrightarrow>
      fs_read (comps p) (w_fs w) = Inr c \<Longrightarrow> Q (Inr c) w'"
  shows "wp (os_ReadFile p) Q w"
  by (cases "fs_read (comps p) (w_fs w)") (auto simp: os_ReadFile_def wp_simps assms)

lemma digest_entries_spec:
  "wp (digest_entries root es h l) (\<lambda>r w'. w_fs w' = w_fs w \<and> w_env w' = w_env w \<and>
     (\<forall>h' l'. r = Inr (h', l') \<longrightarrow>
        h' = h @ concat (map item_bytes (map (item_of root (w_fs w)) es)) \<and>
        l' = l + items_size (map (item_of root (w_fs w)) es))) w"
proof (induction es arbitrary: h l w)
  case Nil
  show ?case by (simp add: wp_simps items_size_def)
next
  case (Cons e es)
  show ?case
  proof (cases "te_directory e")
    case True
    show ?thesis
      using True
      by (auto simp: Let_def writeDigestField_def item_of_def items_size_def
          intro!: wp_mono [OF Cons.IH])
  next
    case False
    show ?thesis
      unfolding digest_entries.simps Let_def
      using False
      by (auto intro!: wp_attemptI [where P = "\<lambda>r v. w_fs v = w_fs w \<and> w_env v = w_env w \<and>
            (\<forall>c. r = Inr c \<longrightarrow> fs_read (comps (Join [root, te_relative e])) (w_fs w) = Inr c)"]
          os_ReadFile_wp wp_mono [OF Cons.IH]
          simp: writeDigestField_def item_of_def items_size_def file_bytes_def wp_ret)
  qed
qed

lemma digest_visit_entry:
  "digest_visit root q r es = Inr es' \<Longrightarrow> r = fs_lstat q f \<Longrightarrow> es' = es @ [entry_of root f q]"
  by (auto simp: digest_visit_def entry_of_def fs_lstat_def
      split: sum.splits option.splits if_splits)

lemma digest_visit_Inl: "digest_visit root q (Inl e) es = Inl e"
  by (simp add: digest_visit_def)

lemma walk_digest_spec:
  "wp (walk_list (\<lambda>q r entries. ret (digest_visit root q r entries)) acc qs)
     (\<lambda>r w'. w_fs w' = w_fs w \<and> w_env w' = w_env w \<and>
        (\<forall>es. r = Inr es \<longrightarrow> es = acc @ map (entry_of root (w_fs w)) qs)) w"
proof (induction qs arbitrary: acc w)
  case Nil
  show ?case by (simp add: wp_simps)
next
  case (Cons q qs)
  show ?case
    unfolding walk_list.simps
  proof (rule wp_bindI [where P = "\<lambda>n v. v = tick w \<and> (n = Inl EIO \<or> n = fs_lstat q (w_fs w))"])
    show "wp (query (fs_lstat q)) (\<lambda>n v. v = tick w \<and> (n = Inl EIO \<or> n = fs_lstat q (w_fs w))) w"
      by (simp add: wp_simps)
  next
    fix n v
    assume *: "v = tick w \<and> (n = Inl EIO \<or> n = fs_lstat q (w_fs w))"
    have "es' = acc @ [entry_of root (w_fs w) q]" if "digest_visit root q n acc = Inr es'" for es'
      using * digest_visit_entry [OF that, of "w_fs w"] that by (auto simp: digest_visit_def)
    then show "wp (attempt (ret (digest_visit root q n acc)) (\<lambda>e. ret (Inl e))
        (\<lambda>acc. walk_list (\<lambda>q r entries. ret (digest_visit root q r entries)) acc qs))
       (\<lambda>r w'. w_fs w' = w_fs w \<and> w_env w' = w_env w \<and>
        (\<forall>es. r = Inr es \<longrightarrow> es = acc @ map (entry_of root (w_fs w)) (q # qs))) v"
      using * by (cases "digest_visit root q n acc")
        (auto simp: wp_simps intro!: wp_mono [OF Cons.IH])
  qed
qed

lemma digestTree_spec:
  "wp (digestTree root) (\<lambda>r w'. w_fs w' = w_fs w \<and>
     (\<forall>d l. r = Inr (d, l) \<longrightarrow>
        d = hex_encode (e_sha256 (w_env w) (digest_stream (tree_items root (w_fs w)))) \<and>
        l = items_size (tree_items root (w_fs w)))) w"
proof -
  have walk: "wp (WalkDir root (\<lambda>q r entries. ret (digest_visit root q r entries)) [])
     (\<lambda>r w'. w_fs w' = w_fs w \<and> w_env w' = w_env w \<and>
        (\<forall>es. r = Inr es \<longrightarrow> es = map (entry_of root (w_fs w)) (below (comps root) (w_fs w)))) w"
    unfolding WalkDir_def
  proof (rule wp_bindI [where P = "\<lambda>_ v. v = tick w"])
    show "wp (os_Lstat root) (\<lambda>_ v. v = tick w) w"
      by (simp add: os_Lstat_def wp_simps)
  qed (auto simp: wp_simps digest_visit_Inl intro!: wp_mono [OF walk_digest_spec] split: sum.splits)
  show ?thesis
    unfolding digestTree_def
    by (rule wp_attemptI [OF walk], simp add: wp_simps,
        rule wp_attemptI [OF digest_entries_spec])
      (auto simp: wp_simps env_get_def tree_items_def digest_stream_def split: prod.splits)
qed

end
