(* ===== verification/Source_Keys.thy ===== *)
theory Source_Keys
  imports Store Tree_Measure
begin

text \<open>
  The identity of a project: the digest of a source tree and the snapshot and compatibility keys of
  \<open>workspace/key.go\<close>, and the key of a \<open>Library\<close> image of \<open>internal/libraryimage/key.go\<close>. The working
  directory, the operating system and the architecture are parameters.
\<close>

section \<open>Text\<close>

fun split_on :: "char \<Rightarrow> string \<Rightarrow> string list" where
  "split_on c [] = [[]]"
| "split_on c (x # xs) = (if x = c then [] # split_on c xs
     else case split_on c xs of [] \<Rightarrow> [[x]] | l # ls \<Rightarrow> (x # l) # ls)"

definition text_lines :: "string \<Rightarrow> string list" where
  "text_lines s = split_on (CHR 0x0A) s"

definition parseUnityVersion :: "string \<Rightarrow> string" where
  "parseUnityVersion s =
     (case find (\<lambda>line. HasPrefix (TrimSpace line) ''m_EditorVersion:'') (text_lines s) of
        Some line \<Rightarrow> TrimSpace (drop (length ''m_EditorVersion:'') (TrimSpace line))
      | None \<Rightarrow> TrimSpace s)"

text \<open>\<open>fs.FileMode.String\<close>, for the types and the nine permission bits of the model; a special file is
  shown as a named pipe.\<close>

definition mode_string :: "node \<Rightarrow> string" where
  "mode_string n =
     (case n_kind n of KDir \<Rightarrow> ''d'' | KLink t \<Rightarrow> ''L'' | KSpecial \<Rightarrow> ''p'' | KFile c \<Rightarrow> ''-'') @
     map (\<lambda>(i, x). if bit (n_perm n) (8 - i) then x else CHR ''-'') (zip [0..<9] ''rwxrwxrwx'')"

section \<open>Hashes\<close>

definition hashBytes :: "env \<Rightarrow> string \<Rightarrow> string" where
  "hashBytes e value = hex_encode (e_sha256 e value)"

definition hashFile :: "string \<Rightarrow> ('z world_scheme, err + string) state" where
  "hashFile path = attempt (os_ReadFile path) (\<lambda>e. ret (Inl e)) (\<lambda>c. do {
     e \<leftarrow> env_get (\<lambda>e. e);
     ret (Inr (hashBytes e (bytes c))) })"

section \<open>Source trees\<close>

text \<open>The callback of \<open>digestTree\<close>: the files, no link anywhere.\<close>

definition source_visit ::
  "string \<Rightarrow> cpath \<Rightarrow> err + node \<Rightarrow> string list \<Rightarrow> err + string list"
where
  "source_visit root q r paths = (case r of
       Inl e \<Rightarrow> Inl e
     | Inr entry \<Rightarrow>
         if q = comps root then Inr paths
         else if is_link entry then Inl (Text ''reparse/symlink entry is not allowed'')
         else if is_dir entry then Inr paths
         else (case relative_to root q of
             None \<Rightarrow> Inl (Text ''relative path'') | Some rel \<Rightarrow> Inr (paths @ [rel])))"

text \<open>The loop over the sorted names: what was hashed, the count and the size.\<close>

fun source_entries ::
  "string \<Rightarrow> string list \<Rightarrow> string \<Rightarrow> i64 \<Rightarrow> i64 \<Rightarrow> ('z world_scheme, err + string \<times> i64 \<times> i64) state"
where
  "source_entries root [] h count sz = ret (Inr (h, count, sz))"
| "source_entries root (rel # rels) h count sz =
     (let path = Join [root, rel] in
      attempt (os_Stat path) (\<lambda>e. ret (Inl e)) (\<lambda>_. do {
        info \<leftarrow> os_Stat path;
        let sz = (case info of Inr n \<Rightarrow> sz + node_size n | Inl _ \<Rightarrow> sz);
        attempt (os_ReadFile path) (\<lambda>e. ignore file_close (ret (Inl e))) (\<lambda>c.
        check file_close (\<lambda>e. ret (Inl e))
          (source_entries root rels (h @ rel @ [CHR 0x00] @ bytes c) (count + 1) sz)) }))"

definition source_digestTree :: "string \<Rightarrow> ('z world_scheme, err + string \<times> i64 \<times> i64) state" where
  "source_digestTree root =
     attempt (WalkDir root (\<lambda>q r paths. ret (source_visit root q r paths)) []) (\<lambda>e. ret (Inl e)) (\<lambda>paths.
     attempt (source_entries root (sort paths) [] 0 0) (\<lambda>e. ret (Inl e)) (\<lambda>(h, count, sz). do {
     e \<leftarrow> env_get (\<lambda>e. e);
     ret (Inr (hashBytes e h, count, sz)) }))"

fun join_nul :: "string list \<Rightarrow> string" where
  "join_nul [] = []"
| "join_nul [x] = x"
| "join_nul (x # y # ys) = x @ CHR 0x00 # join_nul (y # ys)"

definition ComputeSourceSnapshotWithLocalPackages ::
  "string \<Rightarrow> string \<Rightarrow> ('z world_scheme, err + SourceSnapshot) state"
where
  "ComputeSourceSnapshotWithLocalPackages projectPath localPackagesDigest =
     attempt (source_digestTree (Join [projectPath, ''Assets'']))
       (\<lambda>e. ret (Inl (Wrapped ''snapshot Assets'' e))) (\<lambda>(assets, ac, ab).
     attempt (source_digestTree (Join [projectPath, ''Packages'']))
       (\<lambda>e. ret (Inl (Wrapped ''snapshot Packages'' e))) (\<lambda>(packages, pc, pb).
     attempt (source_digestTree (Join [projectPath, ''ProjectSettings'']))
       (\<lambda>e. ret (Inl (Wrapped ''snapshot ProjectSettings'' e))) (\<lambda>(settings, sc, sb). do {
     e \<leftarrow> env_get (\<lambda>e. e);
     ret (Inr
       \<lparr>ss_Digest = hashBytes e (join_nul ([assets, packages, settings] @
            (if localPackagesDigest \<noteq> '''' then [localPackagesDigest] else []))),
        ss_AssetsDigest = assets, ss_PackagesDigest = packages, ss_SettingsDigest = settings,
        ss_FileCount = ac + pc + sc, ss_LogicalBytes = ab + pb + sb,
        ss_LocalPackagesDigest = localPackagesDigest\<rparr>) })))"

definition ComputeSourceSnapshot :: "string \<Rightarrow> ('z world_scheme, err + SourceSnapshot) state" where
  "ComputeSourceSnapshot projectPath = ComputeSourceSnapshotWithLocalPackages projectPath ''''"

section \<open>The key of a library image\<close>

text \<open>\<open>filepath.Abs\<close> and \<open>filepath.EvalSymlinks\<close>, which gives up after 255 links.\<close>

definition path_Abs :: "string \<Rightarrow> string \<Rightarrow> string" where
  "path_Abs cwd path = (if IsAbs path then Clean path else Join [cwd, path])"

fun eval_links :: "nat \<Rightarrow> cpath \<Rightarrow> string list \<Rightarrow> ('z world_scheme, err + cpath) state" where
  "eval_links n dest [] = ret (Inr dest)"
| "eval_links n dest (x # xs) =
     (if x = '''' \<or> x = ''.'' then eval_links n dest xs
      else if x = ''..'' then eval_links n (butlast dest) xs
      else attempt (query (fs_lstat (dest @ [x]))) (\<lambda>e. ret (Inl e)) (\<lambda>info.
        case n_kind info of
          KLink t \<Rightarrow> (case n of
              0 \<Rightarrow> ret (Inl (Text ''EvalSymlinks: too many links''))
            | Suc n \<Rightarrow> eval_links n (if IsAbs t then [] else dest) (split_slash t @ xs))
        | _ \<Rightarrow> if \<not> is_dir info \<and> xs \<noteq> [] then ret (Inl ENOTDIR) else eval_links n (dest @ [x]) xs))"

definition canonicalProjectIdentity :: "string \<Rightarrow> string \<Rightarrow> ('z world_scheme, string) state" where
  "canonicalProjectIdentity cwd projectPath = do {
     let abs = path_Abs cwd projectPath;
     resolved \<leftarrow> eval_links 255 [] (split_slash abs);
     ret (Clean (case resolved of Inr cs \<Rightarrow> render True cs | Inl _ \<Rightarrow> abs)) }"

definition scriptingBackend :: "string \<Rightarrow> ('z world_scheme, string) state" where
  "scriptingBackend projectPath =
     attempt (os_ReadFile (Join [projectPath, ''ProjectSettings'', ''ProjectSettings.asset'']))
       (\<lambda>_. ret ''covered-by-project-settings-hash'')
       (\<lambda>c. ret (case find (\<lambda>line. HasPrefix (TrimSpace line) ''scriptingBackend:'') (text_lines (bytes c)) of
            Some line \<Rightarrow> TrimSpace line
          | None \<Rightarrow> ''covered-by-project-settings-hash''))"

definition library_visit ::
  "string \<Rightarrow> cpath \<Rightarrow> err + node \<Rightarrow> string list \<Rightarrow> err + string list"
where
  "library_visit root q r paths = (case r of
       Inl e \<Rightarrow> Inl e
     | Inr entry \<Rightarrow>
         if q = comps root then Inr paths
         else (case relative_to root q of
             None \<Rightarrow> Inl (Text ''relative path'') | Some rel \<Rightarrow> Inr (paths @ [rel])))"

fun library_entries ::
  "string \<Rightarrow> string list \<Rightarrow> string \<Rightarrow> i64 \<Rightarrow> i64 \<Rightarrow> ('z world_scheme, err + string \<times> i64 \<times> i64) state"
where
  "library_entries root [] h count sz = ret (Inr (h, count, sz))"
| "library_entries root (rel # rels) h count sz =
     (let path = Join [root, rel] in
      attempt (os_Lstat path) (\<lambda>e. ret (Inl e)) (\<lambda>info.
        let h = h @ rel @ [CHR 0x00] @ mode_string info @ [CHR 0x00] in
        if is_link info then
          attempt (os_Readlink path) (\<lambda>e. ret (Inl e)) (\<lambda>target.
            library_entries root rels (h @ target) count sz)
        else if is_regular info then
          attempt (os_Stat path) (\<lambda>e. ret (Inl e)) (\<lambda>_.
          attempt (os_ReadFile path) (\<lambda>e. ignore file_close (ret (Inl e))) (\<lambda>c.
          check file_close (\<lambda>e. ret (Inl e))
            (library_entries root rels (h @ bytes c) (count + 1) (sz + node_size info))))
        else library_entries root rels h count sz))"

definition hashTree :: "string \<Rightarrow> ('z world_scheme, err + string \<times> i64 \<times> i64) state" where
  "hashTree root =
     attempt (WalkDir root (\<lambda>q r paths. ret (library_visit root q r paths)) []) (\<lambda>e. ret (Inl e)) (\<lambda>paths.
     attempt (library_entries root (sort paths) [] 0 0) (\<lambda>e. ret (Inl e)) (\<lambda>(h, count, sz). do {
     e \<leftarrow> env_get (\<lambda>e. e);
     ret (Inr (hashBytes e h, count, sz)) }))"

definition LibrarySchemaVersion :: string where "LibrarySchemaVersion = ''1''"

text \<open>The payload is the key without its digest.\<close>

definition enc_payload :: "LibraryKey \<Rightarrow> json" where
  "enc_payload k = JObj
     [(''schemaVersion'', JStr (lk_SchemaVersion k)),
      (''unityVersion'', JStr (lk_UnityVersion k)),
      (''unityExecutableSha256'', JStr (lk_UnityExecutableSHA256 k)),
      (''manifestSha256'', JStr (lk_ManifestSHA256 k)),
      (''packagesLockSha256'', JStr (lk_PackagesLockSHA256 k)),
      (''projectSettingsSha256'', JStr (lk_ProjectSettingsSHA256 k)),
      (''buildTarget'', JStr (lk_BuildTarget k)),
      (''scriptingBackend'', JStr (lk_ScriptingBackend k)),
      (''projectIdentitySha256'', JStr (lk_ProjectIdentitySHA256 k))]"

text \<open>The digest of the lock file, when there is one.\<close>

definition lock_digest :: "string \<Rightarrow> ('z world_scheme, err + string) state" where
  "lock_digest lockPath = do {
     r \<leftarrow> os_Stat lockPath;
     (case r of
        Inr _ \<Rightarrow> attempt (hashFile lockPath)
          (\<lambda>e. ret (Inl (Wrapped ''library image key: read packages-lock.json'' e))) (\<lambda>d. ret (Inr d))
      | Inl e \<Rightarrow> ret (if IsNotExist e then Inr ''missing''
          else Inl (Wrapped ''library image key: stat packages-lock.json'' e))) }"

definition ComputeKey ::
  "string \<Rightarrow> string \<Rightarrow> string \<Rightarrow> string \<Rightarrow> string \<Rightarrow> ('z world_scheme, err + LibraryKey) state"
where
  "ComputeKey cwd goos goarch projectPath unityPath = do {
     projectIdentity \<leftarrow> canonicalProjectIdentity cwd projectPath;
     attempt (os_ReadFile (Join [projectPath, ''ProjectSettings'', ''ProjectVersion.txt'']))
       (\<lambda>e. ret (Inl (Wrapped ''library image key: read ProjectVersion.txt'' e))) (\<lambda>versionData.
     attempt (hashFile (Join [projectPath, ''Packages'', ''manifest.json'']))
       (\<lambda>e. ret (Inl (Wrapped ''library image key: read manifest.json'' e))) (\<lambda>manifestDigest.
     attempt (lock_digest (Join [projectPath, ''Packages'', ''packages-lock.json'']))
       (\<lambda>e. ret (Inl e)) (\<lambda>lockDigest.
     attempt (hashTree (Join [projectPath, ''ProjectSettings'']))
       (\<lambda>e. ret (Inl (Wrapped ''library image key: hash ProjectSettings'' e))) (\<lambda>(settingsDigest, _, _). do {
     backend \<leftarrow> scriptingBackend projectPath;
     e \<leftarrow> env_get (\<lambda>e. e);
     let payload = \<lparr>lk_SchemaVersion = LibrarySchemaVersion, lk_Digest = '''',
       lk_UnityVersion = parseUnityVersion (bytes versionData),
       lk_UnityExecutableSHA256 = hashBytes e (Clean unityPath), lk_ManifestSHA256 = manifestDigest,
       lk_PackagesLockSHA256 = lockDigest, lk_ProjectSettingsSHA256 = settingsDigest,
       lk_BuildTarget = goos @ ''/'' @ goarch, lk_ScriptingBackend = backend,
       lk_ProjectIdentitySHA256 = hashBytes e projectIdentity\<rparr>;
     ret (Inr (payload\<lparr>lk_Digest := hashBytes e (e_marshal e False (enc_payload payload))\<rparr>)) })))) }"

section \<open>The compatibility key\<close>

definition DefaultVirtualBytes :: i64 where "DefaultVirtualBytes = 68719476736"
definition DefaultBlockBytes :: i64 where "DefaultBlockBytes = 2097152"
definition DefaultSectorBytes :: i64 where "DefaultSectorBytes = 4096"

definition ComputeCompatibilityKeyWithLocalPackages ::
  "string \<Rightarrow> string \<Rightarrow> string \<Rightarrow> string \<Rightarrow> string \<Rightarrow> string \<Rightarrow>
   ('z world_scheme, err + CompatibilityKey) state"
where
  "ComputeCompatibilityKeyWithLocalPackages cwd goos goarch projectPath unityPath localPackagesDigest =
     attempt (ComputeKey cwd goos goarch projectPath unityPath) (\<lambda>e. ret (Inl e)) (\<lambda>base. do {
     e \<leftarrow> env_get (\<lambda>e. e);
     let key = \<lparr>ck_SchemaVersion = ParentSchemaVersion, ck_Digest = '''', ck_LibraryKey = base,
       ck_Provider = Provider, ck_Filesystem = ''NTFS'', ck_VirtualBytes = DefaultVirtualBytes,
       ck_BlockBytes = DefaultBlockBytes, ck_SectorBytes = DefaultSectorBytes,
       ck_LocalPackagesDigest = localPackagesDigest\<rparr>;
     ret (Inr (key\<lparr>ck_Digest := hashBytes e (e_marshal e False (enc_key key))\<rparr>)) })"

definition ComputeCompatibilityKey ::
  "string \<Rightarrow> string \<Rightarrow> string \<Rightarrow> string \<Rightarrow> string \<Rightarrow> ('z world_scheme, err + CompatibilityKey) state"
where
  "ComputeCompatibilityKey cwd goos goarch projectPath unityPath =
     ComputeCompatibilityKeyWithLocalPackages cwd goos goarch projectPath unityPath ''''"

section \<open>Walks whose callback is pure\<close>

fun walk_fold :: "(cpath \<Rightarrow> err + node \<Rightarrow> 'a \<Rightarrow> err + 'a) \<Rightarrow> fsys \<Rightarrow> cpath list \<Rightarrow> 'a \<Rightarrow> err + 'a" where
  "walk_fold cb f [] acc = Inr acc"
| "walk_fold cb f (q # qs) acc = (case cb q (fs_lstat q f) acc of
     Inl e \<Rightarrow> Inl e | Inr acc \<Rightarrow> walk_fold cb f qs acc)"

text \<open>What an unsuccessful read leaves, and what a successful one knows.\<close>

definition reads_as :: "'z world_scheme \<Rightarrow> ('a \<Rightarrow> bool) \<Rightarrow> err + 'a \<Rightarrow> 'z world_scheme \<Rightarrow> bool" where
  "reads_as w Q r v \<longleftrightarrow> w_fs v = w_fs w \<and> w_env v = w_env w \<and> (\<forall>x. r = Inr x \<longrightarrow> Q x)"

lemma reads_as_simps [simp]:
  "reads_as w Q (Inl e) v \<longleftrightarrow> w_fs v = w_fs w \<and> w_env v = w_env w"
  "reads_as w Q (Inr x) v \<longleftrightarrow> w_fs v = w_fs w \<and> w_env v = w_env w \<and> Q x"
  by (auto simp: reads_as_def)

lemma reads_as_mono:
  "reads_as u P r v \<Longrightarrow> w_fs u = w_fs w \<Longrightarrow> w_env u = w_env w \<Longrightarrow> (\<And>x. r = Inr x \<Longrightarrow> P x \<Longrightarrow> Q x) \<Longrightarrow> reads_as w Q r v"
  by (auto simp: reads_as_def)

lemma walk_list_fold:
  fixes acc :: 'a
  assumes strict: "\<And>q e a. \<exists>e'. cb q (Inl e) a = Inl e'"
  shows "wp (walk_list (\<lambda>q r a. ret (cb q r a)) acc qs)
     (reads_as w (\<lambda>x. walk_fold cb (w_fs w) qs acc = Inr x)) w"
proof (induction qs arbitrary: acc w)
  case (Cons q qs)
  have "wp (attempt (ret (cb q r acc)) (\<lambda>e. ret (Inl e)) (\<lambda>a. walk_list (\<lambda>q r a. ret (cb q r a)) a qs))
     (reads_as w (\<lambda>x. walk_fold cb (w_fs w) (q # qs) acc = Inr x)) (tick w)"
    if "r = Inl EIO \<or> r = fs_lstat q (w_fs w)" for r
    using that strict [of q EIO acc]
    by (cases "cb q r acc") (auto simp: wp_simps intro!: wp_mono [OF Cons.IH] elim!: reads_as_mono)
  then show ?case by (auto simp: wp_simps)
qed (simp add: wp_simps)

lemma WalkDir_fold:
  assumes strict: "\<And>q e a. \<exists>e'. cb q (Inl e) a = Inl e'"
  shows "wp (WalkDir root (\<lambda>q r a. ret (cb q r a)) acc)
     (reads_as w (\<lambda>x. walk_fold cb (w_fs w) (below (comps root) (w_fs w)) acc = Inr x)) w"
proof -
  have "wp (case r of Inl e \<Rightarrow> ret (cb (comps root) (Inl e) acc)
      | Inr n \<Rightarrow> do { qs \<leftarrow> gets (\<lambda>w. below (comps root) (w_fs w)); walk_list (\<lambda>q r a. ret (cb q r a)) acc qs })
     (reads_as w (\<lambda>x. walk_fold cb (w_fs w) (below (comps root) (w_fs w)) acc = Inr x)) (tick w)" for r
  proof (cases r)
    case (Inl e)
    moreover obtain e' where "cb (comps root) (Inl e) acc = Inl e'" using strict by blast
    ultimately show ?thesis by (simp add: wp_simps)
  qed (auto simp: wp_simps intro!: wp_mono [OF walk_list_fold [where cb = cb, OF strict]] elim!: reads_as_mono)
  note rest = this
  show ?thesis
    unfolding WalkDir_def
  proof (rule wp_bindI [where P = "\<lambda>_ v. v = tick w"])
    show "wp (os_Lstat root) (\<lambda>_ v. v = tick w) w" by (simp add: os_Lstat_def wp_simps)
  qed (simp only: rest)
qed

section \<open>What the digest of a source tree is a function of\<close>

text \<open>The files below a root with their bytes, in the order in which they are hashed.\<close>

definition source_names :: "string \<Rightarrow> fsys \<Rightarrow> cpath list \<Rightarrow> string list" where
  "source_names root f qs = map (\<lambda>q. the (relative_to root q))
     (filter (\<lambda>q. q \<noteq> comps root \<and> (case lookup f q of Some n \<Rightarrow> \<not> is_dir n | None \<Rightarrow> False)) qs)"

definition bytes_at :: "fsys \<Rightarrow> string \<Rightarrow> string" where
  "bytes_at f p = (case fs_read (comps p) f of Inr c \<Rightarrow> bytes c | Inl _ \<Rightarrow> [])"

definition source_files :: "string \<Rightarrow> fsys \<Rightarrow> (string \<times> string) list" where
  "source_files root f = map (\<lambda>rel. (rel, bytes_at f (Join [root, rel])))
     (sort (source_names root f (below (comps root) f)))"

definition source_stream :: "(string \<times> string) list \<Rightarrow> string" where
  "source_stream xs = concat (map (\<lambda>(rel, b). rel @ [CHR 0x00] @ b) xs)"

lemma source_visit_strict: "\<exists>e'. source_visit root q (Inl e) a = Inl e'"
  by (simp add: source_visit_def)

lemma source_names_Cons: "source_names root f (q # qs) = source_names root f [q] @ source_names root f qs"
  by (simp add: source_names_def)

lemma source_visit_name:
  "source_visit root q (fs_lstat q f) acc = Inr x \<Longrightarrow> x = acc @ source_names root f [q]"
  by (auto simp: source_visit_def source_names_def fs_lstat_def split: option.splits if_splits)

lemma source_fold:
  "walk_fold (source_visit root) f qs acc = Inr x \<Longrightarrow> x = acc @ source_names root f qs"
proof (induction qs arbitrary: acc)
  case (Cons q qs)
  then obtain a where a: "source_visit root q (fs_lstat q f) acc = Inr a"
      "walk_fold (source_visit root) f qs a = Inr x"
    by (auto split: sum.splits)
  from Cons.IH [OF a(2)] source_visit_name [OF a(1)] show ?case by (simp add: source_names_Cons [of _ _ q qs])
qed (simp add: source_names_def)

lemma reads_simps: "reads_as w Q r (tick v) = reads_as w Q r v" "reads_as (tick w) Q r v = reads_as w Q r v"
  by (simp_all add: reads_as_def)

lemma source_entries_spec:
  "wp (source_entries root rels h count sz) (reads_as w (\<lambda>(h', count', sz').
     h' = h @ source_stream (map (\<lambda>rel. (rel, bytes_at (w_fs w) (Join [root, rel]))) rels) \<and>
     count' = count + of_nat (length rels))) w"
proof (induction rels arbitrary: h count sz w)
  case Nil
  show ?case by (simp add: wp_simps source_stream_def)
next
  case (Cons rel rels)
  let ?c = "bytes_at (w_fs w) (Join [root, rel])"
  have "wp (source_entries root rels (h @ rel @ [CHR 0x00] @ ?c) (count + 1) n)
     (reads_as w (\<lambda>(h', count', sz').
       h' = h @ source_stream (map (\<lambda>rel. (rel, bytes_at (w_fs w) (Join [root, rel]))) (rel # rels)) \<and>
       count' = count + of_nat (length (rel # rels)))) v"
    if "w_fs v = w_fs w" "w_env v = w_env w" for n v
    using that
    by (intro wp_mono [OF Cons.IH]) (auto simp: source_stream_def algebra_simps elim!: reads_as_mono)
  then show ?case
    by (auto simp: Let_def wp_simps call_defs bytes_at_def split: sum.splits)
qed

lemma source_digestTree_spec:
  "wp (source_digestTree root) (reads_as w (\<lambda>(d, count, sz).
     d = hashBytes (w_env w) (source_stream (source_files root (w_fs w))) \<and>
     count = of_nat (length (source_files root (w_fs w))))) w"
  unfolding source_digestTree_def
proof (rule wp_attemptI [OF WalkDir_fold [where cb = "source_visit root", OF source_visit_strict]])
  fix paths v
  assume p: "reads_as w (\<lambda>x. walk_fold (source_visit root) (w_fs w) (below (comps root) (w_fs w)) [] = Inr x)
     (Inr paths) v"
  then have s: "paths = source_names root (w_fs w) (below (comps root) (w_fs w))"
    by (auto dest: source_fold)
  show "wp (attempt (source_entries root (sort paths) [] 0 0) (\<lambda>e. ret (Inl e)) (\<lambda>(h, count, sz). do {
       e \<leftarrow> env_get (\<lambda>e. e); ret (Inr (hashBytes e h, count, sz)) }))
     (reads_as w (\<lambda>(d, count, sz). d = hashBytes (w_env w) (source_stream (source_files root (w_fs w))) \<and>
       count = of_nat (length (source_files root (w_fs w))))) v"
    using p by (intro wp_attemptI [OF source_entries_spec])
      (auto simp: wp_simps env_get_def s source_files_def)
qed (simp add: wp_simps reads_as_def)

text \<open>
  The stream has no lengths: a file whose bytes look like the next name and its bytes hashes like two
  files.
\<close>

lemma source_stream_ambiguous:
  "source_stream [(a, x @ b @ [CHR 0x00] @ y)] = source_stream [(a, x), (b, y)]"
  by (simp add: source_stream_def)

lemma source_digest_collision:
  assumes "source_files root (w_fs w) = [(a, x @ b @ [CHR 0x00] @ y)]"
    and "source_files root (w_fs w') = [(a, x), (b, y)]" and "w_env w' = w_env w"
  shows "wp (source_digestTree root) (\<lambda>r _. wp (source_digestTree root) (\<lambda>r' _.
     \<forall>d c s d' c' s'. r = Inr (d, c, s) \<longrightarrow> r' = Inr (d', c', s') \<longrightarrow> d = d') w') w"
proof (rule wp_mono [OF source_digestTree_spec [where w = w]])
  fix r v
  assume r: "reads_as w (\<lambda>(d, count, sz). d = hashBytes (w_env w) (source_stream (source_files root (w_fs w))) \<and>
     count = of_nat (length (source_files root (w_fs w)))) r v"
  show "wp (source_digestTree root) (\<lambda>r' _.
     \<forall>d c s d' c' s'. r = Inr (d, c, s) \<longrightarrow> r' = Inr (d', c', s') \<longrightarrow> d = d') w'"
    by (rule wp_mono [OF source_digestTree_spec [where w = w']])
      (use r source_stream_ambiguous [of a x b y] assms in auto)
qed

section \<open>Snapshots\<close>

lemma split_on_nonempty: "split_on c s \<noteq> []"
  by (induction s) (auto split: list.splits)

lemma split_on_free: "c \<notin> set s \<Longrightarrow> split_on c s = [s]"
  by (induction s) auto

lemma split_on_append: "c \<notin> set s \<Longrightarrow> split_on c (s @ c # t) = s # split_on c t"
  by (induction s) (auto split: list.splits)

lemma split_join_nul:
  "xs \<noteq> [] \<Longrightarrow> list_all (\<lambda>x. CHR 0x00 \<notin> set x) xs \<Longrightarrow> split_on (CHR 0x00) (join_nul xs) = xs"
  by (induction xs rule: join_nul.induct) (simp_all add: split_on_free split_on_append)

lemma hashBytes_no_nul: "CHR 0x00 \<notin> set (hashBytes e x)"
proof -
  have "\<not> hex_char (CHR 0x00)" by (simp add: hex_char_def ascii_between_def)
  then show ?thesis
    using hex_encode_hex_chars [of "e_sha256 e x"] by (auto simp: hashBytes_def list_all_iff)
qed

definition snapshot_parts :: "SourceSnapshot \<Rightarrow> string list" where
  "snapshot_parts s = [ss_AssetsDigest s, ss_PackagesDigest s, ss_SettingsDigest s] @
     (if ss_LocalPackagesDigest s \<noteq> '''' then [ss_LocalPackagesDigest s] else [])"

definition digest_of_source :: "env \<Rightarrow> fsys \<Rightarrow> string \<Rightarrow> string" where
  "digest_of_source e f root = hashBytes e (source_stream (source_files root f))"

text \<open>What a computed snapshot says of the project.\<close>

definition snapshot_of :: "string \<Rightarrow> string \<Rightarrow> env \<Rightarrow> fsys \<Rightarrow> SourceSnapshot \<Rightarrow> bool" where
  "snapshot_of project local e f s \<longleftrightarrow>
     ss_AssetsDigest s = digest_of_source e f (Join [project, ''Assets'']) \<and>
     ss_PackagesDigest s = digest_of_source e f (Join [project, ''Packages'']) \<and>
     ss_SettingsDigest s = digest_of_source e f (Join [project, ''ProjectSettings'']) \<and>
     ss_LocalPackagesDigest s = local \<and> ss_Digest s = hashBytes e (join_nul (snapshot_parts s)) \<and>
     ss_FileCount s = (\<Sum>d \<leftarrow> [''Assets'', ''Packages'', ''ProjectSettings'']. 
        of_nat (length (source_files (Join [project, d]) f)))"

lemma source_digest_step:
  assumes v: "w_fs v = w_fs w" "w_env v = w_env w" and h: "\<And>e. \<exists>e'. h e = ret (Inl e')"
    and k: "\<And>c s u. w_fs u = w_fs w \<Longrightarrow> w_env u = w_env w \<Longrightarrow>
      c = of_nat (length (source_files root (w_fs w))) \<Longrightarrow>
      wp (k (digest_of_source (w_env w) (w_fs w) root, c, s)) (reads_as w Q) u"
  shows "wp (attempt (source_digestTree root) h k) (reads_as w Q) v"
proof (rule wp_attemptI [OF source_digestTree_spec])
  fix e u
  assume "reads_as v (\<lambda>(d, c :: i64, s :: i64). d = hashBytes (w_env v) (source_stream (source_files root (w_fs v))) \<and>
     c = of_nat (length (source_files root (w_fs v)))) (Inl e) u"
  moreover obtain e' where "h e = ret (Inl e')" using h by blast
  ultimately show "wp (h e) (reads_as w Q) u" using v by (simp add: wp_simps)
next
  fix x u
  assume "reads_as v (\<lambda>(d, c :: i64, s :: i64). d = hashBytes (w_env v) (source_stream (source_files root (w_fs v))) \<and>
     c = of_nat (length (source_files root (w_fs v)))) (Inr x) u"
  then show "wp (k x) (reads_as w Q) u"
    using v k [of u "fst (snd x)" "snd (snd x)"] by (auto simp: digest_of_source_def)
qed

lemma snapshot_spec:
  "wp (ComputeSourceSnapshotWithLocalPackages project local)
     (reads_as w (snapshot_of project local (w_env w) (w_fs w))) w"
  unfolding ComputeSourceSnapshotWithLocalPackages_def
  by (rule source_digest_step, simp, simp, blast, simp only: prod.case)+
    (auto simp: wp_simps env_get_def snapshot_of_def snapshot_parts_def)

lemma snapshot_determines:
  assumes "snapshot_of project local e f s" and "snapshot_of project' local' e f' s'"
    and "CHR 0x00 \<notin> set local" and "CHR 0x00 \<notin> set local'" and "ss_Digest s = ss_Digest s'"
    and "e_sha256 e (join_nul (snapshot_parts s)) = e_sha256 e (join_nul (snapshot_parts s')) \<Longrightarrow>
       join_nul (snapshot_parts s) = join_nul (snapshot_parts s')"
  shows "snapshot_parts s = snapshot_parts s'"
proof -
  from assms have "join_nul (snapshot_parts s) = join_nul (snapshot_parts s')"
    by (auto simp: snapshot_of_def hashBytes_def dest: hex_encode_inj)
  moreover have "list_all (\<lambda>x. CHR 0x00 \<notin> set x) (snapshot_parts s)"
      "list_all (\<lambda>x. CHR 0x00 \<notin> set x) (snapshot_parts s')"
    using assms by (auto simp: snapshot_parts_def snapshot_of_def digest_of_source_def hashBytes_no_nul)
  ultimately show ?thesis
    by (metis split_join_nul snapshot_parts_def append_is_Nil_conv list.distinct(1))
qed

section \<open>Programs that only read\<close>

text \<open>\<open>reading P m\<close>: \<open>m\<close> changes nothing, and a result has \<open>P\<close> of the file tree and the environment.\<close>

definition reading :: "(fsys \<Rightarrow> env \<Rightarrow> 'a \<Rightarrow> bool) \<Rightarrow> ('z world_scheme, err + 'a) state \<Rightarrow> bool" where
  "reading P m \<longleftrightarrow> (\<forall>w. wp m (reads_as w (P (w_fs w) (w_env w))) w)"

lemma readingI: "(\<And>w. wp m (reads_as w (P (w_fs w) (w_env w))) w) \<Longrightarrow> reading P m"
  by (simp add: reading_def)

lemma readingD: "reading P m \<Longrightarrow> wp m (reads_as w (P (w_fs w) (w_env w))) w"
  by (simp add: reading_def)

lemma reading_ret: "(\<And>f e. P f e x) \<Longrightarrow> reading P (ret (Inr x))" "reading P (ret (Inl e))"
  by (simp_all add: reading_def wp_simps)

lemma reading_at:
  assumes "reading P m" and "w_fs v = w_fs w" and "w_env v = w_env w"
    and "\<And>x. P (w_fs w) (w_env w) x \<Longrightarrow> Q x"
  shows "wp m (reads_as w Q) v"
  using readingD [OF assms(1), of v] assms(2-)
  by (auto simp: reads_as_def elim!: wp_mono)

lemma reading_mono: "reading P m \<Longrightarrow> (\<And>f e x. P f e x \<Longrightarrow> Q f e x) \<Longrightarrow> reading Q m"
  by (rule readingI, erule reading_at) auto

lemma reading_attempt:
  assumes m: "reading P m" and h: "\<And>e. reading Q (h e)" and k: "\<And>x. reading (\<lambda>f e y. P f e x \<longrightarrow> Q f e y) (k x)"
  shows "reading Q (attempt m h k)"
  by (rule readingI, rule wp_attemptI [OF readingD [OF m]])
    (auto intro!: reading_at [OF h] reading_at [OF k])

lemma reading_bind:
  assumes m: "keeps same m" and k: "\<And>x. reading Q (k x)"
  shows "reading Q (do { x \<leftarrow> m; k x })"
  by (rule readingI, rule wp_bindI [OF achieves_wp [OF m]]) (auto simp: same_def intro!: reading_at [OF k])

lemma reading_env:
  assumes "\<And>ev. reading (\<lambda>f e y. e = ev \<longrightarrow> Q f e y) (k ev)"
  shows "reading Q (do { ev \<leftarrow> env_get (\<lambda>e. e); k ev })"
  by (rule readingI) (auto simp: wp_simps env_get_def intro!: reading_at [OF assms])

lemma reading_check:
  assumes m: "keeps same m" and h: "\<And>e. reading Q (h e)" and k: "reading Q k"
  shows "reading Q (check m h k)"
  by (rule readingI, rule wp_checkI [OF achieves_wp [OF m]])
    (auto simp: same_def intro!: reading_at [OF h] reading_at [OF k])

lemma reading_ignore:
  assumes m: "keeps same m" and k: "reading Q k"
  shows "reading Q (ignore m k)"
  by (rule readingI, rule wp_ignoreI [OF achieves_wp [OF m]]) (auto simp: same_def intro!: reading_at [OF k])

lemma reading_if: "(b \<Longrightarrow> reading P m) \<Longrightarrow> (\<not> b \<Longrightarrow> reading P n) \<Longrightarrow> reading P (if b then m else n)"
  by simp

lemma reading_case_prod: "(\<And>a b. x = (a, b) \<Longrightarrow> reading P (k a b)) \<Longrightarrow> reading P (case x of (a, b) \<Rightarrow> k a b)"
  by (cases x) simp

lemmas reading_intros = reading_ret reading_attempt reading_env reading_if reading_case_prod

lemma reading_file: "reading (\<lambda>f e c. bytes c = bytes_at f path) (os_ReadFile path)"
  by (rule readingI) (auto simp: wp_simps call_defs bytes_at_def reads_as_def)

lemma reading_hashFile: "reading (\<lambda>f e d. d = hashBytes e (bytes_at f path)) (hashFile path)"
  unfolding hashFile_def by (rule reading_attempt [OF reading_file]) (auto intro!: reading_intros)

lemma reading_lstat: "reading (\<lambda>f e n. lookup f (comps path) = Some n) (os_Lstat path)"
  by (rule readingI) (auto simp: wp_simps call_defs fs_lstat_def split: option.splits)

lemma reading_link: "reading (\<lambda>f e t. fs_readlink (comps path) f = Inr t) (os_Readlink path)"
  by (rule readingI) (auto simp: wp_simps call_defs reads_as_def)

section \<open>The keys\<close>

text \<open>Everything below a root as \<open>hashTree\<close> writes it, in order.\<close>

definition library_item :: "string \<Rightarrow> fsys \<Rightarrow> string \<Rightarrow> string" where
  "library_item root f rel = (case lookup f (comps (Join [root, rel])) of
       Some n \<Rightarrow> rel @ [CHR 0x00] @ mode_string n @ [CHR 0x00] @
         (case n_kind n of KLink t \<Rightarrow> t | KFile c \<Rightarrow> bytes c | _ \<Rightarrow> [])
     | None \<Rightarrow> [])"

definition library_names :: "string \<Rightarrow> fsys \<Rightarrow> cpath list \<Rightarrow> string list" where
  "library_names root f qs =
     map (\<lambda>q. the (relative_to root q)) (filter (\<lambda>q. q \<noteq> comps root \<and> lookup f q \<noteq> None) qs)"

definition library_stream :: "string \<Rightarrow> fsys \<Rightarrow> string" where
  "library_stream root f =
     concat (map (library_item root f) (sort (library_names root f (below (comps root) f))))"

lemma library_visit_strict: "\<exists>e'. library_visit root q (Inl e) a = Inl e'"
  by (simp add: library_visit_def)

lemma library_names_Cons: "library_names root f (q # qs) = library_names root f [q] @ library_names root f qs"
  by (simp add: library_names_def)

lemma library_visit_name:
  "library_visit root q (fs_lstat q f) acc = Inr x \<Longrightarrow> x = acc @ library_names root f [q]"
  by (auto simp: library_visit_def library_names_def fs_lstat_def split: option.splits if_splits)

lemma library_fold:
  "walk_fold (library_visit root) f qs acc = Inr x \<Longrightarrow> x = acc @ library_names root f qs"
proof (induction qs arbitrary: acc)
  case (Cons q qs)
  then obtain a where a: "library_visit root q (fs_lstat q f) acc = Inr a"
      "walk_fold (library_visit root) f qs a = Inr x"
    by (auto split: sum.splits)
  from Cons.IH [OF a(2)] library_visit_name [OF a(1)] show ?case by (simp add: library_names_Cons [of _ _ q qs])
qed (simp add: library_names_def)

lemma reading_any: "keeps same m \<Longrightarrow> reading (\<lambda>f e x. True) m"
  by (rule readingI) (auto simp: reads_as_def same_def dest!: achieves_wp elim!: wp_mono)

lemma io_step_same: "keeps same io_step"
  by (rule achieves_if_wp) (simp add: io_step_def wp_simps same_def)

lemma library_item_at:
  assumes "lookup f (comps (Join [root, rel])) = Some n"
  shows "is_link n \<Longrightarrow> fs_readlink (comps (Join [root, rel])) f = Inr t \<Longrightarrow>
      library_item root f rel = (rel @ [CHR 0x00] @ mode_string n @ [CHR 0x00]) @ t"
    and "is_regular n \<Longrightarrow> b = bytes_at f (Join [root, rel]) \<Longrightarrow>
      library_item root f rel = (rel @ [CHR 0x00] @ mode_string n @ [CHR 0x00]) @ b"
    and "\<not> is_link n \<Longrightarrow> \<not> is_regular n \<Longrightarrow>
      library_item root f rel = rel @ [CHR 0x00] @ mode_string n @ [CHR 0x00]"
  using assms
  by (auto simp: library_item_def is_link_def is_regular_def fs_readlink_def bytes_at_def fs_read_def
      follow_def split: kind.splits)

lemma reading_library_entries:
  "reading (\<lambda>f e (h', count', sz'). h' = h @ concat (map (library_item root f) rels))
     (library_entries root rels h count sz :: ('z world_scheme, err + string \<times> i64 \<times> i64) state)"
proof (induction rels arbitrary: h count sz)
  case (Cons rel rels)
  let ?p = "Join [root, rel]"
  let ?Q = "\<lambda>f (e :: env) (h', count' :: i64, sz' :: i64). h' = h @ concat (map (library_item root f) (rel # rels))"
  have rest: "reading (\<lambda>f e x. A f e \<longrightarrow> ?Q f e x)
      (library_entries root rels g c t :: ('z world_scheme, err + string \<times> i64 \<times> i64) state)"
    if "\<And>f e. A f e \<Longrightarrow> g = h @ library_item root f rel" for A g c t
    using that by (intro reading_mono [OF Cons.IH]) auto
  show ?case
    unfolding library_entries.simps Let_def
  proof (rule reading_attempt [OF reading_lstat], rule reading_ret, intro reading_if)
    fix info
    let ?L = "\<lambda>f. lookup f (comps ?p) = Some info"
    assume "is_link info"
    then show "reading (\<lambda>f e y. ?L f \<longrightarrow> ?Q f e y) (attempt (os_Readlink ?p) (\<lambda>e. ret (Inl e)) (\<lambda>target.
        library_entries root rels ((h @ rel @ [CHR 0x00] @ mode_string info @ [CHR 0x00]) @ target) count sz)
        :: ('z world_scheme, err + string \<times> i64 \<times> i64) state)"
      by (intro reading_attempt [OF reading_link] reading_ret)
        (rule reading_mono [OF rest [where A = "\<lambda>f e. ?L f \<and> fs_readlink (comps ?p) f = Inr t" for t]],
          auto simp: library_item_at(1))
  next
    fix info
    let ?L = "\<lambda>f. lookup f (comps ?p) = Some info"
    assume "\<not> is_link info" "is_regular info"
    then show "reading (\<lambda>f e y. ?L f \<longrightarrow> ?Q f e y) (attempt (os_Stat ?p) (\<lambda>e. ret (Inl e)) (\<lambda>_.
        attempt (os_ReadFile ?p) (\<lambda>e. ignore file_close (ret (Inl e))) (\<lambda>c.
        check file_close (\<lambda>e. ret (Inl e)) (library_entries root rels
          ((h @ rel @ [CHR 0x00] @ mode_string info @ [CHR 0x00]) @ bytes c) (count + 1) (sz + node_size info))))
        :: ('z world_scheme, err + string \<times> i64 \<times> i64) state)"
      by (intro reading_attempt [OF reading_any [OF reads_same(2)]] reading_attempt [OF reading_file]
          reading_check [OF io_step_same] reading_ignore [OF io_step_same] reading_ret)
        (rule reading_mono [OF rest [where A = "\<lambda>f e. ?L f \<and> bytes c = bytes_at f ?p" for c]],
          auto simp: library_item_at(2))
  next
    fix info
    let ?L = "\<lambda>f. lookup f (comps ?p) = Some info"
    assume "\<not> is_link info" "\<not> is_regular info"
    then show "reading (\<lambda>f e y. ?L f \<longrightarrow> ?Q f e y) (library_entries root rels
        (h @ rel @ [CHR 0x00] @ mode_string info @ [CHR 0x00]) count sz
        :: ('z world_scheme, err + string \<times> i64 \<times> i64) state)"
      by (intro rest) (simp add: library_item_at(3))
  qed
qed (auto intro!: reading_intros)


lemma reading_walk:
  assumes "\<And>q e a. \<exists>e'. cb q (Inl e) a = Inl e'"
  shows "reading (\<lambda>f e x. walk_fold cb f (below (comps root) f) acc = Inr x)
     (WalkDir root (\<lambda>q r a. ret (cb q r a)) acc)"
  by (rule readingI) (rule WalkDir_fold [where cb = cb, OF assms])

lemma reading_hashTree:
  "reading (\<lambda>f e (d, c, s). d = hashBytes e (library_stream root f)) (hashTree root)"
  unfolding hashTree_def
  by (rule reading_attempt [OF reading_walk [where cb = "library_visit root", OF library_visit_strict]],
      rule reading_ret, rule reading_attempt [OF reading_library_entries], rule reading_ret,
      rule reading_case_prod, rule reading_case_prod, rule reading_env, rule reading_ret(1))
    (auto simp: library_stream_def dest!: library_fold)

lemma reading_lock:
  "reading (\<lambda>f e d. case fs_stat (comps path) f of Inr n \<Rightarrow> d = hashBytes e (bytes_at f path)
     | Inl _ \<Rightarrow> d = ''missing'') (lock_digest path)"
proof (rule readingI)
  fix w :: "'a world_scheme"
  let ?Q = "\<lambda>d. case fs_stat (comps path) (w_fs w) of Inr n \<Rightarrow> d = hashBytes (w_env w) (bytes_at (w_fs w) path)
     | Inl _ \<Rightarrow> d = ''missing''"
  show "wp (lock_digest path) (reads_as w ?Q) w"
    unfolding lock_digest_def
  proof (rule wp_bindI [OF os_read_specs(2)])
    fix r v
    assume v: "same w v \<and> (r = Inl EIO \<or> r = fs_stat (comps path) (w_fs w))"
    have k: "reading (\<lambda>f e d. d = hashBytes e (bytes_at f path))
        (attempt (hashFile path) (\<lambda>e. ret (Inl (Wrapped ''library image key: read packages-lock.json'' e)))
          (\<lambda>d. ret (Inr d)) :: ('a world_scheme, err + string) state)"
      by (rule reading_attempt [OF reading_hashFile]) (auto intro!: reading_ret)
    from v show "wp (case r of
          Inr _ \<Rightarrow> attempt (hashFile path) (\<lambda>e. ret (Inl (Wrapped ''library image key: read packages-lock.json'' e)))
            (\<lambda>d. ret (Inr d))
        | Inl e \<Rightarrow> ret (if IsNotExist e then Inr ''missing''
            else Inl (Wrapped ''library image key: stat packages-lock.json'' e))) (reads_as w ?Q) v"
      by (auto simp: wp_ret same_def IsNotExist_def intro!: reading_at [OF k] split: sum.split)
  qed
qed

text \<open>What a computed key says of the project.\<close>

definition library_key_of ::
  "string \<Rightarrow> string \<Rightarrow> string \<Rightarrow> string \<Rightarrow> fsys \<Rightarrow> env \<Rightarrow> LibraryKey \<Rightarrow> bool"
where
  "library_key_of goos goarch project unity f e k \<longleftrightarrow>
     lk_SchemaVersion k = LibrarySchemaVersion \<and>
     lk_UnityVersion k = parseUnityVersion (bytes_at f (Join [project, ''ProjectSettings'', ''ProjectVersion.txt''])) \<and>
     lk_UnityExecutableSHA256 k = hashBytes e (Clean unity) \<and>
     lk_ManifestSHA256 k = hashBytes e (bytes_at f (Join [project, ''Packages'', ''manifest.json''])) \<and>
     lk_PackagesLockSHA256 k =
       (let lock = Join [project, ''Packages'', ''packages-lock.json''] in
        case fs_stat (comps lock) f of Inr n \<Rightarrow> hashBytes e (bytes_at f lock) | Inl _ \<Rightarrow> ''missing'') \<and>
     lk_ProjectSettingsSHA256 k = hashBytes e (library_stream (Join [project, ''ProjectSettings'']) f) \<and>
     lk_BuildTarget k = goos @ ''/'' @ goarch \<and>
     lk_Digest k = hashBytes e (e_marshal e False (enc_payload k))"

lemma eval_links_step:
  fixes n :: nat and xs :: "string list"
  defines "here \<equiv> \<lambda>n d xs. keeps same (eval_links n d xs :: ('z world_scheme, err + cpath) state)"
  assumes "\<And>d. here n d xs" and "\<And>m d ys. n = Suc m \<Longrightarrow> here m d ys"
  shows "here n dest (x # xs)"
  using assms(2,3) unfolding here_def
  by (auto intro!: eff_intros split: kind.splits nat.splits)

lemma eval_links_same: "keeps same (eval_links n dest xs)"
proof (induction n arbitrary: dest xs rule: less_induct)
  case (less n)
  show ?case
  proof (induction xs arbitrary: dest)
    case (Cons x xs)
    show ?case by (rule eval_links_step) (auto intro: less.IH Cons.IH)
  qed (simp add: still.on_ret)
qed

lemma canonical_same: "keeps same (canonicalProjectIdentity cwd project)"
  unfolding canonicalProjectIdentity_def Let_def by (intro eff_intros eval_links_same TrueI)

lemma backend_same: "keeps same (scriptingBackend project)"
  unfolding scriptingBackend_def by (intro eff_intros TrueI)

lemma reading_ComputeKey:
  "reading (library_key_of goos goarch project unity) (ComputeKey cwd goos goarch project unity)"
  unfolding ComputeKey_def Let_def
  apply (rule reading_bind [OF canonical_same])
  apply (rule reading_attempt [OF reading_file], rule reading_ret)
  apply (rule reading_attempt [OF reading_hashFile], rule reading_ret)
  apply (rule reading_attempt [OF reading_lock], rule reading_ret)
  apply (rule reading_attempt [OF reading_hashTree], rule reading_ret)
  apply (rule reading_case_prod, rule reading_case_prod)
  apply (rule reading_bind [OF backend_same], rule reading_env, rule reading_ret(1))
  apply (auto simp: library_key_of_def enc_payload_def Let_def split: sum.splits)
  done

definition compatibility_key_of ::
  "string \<Rightarrow> string \<Rightarrow> string \<Rightarrow> string \<Rightarrow> string \<Rightarrow> fsys \<Rightarrow> env \<Rightarrow> CompatibilityKey \<Rightarrow> bool"
where
  "compatibility_key_of goos goarch project unity local f e k \<longleftrightarrow>
     ck_SchemaVersion k = ParentSchemaVersion \<and> ck_Provider k = Provider \<and> ck_Filesystem k = ''NTFS'' \<and>
     ck_VirtualBytes k = DefaultVirtualBytes \<and> ck_BlockBytes k = DefaultBlockBytes \<and>
     ck_SectorBytes k = DefaultSectorBytes \<and> ck_LocalPackagesDigest k = local \<and>
     library_key_of goos goarch project unity f e (ck_LibraryKey k) \<and>
     ck_Digest k = hashBytes e (e_marshal e False (enc_key (k\<lparr>ck_Digest := ''''\<rparr>)))"

lemma reading_CompatibilityKey:
  "reading (compatibility_key_of goos goarch project unity local)
     (ComputeCompatibilityKeyWithLocalPackages cwd goos goarch project unity local)"
  unfolding ComputeCompatibilityKeyWithLocalPackages_def Let_def
  by (rule reading_attempt [OF reading_ComputeKey], rule reading_ret, rule reading_env, rule reading_ret(1))
    (auto simp: compatibility_key_of_def)

section \<open>A key determines the project\<close>

lemma computed_key_accepted:
  assumes "compatibility_key_of goos goarch project unity local f e k" and "\<And>x. length (e_sha256 e x) = 32"
  shows "ck_SchemaVersion k = ParentSchemaVersion \<and> compatibility (ck_Digest k)"
  using assms hex_encode_hex_chars
  by (simp add: compatibility_key_of_def compatibility_def hashBytes_def)

lemma enc_key_inj:
  assumes "enc_key k = enc_key k'" and "go_int (ck_SchemaVersion k)" and "go_int (ck_SchemaVersion k')"
  shows "k = k'"
proof -
  have "set_rec key_keys key_put id (\<lambda>g. g) (enc_key x) zero_key = Some x" if "go_int (ck_SchemaVersion x)" for x
    using set_rec_key [of id zero_key x "\<lambda>g. g"] that by simp
  with assms show ?thesis by (metis option.inject)
qed

definition key_text :: "env \<Rightarrow> CompatibilityKey \<Rightarrow> string" where
  "key_text e k = e_marshal e False (enc_key (k\<lparr>ck_Digest := ''''\<rparr>))"

lemma key_determines:
  assumes k: "compatibility_key_of goos goarch project unity local f e k"
      "compatibility_key_of goos' goarch' project' unity' local' f' e k'"
    and same: "ck_Digest k = ck_Digest k'"
    and hash: "e_sha256 e (key_text e k) = e_sha256 e (key_text e k') \<Longrightarrow> key_text e k = key_text e k'"
    and marshal: "key_text e k = key_text e k' \<Longrightarrow>
      enc_key (k\<lparr>ck_Digest := ''''\<rparr>) = enc_key (k'\<lparr>ck_Digest := ''''\<rparr>)"
  shows "k = k'"
proof -
  have "e_sha256 e (key_text e k) = e_sha256 e (key_text e k')"
    using k same by (auto simp: compatibility_key_of_def hashBytes_def key_text_def dest: hex_encode_inj)
  then have "enc_key (k\<lparr>ck_Digest := ''''\<rparr>) = enc_key (k'\<lparr>ck_Digest := ''''\<rparr>)"
    using hash marshal by blast
  then have "k\<lparr>ck_Digest := ''''\<rparr> = k'\<lparr>ck_Digest := ''''\<rparr>"
    using k by (intro enc_key_inj) (simp_all add: compatibility_key_of_def ParentSchemaVersion_def go_int_def)
  then have "k\<lparr>ck_Digest := '''', ck_Digest := ck_Digest k\<rparr> = k'\<lparr>ck_Digest := '''', ck_Digest := ck_Digest k'\<rparr>"
    using same by metis
  then show ?thesis by simp
qed

end
