(* ===== verification/Clone_Tree.thy ===== *)
theory Clone_Tree
  imports Tree_Measure
begin

text \<open>
  The copy-on-write clone of a directory tree: on Linux through \<open>cp --reflink=always\<close>
  (\<open>storage/clone_command_unix.go\<close>; the command itself is a parameter), on Darwin file by file
  with \<open>clonefileat\<close> (\<open>storage/daemon_clone_darwin.go\<close>). What the backend relies on is stated as
  the locale \<open>cloner\<close>: a clone writes below its destination only.
\<close>

section \<open>Linux\<close>

datatype cloneErrorKind = cloneErrorUnavailable | cloneErrorCancelled | cloneErrorFailed

definition classifyLinuxCloneError :: "bool \<Rightarrow> string \<Rightarrow> err \<Rightarrow> cloneErrorKind" where
  "classifyLinuxCloneError cancelled detail runErr =
     (if cancelled \<or> err_is runErr Cancelled then cloneErrorCancelled
      else let lowerDetail = ToLower detail in
        if list_ex (Contains lowerDetail) [''invalid cross-device link'', ''cross-device link'']
        then cloneErrorUnavailable
        else let cloneDiagnostic =
               Contains lowerDetail ''failed to clone'' \<or> Contains lowerDetail ''reflink'' in
          if cloneDiagnostic \<and> (Contains lowerDetail ''operation not supported'' \<or>
               Contains lowerDetail ''function not implemented'')
          then cloneErrorUnavailable else cloneErrorFailed)"

definition cLocaleEnvironment :: "string list \<Rightarrow> string list" where
  "cLocaleEnvironment base =
     filter (\<lambda>value. \<not> (HasPrefix value ''LC_ALL='' \<or> HasPrefix value ''LANG='')) base
       @ [''LC_ALL=C'', ''LANG=C'']"

text \<open>
  \<open>cloneCommandRunner\<close> is an interface: \<open>lookPath\<close> and \<open>run\<close> are its methods, \<open>environ\<close> the
  process environment, \<open>text_of\<close> the text of an error.
\<close>

definition cp_args :: "string \<Rightarrow> string \<Rightarrow> string list" where
  "cp_args source destination =
     [''--archive'', ''--no-preserve=ownership'', ''--reflink=always'', ''--no-target-directory'',
      ''--'', source, destination]"

definition cloneTreeWithRunner ::
  "(string \<Rightarrow> ('z world_scheme, err + string) state) \<Rightarrow>
   (string \<Rightarrow> string list \<Rightarrow> string list \<Rightarrow> ('z world_scheme, string \<times> err option) state) \<Rightarrow>
   string list \<Rightarrow> (err \<Rightarrow> string) \<Rightarrow> string \<Rightarrow> string \<Rightarrow> ('z world_scheme, err option) state"
where
  "cloneTreeWithRunner lookPath run environ text_of source destination =
     attempt (lookPath ''cp'')
       (\<lambda>e. ret (Some (Wrapped ''GNU cp was not found'' ErrCoWUnavailable)))
       (\<lambda>path. do {
         (out, runErr) \<leftarrow> run path (cp_args source destination) (cLocaleEnvironment environ);
         (case runErr of
            None \<Rightarrow> ret None
          | Some e \<Rightarrow> do {
              ctxErr \<leftarrow> ctx_Err;
              let detail = TrimSpace out;
              let detail = (if detail = '''' then text_of e else detail);
              ret (case classifyLinuxCloneError (ctxErr \<noteq> None) detail e of
                  cloneErrorUnavailable \<Rightarrow> Some (Wrapped detail ErrCoWUnavailable)
                | cloneErrorCancelled \<Rightarrow> Some (case ctxErr of Some c \<Rightarrow> c | None \<Rightarrow> e)
                | cloneErrorFailed \<Rightarrow> Some (Wrapped detail e)) }) })"

section \<open>Darwin\<close>

text \<open>\<open>clonefileat\<close> with \<open>CLONE_NOFOLLOW\<close> on a file: a new node with the same content and mode.\<close>

definition fs_clonefile ::
  "bool \<Rightarrow> cpath \<Rightarrow> cpath \<Rightarrow> 64 word \<Rightarrow> fsys \<Rightarrow> err + fsys"
where
  "fs_clonefile cow src dst i f = (case lookup f src of
       None \<Rightarrow> Inl ENOENT
     | Some n \<Rightarrow> if \<not> cow then Inl ENOTSUP
         else if is_dir n \<or> n_kind n = KSpecial then Inl EINVAL
         else fs_create (n_kind n) (n_perm n) i dst f)"

definition cloneRegularFileForDaemon ::
  "string \<Rightarrow> string \<Rightarrow> ('z world_scheme, err option) state"
where
  "cloneRegularFileForDaemon source destination = do {
     cow \<leftarrow> env_get e_cow;
     check (update (\<lambda>i. fs_clonefile cow (comps source) (comps destination) i))
       (\<lambda>e. ret (Some (if e = ENOTSUP \<or> e = EINVAL then Wrapped ''clonefileat'' ErrCoWUnavailable
                       else Wrapped ''clonefileat'' e)))
       (ret None) }"

definition clone_visit ::
  "string \<Rightarrow> string \<Rightarrow> cpath \<Rightarrow> err + node \<Rightarrow> string list \<Rightarrow>
   ('z world_scheme, err + string list) state"
where
  "clone_visit source destination q r directories = (case r of
       Inl e \<Rightarrow> ret (Inl e)
     | Inr info \<Rightarrow> check ctx_Err (\<lambda>e. ret (Inl e))
         (case relative_to source q of
            None \<Rightarrow> ret (Inl (Text ''relative path''))
          | Some relative \<Rightarrow>
              let target = (if relative \<noteq> ''.'' then Join [destination, relative] else destination) in
              if is_dir info then
                check (os_Mkdir target (node_mode info OR 448)) (\<lambda>e. ret (Inl e))
                  (ret (Inr (directories @ [target])))
              else check (cloneRegularFileForDaemon (render True q) target) (\<lambda>e. ret (Inl e))
                  (ret (Inr directories))))"

text \<open>The second loop: modes and times of the directories, deepest first.\<close>

fun restore_modes ::
  "string \<Rightarrow> string \<Rightarrow> string list \<Rightarrow> ('z world_scheme, err option) state"
where
  "restore_modes source destination [] = ret None"
| "restore_modes source destination (d # ds) =
     (let sourcePath = (if d \<noteq> destination then
            (case Rel destination d of
               None \<Rightarrow> None | Some relative \<Rightarrow> Some (Join [source, relative]))
          else Some source) in
      case sourcePath of
        None \<Rightarrow> ret (Some (Text ''relative path''))
      | Some p \<Rightarrow> attempt (os_Stat p) (\<lambda>e. ret (Some e)) (\<lambda>info.
          check (os_Chmod d (node_mode info)) (\<lambda>e. ret (Some e))
            (check io_step (\<lambda>e. ret (Some e)) (restore_modes source destination ds))))"

definition cloneTreeForDaemon :: "string \<Rightarrow> string \<Rightarrow> ('z world_scheme, err option) state" where
  "cloneTreeForDaemon source destination =
     attempt (WalkDir source (clone_visit source destination) [])
       (\<lambda>e. ret (Some e))
       (\<lambda>directories. restore_modes source destination (rev directories))"

section \<open>What a clone may write\<close>

locale cloner =
  fixes clone :: "string \<Rightarrow> string \<Rightarrow> ('z world_scheme, err option) state"
  assumes clone_frame: "IsAbs src \<Longrightarrow> IsAbs dst \<Longrightarrow> keeps (writes (subtree (comps dst))) (clone src dst)"
begin

lemma clone_frame_mono:
  "IsAbs src \<Longrightarrow> IsAbs dst \<Longrightarrow> subtree (comps dst) \<subseteq> S \<Longrightarrow> keeps (writes S) (clone src dst)"
  by (rule frame_mono [OF clone_frame])

end

text \<open>
  \<open>os.Chmod\<close> follows links. The clone only changes modes of directories it made in the same
  run: every recorded target is, and stays, a directory at or below the destination.
\<close>

definition made_dirs :: "cpath set \<Rightarrow> string list \<Rightarrow> fsys \<Rightarrow> bool" where
  "made_dirs S ds f \<longleftrightarrow> (\<forall>d \<in> set ds. comps d \<in> S \<and>
     (\<exists>n. lookup f (comps d) = Some n \<and> is_dir n))"

lemma made_dirs_put:
  "made_dirs S ds f \<Longrightarrow> lookup f p = None \<Longrightarrow> made_dirs S ds (fs_put p n f)"
  unfolding made_dirs_def by (metis lookup_put_other option.distinct(1))

lemma made_dirs_snoc:
  "made_dirs S ds f \<Longrightarrow> lookup f (comps t) = None \<Longrightarrow> is_dir n \<Longrightarrow> comps t \<in> S \<Longrightarrow>
   made_dirs S (ds @ [t]) (fs_put (comps t) n f)"
  using made_dirs_put [of S ds f "comps t" n] by (auto simp: made_dirs_def)

lemma create_spec:
  assumes "\<And>e v'. same v v' \<Longrightarrow> Q (Some e) v'"
    and "\<And>n v'. lookup (w_fs v) p = None \<Longrightarrow> n_kind n = k \<Longrightarrow> n_perm n = m \<Longrightarrow>
      puts p n v v' \<Longrightarrow> Q None v'"
  shows "wp (update (\<lambda>i. fs_create k m i p)) Q v"
  using assms(1) assms(2) [of "\<lparr>n_kind = k, n_perm = m, n_ino = w_ino v\<rparr>"]
  by (auto simp: wp_simps fs_create_def puts_def split: sum.splits if_splits)

lemma os_Mkdir_spec:
  assumes "\<And>e v'. same v v' \<Longrightarrow> Q (Some e) v'"
    and "\<And>n v'. lookup (w_fs v) (comps p) = None \<Longrightarrow> is_dir n \<Longrightarrow>
      puts (comps p) n v v' \<Longrightarrow> Q None v'"
  shows "wp (os_Mkdir p m) Q v"
  unfolding os_Mkdir_def by (rule create_spec) (auto intro: assms simp: is_dir_def)

lemma cloneRegular_spec:
  assumes "made_dirs S ds (w_fs v)" and "comps t \<in> S"
  shows "wp (cloneRegularFileForDaemon s t) (\<lambda>r v'. writes S v v' \<and> made_dirs S ds (w_fs v')) v"
  unfolding cloneRegularFileForDaemon_def
  using assms
  by (auto simp: wp_simps env_get_def fs_clonefile_def fs_create_def
      intro: writes_same writes_put [unfolded puts_def] made_dirs_put split: sum.splits if_splits option.splits)

lemma ctx_Err_spec:
  "(\<And>r v'. same v v' \<Longrightarrow> Q r v') \<Longrightarrow> wp ctx_Err Q v"
  by (simp add: ctx_Err_def wp_simps)

lemma clone_visit_spec:
  assumes src: "IsAbs src" and dst: "IsAbs dst" and q: "prefix (comps src) q" "list_all proper q"
    and ok: "made_dirs (subtree (comps dst)) ds (w_fs v)"
  shows "wp (clone_visit src dst q r ds) (\<lambda>res v'. writes (subtree (comps dst)) v v' \<and>
     (\<forall>ds'. res = Inr ds' \<longrightarrow> made_dirs (subtree (comps dst)) ds' (w_fs v'))) v"
proof (cases r)
  case (Inl e)
  then show ?thesis by (simp add: clone_visit_def wp_simps writes_refl)
next
  case (Inr n)
  let ?S = "subtree (comps dst)"
  obtain bs where bs: "q = comps src @ bs" "list_all proper bs"
    using q by (auto simp: prefix_def)
  have rel: "relative_to src q = Some (render False bs)"
    using Rel_below [OF src bs(2)] bs(1) by (simp add: relative_to_def)
  define t where "t = (if render False bs \<noteq> ''.'' then Join [dst, render False bs] else dst)"
  have t: "comps t \<in> ?S"
    using bs(2) Join_relative [OF dst bs(2)] comps_Join [OF dst bs(2)]
    by (simp add: t_def render_False_dot)
  have dir: "wp (os_Mkdir t m) (\<lambda>e v'. writes ?S u v' \<and> made_dirs ?S ds (w_fs v') \<and>
      (e = None \<longrightarrow> made_dirs ?S (ds @ [t]) (w_fs v'))) u"
    if "made_dirs ?S ds (w_fs u)" for m u
    using that t
    by (intro os_Mkdir_spec)
      (auto intro: writes_same writes_put simp: same_def puts_def made_dirs_put made_dirs_snoc)
  have tm: "wp ctx_Err (\<lambda>_ u. same v u) v"
    by (rule ctx_Err_spec) simp
  have base: "writes ?S v u'" if "writes ?S u u'" "same v u" for u u'
    using that by (simp add: writes_def same_def)
  let ?Q = "\<lambda>res v'. writes ?S v v' \<and> (\<forall>ds'. res = Inr ds' \<longrightarrow> made_dirs ?S ds' (w_fs v'))"
  have mk: "wp (check (os_Mkdir t (node_mode n OR 448)) (\<lambda>e. ret (Inl e))
      (ret (Inr (ds @ [t])))) ?Q u" if u: "same v u" for u
    by (rule wp_checkI [OF dir]) (use u sameD [OF u] ok base in \<open>auto simp: wp_simps\<close>)
  have cl: "wp (check (cloneRegularFileForDaemon (render True q) t) (\<lambda>e. ret (Inl e))
      (ret (Inr ds))) ?Q u" if u: "same v u" for u
    by (rule wp_checkI [OF cloneRegular_spec [OF _ t]])
      (use u sameD [OF u] ok base in \<open>auto simp: wp_simps\<close>)
  show ?thesis
    unfolding clone_visit_def Inr sum.case rel option.case Let_def t_def [symmetric]
    by (rule wp_checkI [OF tm], simp add: wp_ret writes_same, cases "is_dir n")
      (simp_all add: mk cl)
qed

lemma clone_walk_spec:
  assumes src: "IsAbs src" and dst: "IsAbs dst"
  shows "\<forall>q \<in> set qs. prefix (comps src) q \<and> list_all proper q \<Longrightarrow>
    made_dirs (subtree (comps dst)) ds (w_fs w) \<Longrightarrow>
    wp (walk_list (clone_visit src dst) ds qs) (\<lambda>res v'. writes (subtree (comps dst)) w v' \<and>
     (\<forall>ds'. res = Inr ds' \<longrightarrow> made_dirs (subtree (comps dst)) ds' (w_fs v'))) w"
proof (induction qs arbitrary: ds w)
  case Nil
  then show ?case by (simp add: wp_simps writes_refl)
next
  case (Cons q qs)
  let ?S = "subtree (comps dst)"
  have qq: "wp (query (fs_lstat q)) (\<lambda>_ v. writes ?S w v \<and> made_dirs ?S ds (w_fs v)) w"
    using Cons.prems by (simp add: wp_simps writes_same)
  show ?case
    unfolding walk_list.simps
  proof (rule wp_bindI [OF qq], rule wp_attemptI [OF clone_visit_spec [OF src dst]], goal_cases)
    case (5 r v ds' v')
    then show ?case
      by (intro wp_mono [OF Cons.IH]) (use Cons.prems in \<open>auto intro: writes_trans\<close>)
  qed (use Cons.prems in \<open>auto simp: wp_simps intro: writes_trans\<close>)
qed

lemma restore_modes_spec:
  "made_dirs S ds (w_fs w) \<Longrightarrow> wp (restore_modes src dst ds) (\<lambda>_ v. writes S w v) w"
proof (induction ds arbitrary: w)
  case Nil
  then show ?case by (simp add: wp_simps writes_refl)
next
  case (Cons d ds)
  obtain n where n: "lookup (w_fs w) (comps d) = Some n" "is_dir n" and d: "comps d \<in> S"
    using Cons.prems by (auto simp: made_dirs_def)
  have fol: "follow (w_fs w) (comps d) = comps d"
    using n by (auto simp: follow_def is_dir_def)
  have ds: "made_dirs S ds (w_fs w)" "made_dirs S ds (fs_put (comps d) (n\<lparr>n_perm := m\<rparr>) (w_fs w))"
    for m using Cons.prems n by (auto simp: made_dirs_def lookup_put is_dir_def)
  have st: "wp (os_Stat p) (\<lambda>_ v. same w v) w" for p
    by (simp add: os_Stat_def wp_simps)
  have ch: "wp (os_Chmod d m) (\<lambda>r v'. writes S w v' \<and> made_dirs S ds (w_fs v')) v"
    if "same w v" for m v
    using that n fol d ds
    by (auto simp: os_Chmod_def fs_chmod_def wp_simps same_def
        intro: writes_same [unfolded same_def] writes_put [unfolded puts_def]
        split: sum.splits option.splits)
  have io: "wp io_step (\<lambda>r v'. writes S w v' \<and> made_dirs S ds (w_fs v')) v"
    if "writes S w v \<and> made_dirs S ds (w_fs v)" for v
    using that by (auto simp: io_step_def wp_simps writes_def)
  have rec: "wp (restore_modes src dst ds) (\<lambda>_ v. writes S w v) v"
    if "writes S w v \<and> made_dirs S ds (w_fs v)" for v
    by (rule wp_mono [OF Cons.IH]) (use that in \<open>auto intro: writes_trans\<close>)
  have step: "wp (attempt (os_Stat p) (\<lambda>e. ret (Some e)) (\<lambda>info.
      check (os_Chmod d (node_mode info)) (\<lambda>e. ret (Some e))
        (check io_step (\<lambda>e. ret (Some e)) (restore_modes src dst ds)))) (\<lambda>_ v. writes S w v) w" for p
    by (auto simp: wp_ret intro!: wp_attemptI [OF st] wp_checkI [OF ch] wp_checkI [OF io] rec
        intro: writes_same)
  show ?case
    unfolding restore_modes.simps Let_def
    by (cases "d = dst"; cases "Rel dst d")
      (use step in \<open>simp_all add: wp_ret writes_refl\<close>)
qed

lemma cloneTreeForDaemon_frame:
  assumes src: "IsAbs src" and dst: "IsAbs dst"
  shows "keeps (writes (subtree (comps dst))) (cloneTreeForDaemon src dst)"
proof (rule achieves_if_wp)
  fix w :: "'a world_scheme"
  let ?S = "subtree (comps dst)"
  let ?W = "\<lambda>res v'. writes ?S w v' \<and> (\<forall>ds'. res = Inr ds' \<longrightarrow> made_dirs ?S ds' (w_fs v'))"
  have walk: "wp (WalkDir src (clone_visit src dst) []) ?W w"
    unfolding WalkDir_def
  proof (rule wp_bindI [where P = "\<lambda>_ v. writes ?S w v"])
    show "wp (os_Lstat src) (\<lambda>_ v. writes ?S w v) w"
      by (simp add: os_Lstat_def wp_simps writes_same)
  next
    fix r v
    assume v: "writes ?S w v"
    have "wp (walk_list (clone_visit src dst) [] (below (comps src) (w_fs v))) ?W v"
      by (rule wp_mono [OF clone_walk_spec [OF src dst]])
        (use v in \<open>auto simp: set_below made_dirs_def intro: writes_trans\<close>)
    with v show "wp (case r of Inl e \<Rightarrow> clone_visit src dst (comps src) (Inl e) []
        | Inr n \<Rightarrow> (do { qs \<leftarrow> gets (\<lambda>w. below (comps src) (w_fs w));
            walk_list (clone_visit src dst) [] qs })) ?W v"
      by (auto simp: wp_simps clone_visit_def split: sum.splits)
  qed
  show "wp (cloneTreeForDaemon src dst) (\<lambda>_ v. writes ?S w v \<and> True) w"
    unfolding cloneTreeForDaemon_def
    by (rule wp_attemptI [OF walk])
      (auto simp: wp_simps made_dirs_def intro!: wp_mono [OF restore_modes_spec [where S = ?S]] intro: writes_trans)
qed

interpretation darwin: cloner cloneTreeForDaemon
  by unfold_locales (rule cloneTreeForDaemon_frame)

end
