(* ===== verification/File_Copy.thy ===== *)
theory File_Copy
  imports Clone_Tree "HOL-Library.Multiset"
begin

text \<open>
  The parallel directory copy, \<open>internal/filecopy/copy.go\<close>. One goroutine walks the source, makes the
  directories and links and sends the files over a channel to a pool of workers that copy them. The
  pool is a step relation over the world: the walker, each worker and whoever cancels the context take
  turns in any order; a callback of the walk and the copy of one file are atomic steps. The lemmas say
  what a successful return means, that every schedule ends, and where it can end without returning.
\<close>

section \<open>One entry, one file\<close>

record copy_job =
  cj_src :: string
  cj_dst :: string
  cj_mode :: "32 word"

definition defaultWorkers :: nat where
  "defaultWorkers = 8"

text \<open>
  The callback of the walk up to its \<open>select\<close>: \<open>cancelled\<close> is \<open>ctx.Err() != nil\<close>, \<open>failed\<close> is what
  \<open>copyErr\<close> holds; the result is the job to send, if any.
\<close>

definition copy_visit ::
  "string \<Rightarrow> string \<Rightarrow> bool \<Rightarrow> err option \<Rightarrow> cpath \<Rightarrow> ('z world_scheme, err + copy_job option) state"
where
  "copy_visit src dst cancelled failed q =
     attempt (query (fs_lstat q)) (\<lambda>e. ret (Inl e)) (\<lambda>entry.
     if cancelled then ret (Inl Cancelled)
     else case failed of Some e \<Rightarrow> ret (Inl e) | None \<Rightarrow>
     (case relative_to src q of
        None \<Rightarrow> ret (Inl (Text ''relative path''))
      | Some rel \<Rightarrow>
          let target = Join [dst, rel] in
          if is_dir entry then check (os_MkdirAll target 493) (\<lambda>e. ret (Inl e)) (ret (Inr None))
          else if is_link entry then
            attempt (os_Readlink (render True q)) (\<lambda>e. ret (Inl e)) (\<lambda>linkTarget.
            check (os_Symlink linkTarget target) (\<lambda>e. ret (Inl e)) (ret (Inr None)))
          else attempt (query (fs_lstat q)) (\<lambda>e. ret (Inl e)) (\<lambda>info.
            ret (Inr (Some \<lparr>cj_src = render True q, cj_dst = target, cj_mode = n_perm info\<rparr>)))))"

definition copyFile :: "bool \<Rightarrow> copy_job \<Rightarrow> ('z world_scheme, err option) state" where
  "copyFile cancelled job =
     check (os_MkdirAll (Dir (cj_dst job)) 493) (\<lambda>e. ret (Some e)) (
     attempt (os_Stat (cj_src job)) (\<lambda>e. ret (Some e)) (\<lambda>_.
     check (update (\<lambda>i. fs_truncate (cj_mode job) i (comps (cj_dst job)))) (\<lambda>e. ret (Some e)) (
     if cancelled then ignore file_close (ret (Some Cancelled))
     else attempt (os_ReadFile (cj_src job)) (\<lambda>e. ignore file_close (ret (Some e))) (\<lambda>c.
       check (update (\<lambda>_ f. fs_write c (follow f (comps (cj_dst job))) f))
         (\<lambda>e. ignore file_close (ret (Some e))) file_close))))"

section \<open>The pool\<close>

datatype 'j walker = Walking | Offering 'j | Closed "err option"
datatype 'j worker = Idle | Copying 'j | Gone

text \<open>
  \<open>pl_entries\<close> are the entries still to be visited, \<open>pl_jobs\<close> the channel; \<open>pl_offered\<close> and
  \<open>pl_copied\<close> log the files met by the walk and the files copied.
\<close>

record ('i, 'j, 'w) pool =
  pl_world :: 'w
  pl_entries :: "'i list"
  pl_walker :: "'j walker"
  pl_jobs :: "'j list"
  pl_workers :: "'j worker list"
  pl_error :: "err option"
  pl_cancelled :: bool
  pl_offered :: "'j list"
  pl_copied :: "'j list"

type_synonym ('i, 'j, 'w) visitor = "bool \<Rightarrow> err option \<Rightarrow> 'i \<Rightarrow> ('w, err + 'j option) state"
type_synonym ('j, 'w) copier = "bool \<Rightarrow> 'j \<Rightarrow> ('w, err option) state"

abbreviation capacity :: "('i, 'j, 'w) pool \<Rightarrow> nat" where
  "capacity s \<equiv> 2 * length (pl_workers s)"

abbreviation set_worker :: "nat \<Rightarrow> 'j worker \<Rightarrow> ('i, 'j, 'w) pool \<Rightarrow> ('i, 'j, 'w) pool" where
  "set_worker t x s \<equiv> s\<lparr>pl_workers := (pl_workers s)[t := x]\<rparr>"

abbreviation worker_at :: "('i, 'j, 'w) pool \<Rightarrow> nat \<Rightarrow> 'j worker \<Rightarrow> bool" where
  "worker_at s t x \<equiv> t < length (pl_workers s) \<and> pl_workers s ! t = x"

inductive walker_step ::
  "('i, 'j, 'w) visitor \<Rightarrow> ('i, 'j, 'w) pool \<Rightarrow> ('i, 'j, 'w) pool \<Rightarrow> bool" for visit
where
  Visit: "pl_walker s = Walking \<Longrightarrow> pl_entries s = i # is \<Longrightarrow>
    run_state (visit (pl_cancelled s) (pl_error s) i) (pl_world s) = (Inr None, w) \<Longrightarrow>
    walker_step visit s (s\<lparr>pl_world := w, pl_entries := is\<rparr>)"
| Visit_file: "pl_walker s = Walking \<Longrightarrow> pl_entries s = i # is \<Longrightarrow>
    run_state (visit (pl_cancelled s) (pl_error s) i) (pl_world s) = (Inr (Some j), w) \<Longrightarrow>
    walker_step visit s (s\<lparr>pl_world := w, pl_entries := is, pl_walker := Offering j,
      pl_offered := j # pl_offered s\<rparr>)"
| Visit_fails: "pl_walker s = Walking \<Longrightarrow> pl_entries s = i # is \<Longrightarrow>
    run_state (visit (pl_cancelled s) (pl_error s) i) (pl_world s) = (Inl e, w) \<Longrightarrow>
    walker_step visit s (s\<lparr>pl_world := w, pl_walker := Closed (Some e)\<rparr>)"
| Walked: "pl_walker s = Walking \<Longrightarrow> pl_entries s = [] \<Longrightarrow>
    walker_step visit s (s\<lparr>pl_walker := Closed None\<rparr>)"
| Send: "pl_walker s = Offering j \<Longrightarrow> length (pl_jobs s) < capacity s \<Longrightarrow>
    walker_step visit s (s\<lparr>pl_walker := Walking, pl_jobs := pl_jobs s @ [j]\<rparr>)"
| Send_cancelled: "pl_walker s = Offering j \<Longrightarrow> pl_cancelled s \<Longrightarrow>
    walker_step visit s (s\<lparr>pl_walker := Closed (Some Cancelled)\<rparr>)"

inductive worker_step ::
  "('j, 'w) copier \<Rightarrow> ('i, 'j, 'w) pool \<Rightarrow> ('i, 'j, 'w) pool \<Rightarrow> bool" for copy
where
  Take: "worker_at s t Idle \<Longrightarrow> pl_jobs s = j # js \<Longrightarrow> \<not> pl_cancelled s \<Longrightarrow> pl_error s = None \<Longrightarrow>
    worker_step copy s (set_worker t (Copying j) (s\<lparr>pl_jobs := js\<rparr>))"
| Drop: "worker_at s t Idle \<Longrightarrow> pl_jobs s = j # js \<Longrightarrow> pl_cancelled s \<or> pl_error s \<noteq> None \<Longrightarrow>
    worker_step copy s (set_worker t Gone (s\<lparr>pl_jobs := js\<rparr>))"
| Leave: "worker_at s t Idle \<Longrightarrow> pl_jobs s = [] \<Longrightarrow> pl_walker s = Closed r \<Longrightarrow>
    worker_step copy s (set_worker t Gone s)"
| Copied: "worker_at s t (Copying j) \<Longrightarrow>
    run_state (copy (pl_cancelled s) j) (pl_world s) = (None, w) \<Longrightarrow>
    worker_step copy s (set_worker t Idle (s\<lparr>pl_world := w, pl_copied := j # pl_copied s\<rparr>))"
| Failed: "worker_at s t (Copying j) \<Longrightarrow>
    run_state (copy (pl_cancelled s) j) (pl_world s) = (Some e, w) \<Longrightarrow>
    worker_step copy s (set_worker t Gone (s\<lparr>pl_world := w,
      pl_error := (case pl_error s of None \<Rightarrow> Some e | Some x \<Rightarrow> Some x)\<rparr>))"

inductive cancel_copy :: "('i, 'j, 'w) pool \<Rightarrow> ('i, 'j, 'w) pool \<Rightarrow> bool" where
  Cancel_copy: "\<not> pl_cancelled s \<Longrightarrow> cancel_copy s (s\<lparr>pl_cancelled := True\<rparr>)"

definition copy_step ::
  "('i, 'j, 'w) visitor \<Rightarrow> ('j, 'w) copier \<Rightarrow> ('i, 'j, 'w) pool \<Rightarrow> ('i, 'j, 'w) pool \<Rightarrow> bool"
where
  "copy_step visit copy s s' \<longleftrightarrow> walker_step visit s s' \<or> worker_step copy s s'"

definition pool_step ::
  "('i, 'j, 'w) visitor \<Rightarrow> ('j, 'w) copier \<Rightarrow> ('i, 'j, 'w) pool \<Rightarrow> ('i, 'j, 'w) pool \<Rightarrow> bool"
where
  "pool_step visit copy s s' \<longleftrightarrow> copy_step visit copy s s' \<or> cancel_copy s s'"

definition new_pool :: "nat \<Rightarrow> 'i list \<Rightarrow> 'w \<Rightarrow> ('i, 'j, 'w) pool" where
  "new_pool workers entries w = \<lparr>pl_world = w, pl_entries = entries, pl_walker = Walking, pl_jobs = [],
     pl_workers = replicate workers Idle, pl_error = None, pl_cancelled = False, pl_offered = [],
     pl_copied = []\<rparr>"

text \<open>The end of \<open>CopyDirParallel\<close>: it returns once the walk is over and every worker has left.\<close>

definition copy_result :: "('i, 'j, 'w) pool \<Rightarrow> err option option" where
  "copy_result s = (case pl_walker s of
       Closed r \<Rightarrow> if list_all (\<lambda>x. x = Gone) (pl_workers s)
         then Some (case r of Some e \<Rightarrow> Some e | None \<Rightarrow> pl_error s) else None
     | _ \<Rightarrow> None)"

text \<open>
  And its beginning: the destination is removed, then the pool is started. A source that is not there
  is visited once, with the error of its \<open>Lstat\<close>.
\<close>

definition copy_entries :: "string \<Rightarrow> fsys \<Rightarrow> cpath list" where
  "copy_entries src f = (if lookup f (comps src) = None then [comps src] else below (comps src) f)"

definition CopyDirParallel_start ::
  "string \<Rightarrow> string \<Rightarrow> int \<Rightarrow> 'z world_scheme \<Rightarrow> err + (cpath, copy_job, 'z world_scheme) pool"
where
  "CopyDirParallel_start src dst workers w =
     (let n = (if workers \<le> 0 then defaultWorkers else nat workers);
          (e, v) = run_state (os_RemoveAll dst) w in
      case e of Some x \<Rightarrow> Inl x | None \<Rightarrow> Inr (new_pool n (copy_entries src (w_fs v)) v))"

section \<open>One file\<close>

lemma read_after_write:
  assumes w: "fs_write c (follow f p) f = Inr f'" and r: "fs_read q f = Inr c"
  shows "fs_read p f' = Inr c \<and> fs_read q f' = Inr c"
proof -
  from w obtain n where n: "lookup f (follow f p) = Some n" "is_regular n"
    and f': "f' = fs_put (follow f p) (n\<lparr>n_kind := KFile c\<rparr>) f"
    by (auto simp: fs_write_def split: option.splits if_splits)
  then have same: "follow f' x = follow f x" for x
    by (auto simp: follow_def lookup_put is_regular_def split: option.splits kind.splits)
  show ?thesis
    using r unfolding fs_read_def same by (auto simp: f' lookup_put)
qed

text \<open>A copy that reports success has copied: the two files hold the same content.\<close>

lemma copyFile_spec:
  "wp (copyFile cancelled job) (\<lambda>r v. r = None \<longrightarrow> \<not> cancelled \<and>
     (\<exists>c. fs_read (comps (cj_dst job)) (w_fs v) = Inr c \<and> fs_read (comps (cj_src job)) (w_fs v) = Inr c)) w"
  unfolding copyFile_def
  by (intro wp_checkI [OF wp_True] wp_attemptI [OF wp_True])
    (auto simp: wp_simps call_defs dest: read_after_write split: sum.splits)

section \<open>What a return means\<close>

text \<open>The files the pool holds: in the walker's hand, in the channel, with the workers, copied.\<close>

definition held :: "'j worker \<Rightarrow> 'j multiset" where
  "held x = (case x of Copying j \<Rightarrow> {#j#} | _ \<Rightarrow> {#})"

definition in_hand :: "'j walker \<Rightarrow> 'j multiset" where
  "in_hand x = (case x of Offering j \<Rightarrow> {#j#} | _ \<Rightarrow> {#})"

primrec all_held :: "'j worker list \<Rightarrow> 'j multiset" where
  "all_held [] = {#}"
| "all_held (x # xs) = held x + all_held xs"

definition in_pool :: "('i, 'j, 'w) pool \<Rightarrow> 'j multiset" where
  "in_pool s = in_hand (pl_walker s) + mset (pl_jobs s) + all_held (pl_workers s) + mset (pl_copied s)"

lemma hold_simps [simp]:
  "held Idle = {#}" "held (Copying j) = {#j#}" "held Gone = {#}"
  "in_hand Walking = {#}" "in_hand (Offering j) = {#j#}" "in_hand (Closed r) = {#}"
  by (simp_all add: held_def in_hand_def)

lemma all_held_update:
  "t < length xs \<Longrightarrow> all_held (xs[t := y]) + held (xs ! t) = all_held xs + held y"
proof (induction xs arbitrary: t)
  case (Cons x xs)
  then show ?case by (cases t) (simp_all add: ac_simps)
qed simp

lemma all_held_none: "list_all (\<lambda>x. held x = {#}) xs \<Longrightarrow> all_held xs = {#}"
  by (induction xs) simp_all

text \<open>No step invents or doubles a file, and none loses one before a failure or a cancellation.\<close>

definition quiet :: "('i, 'j, 'w) pool \<Rightarrow> bool" where
  "quiet s \<longleftrightarrow> pl_error s = None \<and> \<not> pl_cancelled s"

definition conserves :: "('i, 'j, 'w) pool \<Rightarrow> ('i, 'j, 'w) pool \<Rightarrow> bool" where
  "conserves s s' \<longleftrightarrow> (quiet s' \<longrightarrow> quiet s) \<and> length (pl_workers s') = length (pl_workers s) \<and>
     (\<exists>new lost. mset (pl_offered s') = new + mset (pl_offered s) \<and>
        in_pool s' + lost = new + in_pool s \<and> (quiet s' \<longrightarrow> lost = {#}))"

lemma conservesI:
  "(quiet s' \<Longrightarrow> quiet s) \<Longrightarrow> length (pl_workers s') = length (pl_workers s) \<Longrightarrow>
   mset (pl_offered s') = new + mset (pl_offered s) \<Longrightarrow> in_pool s' + lost = new + in_pool s \<Longrightarrow>
   (quiet s' \<Longrightarrow> lost = {#}) \<Longrightarrow> conserves s s'"
  unfolding conserves_def by blast

lemma walker_conserves: "walker_step visit s s' \<Longrightarrow> conserves s s'"
proof (induction rule: walker_step.induct)
  case (Visit_file s i rest j w)
  then show ?case by (intro conservesI [where new = "{#j#}" and lost = "{#}"]) (auto simp: in_pool_def quiet_def)
next
  case (Send_cancelled s j)
  then show ?case by (intro conservesI [where new = "{#}" and lost = "{#j#}"]) (auto simp: in_pool_def quiet_def)
qed (auto intro!: conservesI [where new = "{#}" and lost = "{#}"] simp: in_pool_def quiet_def)

lemma worker_conserves: "worker_step copy s s' \<Longrightarrow> conserves s s'"
proof (induction rule: worker_step.induct)
  case (Take s t j js)
  then show ?case
    using all_held_update [of t "pl_workers s" "Copying j"]
    by (intro conservesI [where new = "{#}" and lost = "{#}"]) (auto simp: in_pool_def quiet_def)
next
  case (Drop s t j js)
  then show ?case
    using all_held_update [of t "pl_workers s" Gone]
    by (intro conservesI [where new = "{#}" and lost = "{#j#}"]) (auto simp: in_pool_def quiet_def)
next
  case (Leave s t r)
  then show ?case
    using all_held_update [of t "pl_workers s" Gone]
    by (intro conservesI [where new = "{#}" and lost = "{#}"]) (auto simp: in_pool_def quiet_def)
next
  case (Copied s t j w)
  then show ?case
    using all_held_update [of t "pl_workers s" Idle]
    by (intro conservesI [where new = "{#}" and lost = "{#}"]) (auto simp: in_pool_def quiet_def)
next
  case (Failed s t j e w)
  then show ?case
    using all_held_update [of t "pl_workers s" Gone]
    by (intro conservesI [where new = "{#}" and lost = "{#j#}"])
      (auto simp: in_pool_def quiet_def split: option.splits)
qed

lemma cancel_conserves: "cancel_copy s s' \<Longrightarrow> conserves s s'"
  by (induction rule: cancel_copy.induct)
    (auto intro!: conservesI [where new = "{#}" and lost = "{#}"] simp: in_pool_def quiet_def)

lemma step_conserves: "pool_step visit copy s s' \<Longrightarrow> conserves s s'"
  unfolding pool_step_def copy_step_def
  using walker_conserves worker_conserves cancel_conserves by blast

text \<open>A worker leaves a quiet pool only when the channel is closed and empty.\<close>

definition leaves_last :: "('i, 'j, 'w) pool \<Rightarrow> bool" where
  "leaves_last s \<longleftrightarrow> (pl_walker s = Closed None \<longrightarrow> pl_entries s = []) \<and>
     (Gone \<in> set (pl_workers s) \<and> quiet s \<longrightarrow> pl_jobs s = [] \<and> (\<exists>r. pl_walker s = Closed r))"

lemma gone_update: "Gone \<in> set (xs[t := y]) \<Longrightarrow> y = Gone \<or> Gone \<in> set xs"
  using set_update_subset_insert [of xs t y] by auto

lemma walker_leaves_last: "walker_step visit s s' \<Longrightarrow> leaves_last s \<Longrightarrow> leaves_last s'"
  by (induction rule: walker_step.induct) (auto simp: leaves_last_def quiet_def)

lemma worker_leaves_last: "worker_step copy s s' \<Longrightarrow> leaves_last s \<Longrightarrow> leaves_last s'"
proof (induction rule: worker_step.induct)
  case (Take s t j js)
  then show ?case by (auto simp: leaves_last_def quiet_def dest!: gone_update)
next
  case (Drop s t j js)
  then show ?case by (auto simp: leaves_last_def quiet_def)
next
  case (Leave s t r)
  then show ?case by (simp add: leaves_last_def)
next
  case (Copied s t j w)
  then show ?case by (auto simp: leaves_last_def quiet_def dest!: gone_update)
next
  case (Failed s t j e w)
  then show ?case by (simp add: leaves_last_def quiet_def split: option.splits)
qed

lemma cancel_leaves_last: "cancel_copy s s' \<Longrightarrow> leaves_last s \<Longrightarrow> leaves_last s'"
  by (induction rule: cancel_copy.induct) (simp add: leaves_last_def quiet_def)

lemma step_leaves_last: "pool_step visit copy s s' \<Longrightarrow> leaves_last s \<Longrightarrow> leaves_last s'"
  unfolding pool_step_def copy_step_def
  using walker_leaves_last worker_leaves_last cancel_leaves_last by blast

definition pool_inv :: "nat \<Rightarrow> ('i, 'j, 'w) pool \<Rightarrow> bool" where
  "pool_inv n s \<longleftrightarrow> length (pl_workers s) = n \<and> in_pool s \<subseteq># mset (pl_offered s) \<and>
     (quiet s \<longrightarrow> in_pool s = mset (pl_offered s)) \<and> leaves_last s"

lemma new_pool_inv: "0 < n \<Longrightarrow> pool_inv n (new_pool n es w)"
  by (simp add: pool_inv_def new_pool_def in_pool_def leaves_last_def all_held_none list_all_iff)

lemma conserves_inv:
  assumes "conserves s s'" and "in_pool s \<subseteq># mset (pl_offered s)"
    and "quiet s \<Longrightarrow> in_pool s = mset (pl_offered s)"
  shows "in_pool s' \<subseteq># mset (pl_offered s')" and "quiet s' \<Longrightarrow> in_pool s' = mset (pl_offered s')"
proof -
  from assms(1) obtain new lost where c: "mset (pl_offered s') = new + mset (pl_offered s)"
      "in_pool s' + lost = new + in_pool s" "quiet s' \<Longrightarrow> quiet s \<and> lost = {#}"
    unfolding conserves_def by blast
  have "in_pool s' \<subseteq># in_pool s' + lost" by simp
  also have "\<dots> \<subseteq># mset (pl_offered s')" using c(1,2) assms(2) by simp
  finally show "in_pool s' \<subseteq># mset (pl_offered s')" .
  show "in_pool s' = mset (pl_offered s')" if "quiet s'" using c assms(3) that by simp
qed

lemma pool_step_inv:
  assumes step: "pool_step visit copy s s'" and inv: "pool_inv n s"
  shows "pool_inv n s'"
proof -
  have c: "conserves s s'" by (rule step_conserves [OF step])
  with inv conserves_inv [OF c] step_leaves_last [OF step] show ?thesis
    unfolding pool_inv_def by (simp add: conserves_def)
qed

lemma pool_reachable_inv:
  assumes "(pool_step visit copy)\<^sup>*\<^sup>* (new_pool n es w) s" and "0 < n"
  shows "pool_inv n s"
  using assms(1) by (induction rule: rtranclp_induct) (auto intro: new_pool_inv [OF assms(2)] pool_step_inv)

lemma copy_complete:
  assumes "(pool_step visit copy)\<^sup>*\<^sup>* (new_pool n es w) s" and "0 < n"
    and "copy_result s = Some None" and "\<not> pl_cancelled s"
  shows "pl_entries s = [] \<and> mset (pl_copied s) = mset (pl_offered s)"
proof -
  have inv: "pool_inv n s" by (rule pool_reachable_inv [OF assms(1,2)])
  from assms(3) have w: "pl_walker s = Closed None" "pl_error s = None" "list_all (\<lambda>x. x = Gone) (pl_workers s)"
    by (auto simp: copy_result_def split: walker.splits if_splits option.splits)
  then have "Gone \<in> set (pl_workers s)" "all_held (pl_workers s) = {#}"
    using inv assms(2) by (cases "pl_workers s"; auto simp: pool_inv_def list_all_iff intro!: all_held_none)+
  then show ?thesis
    using inv w assms(4) by (auto simp: pool_inv_def leaves_last_def quiet_def in_pool_def)
qed

lemma copied_once:
  assumes "(pool_step visit copy)\<^sup>*\<^sup>* (new_pool n es w) s" and "0 < n"
  shows "mset (pl_copied s) \<subseteq># mset (pl_offered s)"
proof -
  have "mset (pl_copied s) \<subseteq># in_pool s" by (simp add: in_pool_def)
  with pool_reachable_inv [OF assms] show ?thesis
    unfolding pool_inv_def by (meson subset_mset.order_trans)
qed

section \<open>Every schedule ends\<close>

primrec worker_weight :: "'j worker \<Rightarrow> nat" where
  "worker_weight Idle = 1"
| "worker_weight (Copying j) = 2"
| "worker_weight Gone = 0"

primrec walker_weight :: "'j walker \<Rightarrow> nat" where
  "walker_weight Walking = 1"
| "walker_weight (Offering j) = 5"
| "walker_weight (Closed r) = 0"

definition pool_weight :: "('i, 'j, 'w) pool \<Rightarrow> nat" where
  "pool_weight s = 6 * length (pl_entries s) + walker_weight (pl_walker s) + 3 * length (pl_jobs s) +
     sum_list (map worker_weight (pl_workers s)) + (if pl_cancelled s then 0 else 1)"

lemma worker_weight_update:
  "t < length xs \<Longrightarrow> sum_list (map worker_weight (xs[t := y])) + worker_weight (xs ! t) =
     sum_list (map worker_weight xs) + worker_weight y"
proof (induction xs arbitrary: t)
  case (Cons x xs)
  then show ?case by (cases t) (simp_all add: ac_simps)
qed simp

lemma walker_weight_step: "walker_step visit s s' \<Longrightarrow> pool_weight s' < pool_weight s"
  by (induction rule: walker_step.induct) (simp_all add: pool_weight_def)

lemma worker_weight_step: "worker_step copy s s' \<Longrightarrow> pool_weight s' < pool_weight s"
proof (induction rule: worker_step.induct)
  case (Take s t j js)
  then show ?case using worker_weight_update [of t "pl_workers s" "Copying j"] by (simp add: pool_weight_def)
next
  case (Drop s t j js)
  then show ?case using worker_weight_update [of t "pl_workers s" Gone] by (simp add: pool_weight_def)
next
  case (Leave s t r)
  then show ?case using worker_weight_update [of t "pl_workers s" Gone] by (simp add: pool_weight_def)
next
  case (Copied s t j w)
  then show ?case using worker_weight_update [of t "pl_workers s" Idle] by (simp add: pool_weight_def)
next
  case (Failed s t j e w)
  then show ?case using worker_weight_update [of t "pl_workers s" Gone] by (simp add: pool_weight_def)
qed

lemma cancel_weight_step: "cancel_copy s s' \<Longrightarrow> pool_weight s' < pool_weight s"
  by (induction rule: cancel_copy.induct) (simp add: pool_weight_def)

lemma pool_wf: "wf {(s', s). pool_step visit copy s s'}"
  by (rule wf_subset [OF wf_measure [of pool_weight]])
    (auto simp: pool_step_def copy_step_def intro: walker_weight_step worker_weight_step cancel_weight_step)

section \<open>Where a schedule can end\<close>

text \<open>A pool that cannot go on and does not return.\<close>

definition hangs :: "('i, 'j, 'w) visitor \<Rightarrow> ('j, 'w) copier \<Rightarrow> ('i, 'j, 'w) pool \<Rightarrow> bool" where
  "hangs visit copy s \<longleftrightarrow> copy_result s = None \<and> \<not> (\<exists>s'. copy_step visit copy s s')"

lemma walking_goes_on: "pl_walker s = Walking \<Longrightarrow> \<exists>s'. walker_step visit s s'"
proof (cases "pl_entries s")
  case (Cons i rest)
  assume w: "pl_walker s = Walking"
  obtain r v where "run_state (visit (pl_cancelled s) (pl_error s) i) (pl_world s) = (r, v)"
    by fastforce
  with w Cons show ?thesis
    by (cases r) (auto intro: Visit_fails, metis Visit Visit_file option.exhaust)
qed (auto intro: Walked)

lemma worker_goes_on:
  assumes "x \<in> set (pl_workers s)" and "x \<noteq> Gone"
    and "pl_jobs s \<noteq> [] \<or> (\<exists>r. pl_walker s = Closed r)"
  shows "\<exists>s'. worker_step copy s s'"
proof -
  from assms(1) obtain t where t: "worker_at s t x" by (auto simp: in_set_conv_nth)
  show ?thesis
  proof (cases x)
    case Idle
    with t assms(3) show ?thesis
      by (cases "pl_jobs s"; cases "pl_cancelled s \<or> pl_error s \<noteq> None") (auto intro: Take Drop Leave)
  next
    case (Copying j)
    obtain r v where "run_state (copy (pl_cancelled s) j) (pl_world s) = (r, v)" by fastforce
    with t Copying show ?thesis by (cases r) (auto intro: Copied Failed)
  qed (use assms in simp)
qed

lemma hangs_iff:
  assumes inv: "pool_inv n s" and n: "0 < n"
  shows "hangs visit copy s \<Longrightarrow> (\<exists>j. pl_walker s = Offering j) \<and> capacity s \<le> length (pl_jobs s) \<and>
     list_all (\<lambda>x. x = Gone) (pl_workers s) \<and> pl_error s \<noteq> None \<and> \<not> pl_cancelled s"
proof -
  assume h: "hangs visit copy s"
  then have walk: "\<not> walker_step visit s s'" and work: "\<not> worker_step copy s s'" for s'
    by (auto simp: hangs_def copy_step_def)
  have len: "length (pl_workers s) = n" using inv by (simp add: pool_inv_def)
  have ended: "list_all (\<lambda>x. x = Gone) (pl_workers s)" if "pl_jobs s \<noteq> [] \<or> (\<exists>r. pl_walker s = Closed r)"
    using worker_goes_on [OF _ _ that] work by (auto simp: list_all_iff)
  show ?thesis
  proof (cases "pl_walker s")
    case Walking
    with walking_goes_on walk show ?thesis by blast
  next
    case (Closed r)
    with ended h show ?thesis by (auto simp: hangs_def copy_result_def split: if_splits)
  next
    case (Offering j)
    then have full: "capacity s \<le> length (pl_jobs s)" and calm: "\<not> pl_cancelled s"
      using walk Send [of s j visit] Send_cancelled [of s j visit] by (meson not_le)+
    then have gone: "list_all (\<lambda>x. x = Gone) (pl_workers s)" using ended len n by fastforce
    then have "Gone \<in> set (pl_workers s)" using len n by (cases "pl_workers s") auto
    with inv Offering calm have "pl_error s \<noteq> None"
      by (auto simp: pool_inv_def leaves_last_def quiet_def)
    with Offering full gone calm show ?thesis by blast
  qed
qed

section \<open>A pool that hangs\<close>

text \<open>
  The stages of a run that hangs: each worker takes a file, the walker fills the channel and holds one
  more file, and then every copy under way fails, as on a full disk. Nobody drains the channel.
\<close>

definition offers_all ::
  "('w \<Rightarrow> bool) \<Rightarrow> ('j \<Rightarrow> bool) \<Rightarrow> ('i, 'j, 'w) visitor \<Rightarrow> 'i set \<Rightarrow> bool"
where
  "offers_all I K visit X \<longleftrightarrow> (\<forall>i \<in> X. \<forall>w. I w \<longrightarrow>
     (\<exists>j v. run_state (visit False None i) w = (Inr (Some j), v) \<and> I v \<and> K j))"

definition fails_all :: "('w \<Rightarrow> bool) \<Rightarrow> ('j \<Rightarrow> bool) \<Rightarrow> ('j, 'w) copier \<Rightarrow> bool" where
  "fails_all I K copy \<longleftrightarrow> (\<forall>j w. K j \<longrightarrow> I w \<longrightarrow> (\<exists>e v. run_state (copy False j) w = (Some e, v) \<and> I v))"

definition staged ::
  "('w \<Rightarrow> bool) \<Rightarrow> ('j \<Rightarrow> bool) \<Rightarrow> 'i set \<Rightarrow> nat \<Rightarrow> nat \<Rightarrow> nat \<Rightarrow> nat \<Rightarrow> ('i, 'j, 'w) pool \<Rightarrow> bool"
where
  "staged I K X n k m l s \<longleftrightarrow> quiet s \<and> I (pl_world s) \<and> list_all K (pl_jobs s) \<and> set (pl_entries s) \<subseteq> X \<and> length (pl_workers s) = n \<and>
     length (pl_jobs s) = m \<and> length (pl_entries s) = l \<and>
     (\<forall>t < n. t < k \<longrightarrow> (\<exists>j. pl_workers s ! t = Copying j \<and> K j)) \<and>
     (\<forall>t < n. k \<le> t \<longrightarrow> pl_workers s ! t = Idle)"

lemma offered:
  assumes o: "offers_all I K visit X" and s: "staged I K X n k m (Suc l) s" "pl_walker s = Walking"
  shows "\<exists>s' j. walker_step visit s s' \<and> staged I K X n k m l s' \<and> pl_walker s' = Offering j \<and> K j"
proof -
  from s obtain i rest where e: "pl_entries s = i # rest" "length rest = l"
    unfolding staged_def by (cases "pl_entries s") auto
  from s e have "i \<in> X" "I (pl_world s)" by (auto simp: staged_def)
  with o obtain j v where j: "run_state (visit False None i) (pl_world s) = (Inr (Some j), v)" "I v" "K j"
    unfolding offers_all_def by blast
  with s e have "walker_step visit s (s\<lparr>pl_world := v, pl_entries := rest, pl_walker := Offering j,
      pl_offered := j # pl_offered s\<rparr>)" (is "walker_step visit s ?s")
    by (intro Visit_file) (auto simp: staged_def quiet_def)
  moreover have "staged I K X n k m l ?s" using s e j by (auto simp: staged_def quiet_def)
  ultimately show ?thesis using j(3) by force
qed

lemma filled:
  assumes o: "offers_all I K visit X" and s: "staged I K X n k m (Suc l) s" "pl_walker s = Walking" and m: "m < 2 * n"
  shows "\<exists>s'. (copy_step visit copy)\<^sup>*\<^sup>* s s' \<and> staged I K X n k (Suc m) l s' \<and> pl_walker s' = Walking"
proof -
  obtain u j where u: "walker_step visit s u" "staged I K X n k m l u" "pl_walker u = Offering j" "K j"
    using offered [OF o s] by blast
  let ?v = "u\<lparr>pl_walker := Walking, pl_jobs := pl_jobs u @ [j]\<rparr>"
  have "walker_step visit u ?v" using u m by (intro Send) (auto simp: staged_def)
  with u(1) have "(copy_step visit copy)\<^sup>*\<^sup>* s ?v"
    by (meson copy_step_def converse_rtranclp_into_rtranclp rtranclp.rtrancl_refl)
  moreover have "staged I K X n k (Suc m) l ?v" using u by (simp add: staged_def quiet_def)
  ultimately show ?thesis by force
qed

lemma taken:
  assumes s: "staged I K X n k 1 l s" and k: "k < n"
  shows "\<exists>s'. copy_step visit copy s s' \<and> staged I K X n (Suc k) 0 l s' \<and> pl_walker s' = pl_walker s"
proof -
  from s obtain j where j: "pl_jobs s = [j]" unfolding staged_def by (auto simp: length_Suc_conv)
  with s k have "worker_step copy s (set_worker k (Copying j) (s\<lparr>pl_jobs := []\<rparr>))" (is "worker_step copy s ?s")
    by (intro Take) (auto simp: staged_def quiet_def)
  moreover have "K j" using s j by (simp add: staged_def)
  then have "staged I K X n (Suc k) 0 l ?s"
    using s k by (auto simp: staged_def quiet_def nth_list_update less_Suc_eq)
  ultimately show ?thesis unfolding copy_step_def by force
qed

lemma all_busy:
  assumes o: "offers_all I K visit X" and s: "staged I K X n 0 0 (k + l) s" "pl_walker s = Walking" and k: "k \<le> n"
  shows "\<exists>s'. (copy_step visit copy)\<^sup>*\<^sup>* s s' \<and> staged I K X n k 0 l s' \<and> pl_walker s' = Walking"
  using s k
proof (induction k arbitrary: l)
  case (Suc k)
  obtain u where u: "(copy_step visit copy)\<^sup>*\<^sup>* s u" "staged I K X n k 0 (Suc l) u" "pl_walker u = Walking"
    using Suc.IH [of "Suc l"] Suc.prems by auto
  obtain v where v: "(copy_step visit copy)\<^sup>*\<^sup>* u v" "staged I K X n k 1 l v" "pl_walker v = Walking"
    using filled [OF o u(2,3)] Suc.prems(3) by auto
  obtain x where "copy_step visit copy v x" "staged I K X n (Suc k) 0 l x" "pl_walker x = Walking"
    using taken [OF v(2)] v(3) Suc.prems(3) by (metis Suc_le_lessD)
  with u v show ?case by (meson rtranclp.rtrancl_into_rtrancl rtranclp_trans)
qed auto

lemma all_full:
  assumes o: "offers_all I K visit X" and s: "staged I K X n n 0 (m + l) s" "pl_walker s = Walking" and m: "m \<le> 2 * n"
  shows "\<exists>s'. (copy_step visit copy)\<^sup>*\<^sup>* s s' \<and> staged I K X n n m l s' \<and> pl_walker s' = Walking"
  using s m
proof (induction m arbitrary: l)
  case (Suc m)
  obtain u where "(copy_step visit copy)\<^sup>*\<^sup>* s u" "staged I K X n n m (Suc l) u" "pl_walker u = Walking"
    using Suc.IH [of "Suc l"] Suc.prems by auto
  with filled [OF o, of n n m l u] Suc.prems(3) show ?case
    by (meson Suc_le_lessD rtranclp_trans)
qed auto

text \<open>Then the copies fail, one worker after the other.\<close>

definition failing ::
  "('w \<Rightarrow> bool) \<Rightarrow> ('j \<Rightarrow> bool) \<Rightarrow> nat \<Rightarrow> nat \<Rightarrow> ('i, 'j, 'w) pool \<Rightarrow> bool"
where
  "failing I K n k s \<longleftrightarrow> \<not> pl_cancelled s \<and> (\<exists>j. pl_walker s = Offering j) \<and> I (pl_world s) \<and> length (pl_workers s) = n \<and>
     length (pl_jobs s) = 2 * n \<and>
     (\<forall>t < n. t < k \<longrightarrow> pl_workers s ! t = Gone) \<and>
     (\<forall>t < n. k \<le> t \<longrightarrow> (\<exists>j. pl_workers s ! t = Copying j \<and> K j))"

lemma all_failed:
  assumes f: "fails_all I K copy" and s: "failing I K n 0 s" and k: "k \<le> n"
  shows "\<exists>s'. (copy_step visit copy)\<^sup>*\<^sup>* s s' \<and> failing I K n k s'"
  using k
proof (induction k)
  case (Suc k)
  then obtain u where u: "(copy_step visit copy)\<^sup>*\<^sup>* s u" "failing I K n k u" by auto
  then have "k < length (pl_workers u)" "I (pl_world u)" "\<exists>j. pl_workers u ! k = Copying j \<and> K j"
    using Suc.prems by (simp_all add: failing_def)
  then obtain j where j: "worker_at u k (Copying j)" "K j" "I (pl_world u)" by blast
  with f obtain e v where v: "run_state (copy False j) (pl_world u) = (Some e, v)" "I v"
    unfolding fails_all_def by blast
  with u j have "worker_step copy u (set_worker k Gone (u\<lparr>pl_world := v,
      pl_error := (case pl_error u of None \<Rightarrow> Some e | Some x \<Rightarrow> Some x)\<rparr>))" (is "worker_step copy u ?x")
    by (intro Failed) (auto simp: failing_def)
  moreover have "failing I K n (Suc k) ?x"
    using u(2) v(2) Suc.prems by (auto simp: failing_def nth_list_update less_Suc_eq)
  ultimately show ?case
    using u(1) by (meson copy_step_def rtranclp.rtrancl_into_rtrancl)
qed (use s in blast)

lemma failed_hangs: "failing I K n n s \<Longrightarrow> hangs visit copy s"
  unfolding hangs_def copy_step_def
  by (auto simp: failing_def copy_result_def elim!: walker_step.cases worker_step.cases)

lemma copy_may_hang:
  assumes "offers_all I K visit X" and "fails_all I K copy" and s: "staged I K X n 0 0 m s" "pl_walker s = Walking"
    and m: "3 * n < m"
  shows "\<exists>s'. (copy_step visit copy)\<^sup>*\<^sup>* s s' \<and> hangs visit copy s'"
proof -
  obtain l where "m = n + (2 * n + Suc l)" using m less_imp_Suc_add by fastforce
  with s have start: "staged I K X n 0 0 (n + (2 * n + Suc l)) s" by simp
  obtain a where a: "(copy_step visit copy)\<^sup>*\<^sup>* s a" "staged I K X n n 0 (2 * n + Suc l) a"
      "pl_walker a = Walking"
    using all_busy [OF assms(1) start s(2)] by auto
  obtain b where b: "(copy_step visit copy)\<^sup>*\<^sup>* a b" "staged I K X n n (2 * n) (Suc l) b" "pl_walker b = Walking"
    using all_full [OF assms(1) a(2,3)] by blast
  obtain c j where c: "walker_step visit b c" "staged I K X n n (2 * n) l c" "pl_walker c = Offering j"
    using offered [OF assms(1) b(2,3)] by blast
  have "failing I K n 0 c" using c(2,3) by (simp add: failing_def staged_def quiet_def)
  from all_failed [OF assms(2) this order_refl]
  obtain d where "(copy_step visit copy)\<^sup>*\<^sup>* c d" "failing I K n n d" by blast
  with a(1) b(1) c(1) show ?thesis
    by (meson copy_step_def converse_rtranclp_into_rtranclp rtranclp_trans failed_hangs)
qed

section \<open>A cancelled copy that succeeds\<close>

text \<open>The walk is over and \<open>k\<close> workers have left; nothing was copied and no error recorded.\<close>

definition leaving :: "nat \<Rightarrow> nat \<Rightarrow> 'j \<Rightarrow> ('i, 'j, 'w) pool \<Rightarrow> bool" where
  "leaving n k j s \<longleftrightarrow> pl_walker s = Closed None \<and> pl_error s = None \<and> pl_jobs s = [] \<and>
     pl_copied s = [] \<and> pl_offered s = [j] \<and> length (pl_workers s) = n \<and>
     (\<forall>t < n. t < k \<longrightarrow> pl_workers s ! t = Gone) \<and> (\<forall>t < n. k \<le> t \<longrightarrow> pl_workers s ! t = Idle)"

lemma all_leave:
  assumes s: "leaving n 1 j s" and k: "Suc k \<le> n"
  shows "\<exists>s'. (pool_step visit copy)\<^sup>*\<^sup>* s s' \<and> leaving n (Suc k) j s'"
  using k
proof (induction k)
  case (Suc k)
  then obtain u where u: "(pool_step visit copy)\<^sup>*\<^sup>* s u" "leaving n (Suc k) j u" by auto
  then have "worker_step copy u (set_worker (Suc k) Gone u)" (is "worker_step copy u ?x")
    using Suc.prems by (intro Leave) (auto simp: leaving_def)
  moreover have "leaving n (Suc (Suc k)) j ?x"
    using u(2) Suc.prems by (auto simp: leaving_def nth_list_update less_Suc_eq)
  ultimately show ?case
    using u(1) by (meson copy_step_def pool_step_def rtranclp.rtrancl_into_rtrancl)
qed (use s in auto)

lemma pool_steps:
  shows walker_first: "walker_step visit s u \<Longrightarrow> (pool_step visit copy)\<^sup>*\<^sup>* u v \<Longrightarrow> (pool_step visit copy)\<^sup>*\<^sup>* s v"
    and worker_first: "worker_step copy s u \<Longrightarrow> (pool_step visit copy)\<^sup>*\<^sup>* u v \<Longrightarrow> (pool_step visit copy)\<^sup>*\<^sup>* s v"
    and cancel_first: "cancel_copy s u \<Longrightarrow> (pool_step visit copy)\<^sup>*\<^sup>* u v \<Longrightarrow> (pool_step visit copy)\<^sup>*\<^sup>* s v"
  by (rule converse_rtranclp_into_rtranclp, simp_all add: pool_step_def copy_step_def)+

lemma cancelled_succeeds:
  assumes run: "run_state (visit False None i) w = (Inr (Some j), v)" and n: "0 < n"
  shows "\<exists>s. (pool_step visit copy)\<^sup>*\<^sup>* (new_pool n [i] w) s \<and> copy_result s = Some None \<and>
     pl_offered s = [j] \<and> pl_copied s = []"
proof -
  let ?s = "new_pool n [i] w"
  let ?a = "?s\<lparr>pl_world := v, pl_entries := [], pl_walker := Offering j, pl_offered := [j]\<rparr>"
  let ?b = "?a\<lparr>pl_walker := Walking, pl_jobs := [j]\<rparr>"
  let ?c = "?b\<lparr>pl_walker := Closed None\<rparr>"
  let ?d = "?c\<lparr>pl_cancelled := True\<rparr>"
  let ?e = "set_worker 0 Gone (?d\<lparr>pl_jobs := []\<rparr>)"
  have a: "walker_step visit ?s ?a"
    using Visit_file [of ?s i "[]" visit j v] run by (simp add: new_pool_def)
  have b: "walker_step visit ?a ?b"
    using Send [of ?a j visit] n by (simp add: new_pool_def)
  have c: "walker_step visit ?b ?c" by (rule Walked) simp_all
  have d: "cancel_copy ?c ?d" by (rule Cancel_copy) (simp add: new_pool_def)
  have e: "worker_step copy ?d ?e" using n by (intro Drop) (simp_all add: new_pool_def)
  have e: "(pool_step visit copy)\<^sup>*\<^sup>* ?s ?e"
    by (rule walker_first [OF a walker_first [OF b walker_first [OF c cancel_first [OF d worker_first [OF e]]]]]) simp
  have "leaving n 1 j ?e" using n by (auto simp: leaving_def new_pool_def)
  from all_leave [OF this, of "n - 1"] n
  obtain x where x: "(pool_step visit copy)\<^sup>*\<^sup>* ?e x" "leaving n n j x" by fastforce
  from x(2) have "copy_result x = Some None"
    by (auto simp: leaving_def copy_result_def list_all_length)
  with e x show ?thesis by (meson leaving_def rtranclp_trans)
qed


section \<open>The two endings with the copy itself\<close>

text \<open>
  A special file, such as a socket, is sent to the workers and cannot be read, and no step of a copy
  replaces it.
\<close>

definition special_at :: "cpath \<Rightarrow> fsys \<Rightarrow> bool" where
  "special_at q f \<longleftrightarrow> (\<exists>n. lookup f q = Some n \<and> n_kind n = KSpecial)"

definition keeps_special :: "'z world_scheme \<Rightarrow> 'z world_scheme \<Rightarrow> bool" where
  "keeps_special w v \<longleftrightarrow> w_env v = w_env w \<and> (\<forall>q. special_at q (w_fs w) \<longrightarrow> special_at q (w_fs v))"

interpretation specials: effect keeps_special
  by unfold_locales (auto simp: keeps_special_def)

lemma same_keeps_special: "keeps same m \<Longrightarrow> keeps keeps_special m"
  by (erule achieves_rel_mono) (auto simp: same_def keeps_special_def)

lemma update_keeps_special:
  assumes "\<And>i f g q. u i f = Inr g \<Longrightarrow> special_at q f \<Longrightarrow> special_at q g"
  shows "keeps keeps_special (update u)"
  by (rule achieves_if_wp) (auto simp: wp_update keeps_special_def dest: assms split: sum.splits)

lemma create_keeps_special: "fs_create k perm i p f = Inr g \<Longrightarrow> special_at q f \<Longrightarrow> special_at q g"
  by (auto simp: fs_create_def special_at_def lookup_put split: if_splits)

lemma write_keeps_special: "fs_write c p f = Inr g \<Longrightarrow> special_at q f \<Longrightarrow> special_at q g"
  by (auto simp: fs_write_def special_at_def lookup_put is_regular_def split: if_splits option.splits)

lemma truncate_keeps_special: "fs_truncate perm i p f = Inr g \<Longrightarrow> special_at q f \<Longrightarrow> special_at q g"
  by (auto simp: fs_truncate_def split: option.splits if_splits dest: create_keeps_special write_keeps_special)

lemma mkdir_all_keeps_special: "keeps keeps_special (mkdir_all perm xs)"
proof (induction xs)
  case Nil
  show ?case by (auto intro!: same_keeps_special eff_intros)
next
  case (Cons x xs)
  have "keeps keeps_special (update (\<lambda>i. fs_create KDir perm i (rev (x # xs))) :: ('a world_scheme, _) state)"
    by (rule update_keeps_special) (rule create_keeps_special)
  then show ?case
    unfolding mkdir_all.simps
    by (intro specials.then_attempt specials.then_check Cons.IH specials.on_ret TrueI
        same_keeps_special [OF query_same])
qed

lemma copyFile_keeps_special: "keeps keeps_special (copyFile cancelled job)"
proof -
  have mkdir: "keeps keeps_special (os_MkdirAll q perm :: ('a world_scheme, _) state)" for q perm
    unfolding os_MkdirAll_def by (rule mkdir_all_keeps_special)
  have t: "keeps keeps_special (update (\<lambda>i. fs_truncate perm i p) :: ('a world_scheme, _) state)" for perm p
    by (rule update_keeps_special) (rule truncate_keeps_special)
  have w: "keeps keeps_special (update (\<lambda>_ f. fs_write c (follow f p) f) :: ('a world_scheme, _) state)" for c p
    by (rule update_keeps_special) (rule write_keeps_special)
  have c: "keeps keeps_special (io_step :: ('a world_scheme, _) state)"
    unfolding io_step_def by (rule update_keeps_special) simp
  show ?thesis
    unfolding copyFile_def
    by (intro specials.then_attempt specials.then_check specials.then_ignore specials.on_ret TrueI achieves_if
        same_keeps_special [OF reads_same(2)] same_keeps_special [OF reads_same(4)] t w c mkdir)
qed

text \<open>So a pool of special files on a machine without faults can hang.\<close>

definition sockets :: "cpath set \<Rightarrow> 'z world_scheme \<Rightarrow> bool" where
  "sockets X w \<longleftrightarrow> e_fault (w_env w) = (\<lambda>_. False) \<and> (\<forall>q \<in> X. special_at q (w_fs w))"

lemma sockets_offered:
  assumes "\<And>q. q \<in> X \<Longrightarrow> list_all proper q \<and> relative_to src q \<noteq> None"
  shows "offers_all (sockets X) (\<lambda>j :: copy_job. comps (cj_src j) \<in> X) (copy_visit src dst) X"
  unfolding offers_all_def
proof (intro ballI allI impI)
  fix q and w :: "'a world_scheme"
  assume q: "q \<in> X" and w: "sockets X w"
  obtain n where n: "lookup (w_fs w) q = Some n" "n_kind n = KSpecial"
    using q w by (auto simp: sockets_def special_at_def)
  obtain rel where rel: "relative_to src q = Some rel" using assms [OF q] by blast
  have "wp (copy_visit src dst False None q) (\<lambda>r v. (\<exists>j. r = Inr (Some j) \<and> comps (cj_src j) \<in> X) \<and> sockets X v) w"
    using n w q assms [OF q]
    by (auto simp: copy_visit_def wp_simps fs_lstat_def rel sockets_def is_dir_def is_link_def comps_render_rooted)
  then show "\<exists>j v. run_state (copy_visit src dst False None q) w = (Inr (Some j), v) \<and> sockets X v \<and>
      comps (cj_src j) \<in> X"
    by (fastforce simp: wp_def split: prod.splits)
qed

lemma sockets_fail: "fails_all (sockets X) (\<lambda>j :: copy_job. comps (cj_src j) \<in> X) copyFile"
  unfolding fails_all_def
proof (intro allI impI)
  fix j :: copy_job and w :: "'a world_scheme"
  assume j: "comps (cj_src j) \<in> X" and w: "sockets X w"
  obtain r v where run: "run_state (copyFile False j) w = (r, v)" by fastforce
  have "keeps_special w v" using achievesD [OF copyFile_keeps_special run] by blast
  then have v: "sockets X v" using w by (auto simp: sockets_def keeps_special_def)
  then have "fs_read (comps (cj_src j)) (w_fs v) = Inl EINVAL"
    using j by (auto simp: sockets_def special_at_def fs_read_def follow_def)
  with wp_runD [OF copyFile_spec run] have "r \<noteq> None" by auto
  with run v show "\<exists>e v. run_state (copyFile False j) w = (Some e, v) \<and> sockets X v" by auto
qed

lemma start_pool:
  assumes "CopyDirParallel_start src dst workers w = Inr p"
  obtains n u where "0 < n" and "p = new_pool n (copy_entries src (w_fs u)) u"
proof -
  obtain e u where run: "run_state (os_RemoveAll dst) w = (e, u)" by fastforce
  with assms have "p = new_pool (if workers \<le> 0 then defaultWorkers else nat workers) (copy_entries src (w_fs u)) u"
    by (auto simp: CopyDirParallel_start_def split: option.splits)
  moreover have "0 < (if workers \<le> 0 then defaultWorkers else nat workers)" by (simp add: defaultWorkers_def)
  ultimately show thesis by (rule that [rotated])
qed

lemma copy_hangs:
  assumes start: "CopyDirParallel_start src dst workers w = Inr p"
    and root: "pl_entries p = r # files" "run_state (copy_visit src dst False None r) (pl_world p) = (Inr None, v)"
    and files: "sockets (set files) v" "\<And>q. q \<in> set files \<Longrightarrow> list_all proper q \<and> relative_to src q \<noteq> None"
    and many: "3 * length (pl_workers p) < length files"
  shows "\<exists>s. (copy_step (copy_visit src dst) copyFile)\<^sup>*\<^sup>* p s \<and> hangs (copy_visit src dst) copyFile s"
proof -
  obtain n u where p: "p = new_pool n (copy_entries src (w_fs u)) u"
    using start by (rule start_pool)
  let ?s = "p\<lparr>pl_world := v, pl_entries := files\<rparr>"
  have "walker_step (copy_visit src dst) p ?s"
    using root by (intro Visit) (simp_all add: p new_pool_def)
  moreover have "staged (sockets (set files)) (\<lambda>j :: copy_job. comps (cj_src j) \<in> set files) (set files) n 0 0 (length files) ?s"
    using files(1) by (simp add: staged_def quiet_def p new_pool_def)
  from copy_may_hang [OF sockets_offered [OF files(2)] sockets_fail this]
  have "\<exists>s. (copy_step (copy_visit src dst) copyFile)\<^sup>*\<^sup>* ?s s \<and> hangs (copy_visit src dst) copyFile s"
    using many by (simp add: p new_pool_def)
  ultimately show ?thesis by (meson copy_step_def converse_rtranclp_into_rtranclp)
qed

lemma copy_cancelled:
  assumes start: "CopyDirParallel_start src dst workers w = Inr p" and entries: "pl_entries p = [i]"
    and visit: "run_state (copy_visit src dst False None i) (pl_world p) = (Inr (Some j), v)"
  shows "\<exists>s. (pool_step (copy_visit src dst) copyFile)\<^sup>*\<^sup>* p s \<and> copy_result s = Some None \<and>
     pl_offered s = [j] \<and> pl_copied s = []"
proof -
  obtain n u where n: "0 < n" and p: "p = new_pool n (copy_entries src (w_fs u)) u"
    using start by (rule start_pool)
  show ?thesis
    using cancelled_succeeds [of "copy_visit src dst" i, OF visit n] entries by (simp add: p new_pool_def)
qed

end
