(* ===== verification/Local_Packages.thy ===== *)
theory Local_Packages
  imports Source_Keys File_Copy "HOL-Library.AList"
begin

text \<open>
  Local Unity packages, \<open>workspace/local_packages.go\<close>: resolving the configured directories to a digest
  that does not depend on where they are, and embedding them in a workspace. The map of configured
  paths is an association list with distinct names; a decoded JSON object is one too. The copy of a
  directory is a parameter (its schedules are in \<open>File_Copy\<close>).
\<close>

section \<open>Resolving\<close>

record LocalPackageOverride =
  lp_Name :: string
  lp_SourcePath :: string
  lp_Version :: string
  lp_ContentDigest :: string
  lp_FileCount :: i64
  lp_LogicalBytes :: i64

definition unity_package_name :: "string \<Rightarrow> bool" where
  "unity_package_name s \<longleftrightarrow> s \<noteq> [] \<and> alnum (hd s) \<and> list_all ident_char (tl s)"

text \<open>\<open>json.Unmarshal\<close> into a struct: fields it does not have are skipped.\<close>

fun dec_known_fields ::
  "string list \<Rightarrow> (string \<Rightarrow> json \<Rightarrow> 'a \<Rightarrow> 'a option) \<Rightarrow> (string \<times> json) list \<Rightarrow> 'a \<Rightarrow> 'a option"
where
  "dec_known_fields keys put [] a = Some a"
| "dec_known_fields keys put ((k, j) # xs) a =
     (case resolve keys k of
        None \<Rightarrow> dec_known_fields keys put xs a
      | Some f \<Rightarrow> (case put f j a of None \<Rightarrow> None | Some b \<Rightarrow> dec_known_fields keys put xs b))"

record package_json =
  pj_Name :: string
  pj_Version :: string

definition package_put :: "string \<Rightarrow> json \<Rightarrow> package_json \<Rightarrow> package_json option" where
  "package_put k = (if k = ''name'' then set_str pj_Name_update else set_str pj_Version_update)"

definition dec_package :: "json \<Rightarrow> package_json option" where
  "dec_package j = (let zero = \<lparr>pj_Name = '''', pj_Version = ''''\<rparr> in
     case j of JNull \<Rightarrow> Some zero
     | JObj xs \<Rightarrow> dec_known_fields [''name'', ''version''] package_put xs zero
     | _ \<Rightarrow> None)"

text \<open>One round of the loop.\<close>

definition resolve_package ::
  "string \<Rightarrow> string \<Rightarrow> ('z world_scheme, err + LocalPackageOverride) state"
where
  "resolve_package name configured =
     (if \<not> unity_package_name name \<or> name = ''.'' \<or> name = ''..''
      then ret (Inl (Wrapped ''invalid Unity package name'' ErrInvalidInput))
      else let configuredPath = TrimSpace configured; path = Clean configuredPath in
      if \<not> IsAbs configuredPath \<or> HasPrefix path [CHR 0x5C, CHR 0x5C]
      then ret (Inl (Wrapped ''local package must use an absolute local path'' ErrInvalidInput))
      else
      let unreal = ret (Inl (Wrapped ''local package must be an existing real directory'' ErrInvalidInput)) in
      attempt (os_Lstat path) (\<lambda>_. unreal) (\<lambda>info.
      if \<not> is_dir info \<or> is_link info then unreal
      else attempt (os_ReadFile (Join [path, ''package.json'']))
        (\<lambda>e. ret (Inl (Wrapped ''read local package package.json'' e))) (\<lambda>content.
      case decode_single dec_package (stream content) of
        Inl e \<Rightarrow> ret (Inl (Wrapped ''decode local package package.json'' e))
      | Inr packageJSON \<Rightarrow>
          if pj_Name packageJSON \<noteq> name \<or> TrimSpace (pj_Version packageJSON) = ''''
          then ret (Inl (Wrapped ''local package identity mismatch'' ErrInvalidInput))
          else attempt (source_digestTree path) (\<lambda>e. ret (Inl (Wrapped ''hash local package'' e)))
            (\<lambda>(digest, count, logical). ret (Inr
              \<lparr>lp_Name = name, lp_SourcePath = path, lp_Version = pj_Version packageJSON,
               lp_ContentDigest = digest, lp_FileCount = count, lp_LogicalBytes = logical\<rparr>)))))"

fun resolve_packages ::
  "(string \<times> string) list \<Rightarrow> LocalPackageOverride list \<Rightarrow> string \<Rightarrow>
   ('z world_scheme, err + LocalPackageOverride list \<times> string) state"
where
  "resolve_packages [] resolved aggregate = ret (Inr (resolved, aggregate))"
| "resolve_packages ((name, path) # xs) resolved aggregate =
     attempt (resolve_package name path) (\<lambda>e. ret (Inl e)) (\<lambda>p.
       resolve_packages xs (resolved @ [p])
         (aggregate @ name @ [CHR 0x00] @ lp_ContentDigest p @ [CHR 0x00]))"

definition ResolveLocalPackageOverrides ::
  "(string \<times> string) list \<Rightarrow> ('z world_scheme, err + LocalPackageOverride list \<times> string) state"
where
  "ResolveLocalPackageOverrides configured =
     (if configured = [] then ret (Inr ([], ''''))
      else attempt (resolve_packages (sort_key fst configured) [] []) (\<lambda>e. ret (Inl e))
        (\<lambda>(resolved, aggregate). do {
          e \<leftarrow> env_get (\<lambda>e. e);
          ret (Inr (resolved, hashBytes e aggregate)) }))"

section \<open>JSON objects as maps\<close>

text \<open>
  Decoding into \<open>any\<close> makes every number a \<open>float64\<close>: an integer is rounded to 53 bits, ties to even,
  and one that is too large is an error. The last of two equal keys wins, and a map is written with its
  keys in order.
\<close>

definition round_float :: "int \<Rightarrow> int" where
  "round_float n = (let m = nat \<bar>n\<bar>; k = length (takeWhile (\<lambda>i. 2 ^ (53 + i) \<le> m) [0..<1024]) in
     if k = 0 then n
     else let q = m div 2 ^ k; r = m mod 2 ^ k; half = 2 ^ (k - 1);
              q' = (if half < r \<or> r = half \<and> odd q then q + 1 else q) in
       sgn n * int (q' * 2 ^ k))"

definition float_range :: "int \<Rightarrow> bool" where
  "float_range n \<longleftrightarrow> \<bar>n\<bar> < 2 ^ 1024 - 2 ^ 970"

definition last_wins :: "(string \<times> 'a) list \<Rightarrow> (string \<times> 'a) list" where
  "last_wins xs = fold (\<lambda>(k, j) m. AList.update k j m) xs []"

primrec to_any :: "json \<Rightarrow> json" where
  "to_any JNull = JNull"
| "to_any (JBool b) = JBool b"
| "to_any (JNum n) = JNum (round_float n)"
| "to_any (JStr s) = JStr s"
| "to_any (JTime t) = JTime t"
| "to_any (JArr xs) = JArr (map to_any xs)"
| "to_any (JObj xs) = JObj (sort_key fst (last_wins (map (map_prod id to_any) xs)))"

primrec any_range :: "json \<Rightarrow> bool" where
  "any_range JNull = True"
| "any_range (JBool b) = True"
| "any_range (JNum n) = float_range n"
| "any_range (JStr s) = True"
| "any_range (JTime t) = True"
| "any_range (JArr xs) = list_all id (map any_range xs)"
| "any_range (JObj xs) = list_all snd (map (map_prod id any_range) xs)"

type_synonym json_map = "(string \<times> json) list"

definition dec_map :: "json \<Rightarrow> json_map option" where
  "dec_map j = (if \<not> any_range j then None else case to_any j of
     JNull \<Rightarrow> Some [] | JObj xs \<Rightarrow> Some xs | _ \<Rightarrow> None)"

definition readJSONObject :: "string \<Rightarrow> ('z world_scheme, err + json_map) state" where
  "readJSONObject path = attempt (os_ReadFile path) (\<lambda>e. ret (Inl e))
     (\<lambda>c. ret (decode_single dec_map (stream c)))"

definition enc_map :: "json_map \<Rightarrow> json" where
  "enc_map m = JObj (sort_key fst m)"

definition writeJSONObject :: "string \<Rightarrow> json_map \<Rightarrow> ('z world_scheme, err option) state" where
  "writeJSONObject path value = do {
     e \<leftarrow> env_get (\<lambda>e. e);
     Write path (json_content e True (enc_map value)) 384 }"

section \<open>Embedding\<close>

text \<open>The assertion \<open>value[key].(map[string]any)\<close>.\<close>

definition map_field :: "json_map \<Rightarrow> string \<Rightarrow> json_map option" where
  "map_field m key = (case map_of m key of Some (JObj xs) \<Rightarrow> Some xs | _ \<Rightarrow> None)"

definition file_dependency :: "json_map \<Rightarrow> string \<Rightarrow> bool" where
  "file_dependency deps name = (case map_of deps name of
     Some (JStr s) \<Rightarrow> HasPrefix (TrimSpace s) ''file:'' | _ \<Rightarrow> False)"

definition embedded_entry :: "string \<Rightarrow> json_map \<Rightarrow> json_map" where
  "embedded_entry name entry = AList.delete ''hash'' (AList.update ''source'' (JStr ''embedded'')
     (AList.update ''depth'' (JNum 0) (AList.update ''version'' (JStr (''file:'' @ name)) entry)))"

text \<open>The loop over the packages, with the two dependency maps it changes in place.\<close>

fun embed_packages ::
  "(string \<Rightarrow> string \<Rightarrow> ('z world_scheme, err option) state) \<Rightarrow> string \<Rightarrow> LocalPackageOverride list \<Rightarrow>
   json_map \<Rightarrow> json_map \<Rightarrow> ('z world_scheme, err + json_map \<times> json_map) state"
where
  "embed_packages copyDir packagesRoot [] manifestDeps lockDeps = ret (Inr (manifestDeps, lockDeps))"
| "embed_packages copyDir packagesRoot (pkg # pkgs) manifestDeps lockDeps =
     (let name = lp_Name pkg; destination = Join [packagesRoot, name] in
      if \<not> file_dependency manifestDeps name
      then ret (Inl (Wrapped ''manifest dependency is missing or not a file dependency'' ErrInvalidInput))
      else case map_field lockDeps name of
        None \<Rightarrow> ret (Inl (Wrapped ''packages-lock entry is missing'' ErrInvalidInput))
      | Some lockEntry \<Rightarrow> do {
          r \<leftarrow> os_Lstat destination;
          (case r of
             Inr _ \<Rightarrow> ret (Inl (Wrapped ''embedded package destination already exists'' ErrOwnershipMismatch))
           | Inl e \<Rightarrow> if \<not> IsNotExist e then ret (Inl e)
               else check (copyDir (lp_SourcePath pkg) destination)
                 (\<lambda>e. ret (Inl (Wrapped ''copy local package'' e)))
                 (embed_packages copyDir packagesRoot pkgs (AList.delete name manifestDeps)
                   (AList.update name (JObj (embedded_entry name lockEntry)) lockDeps))) })"

definition ApplyLocalPackageOverrides ::
  "(string \<Rightarrow> string \<Rightarrow> ('z world_scheme, err option) state) \<Rightarrow> string \<Rightarrow> LocalPackageOverride list \<Rightarrow>
   ('z world_scheme, err option) state"
where
  "ApplyLocalPackageOverrides copyDir workspace packages =
     (if packages = [] then ret None
      else let packagesRoot = Join [workspace, ''Packages''];
               manifestPath = Join [packagesRoot, ''manifest.json''];
               lockPath = Join [packagesRoot, ''packages-lock.json''] in
      attempt (readJSONObject manifestPath) (\<lambda>e. ret (Some e)) (\<lambda>manifest.
      case map_field manifest ''dependencies'' of
        None \<Rightarrow> ret (Some (Wrapped ''manifest dependencies object is missing'' ErrInvalidInput))
      | Some manifestDeps \<Rightarrow>
      attempt (readJSONObject lockPath) (\<lambda>e. ret (Some e)) (\<lambda>lock.
      case map_field lock ''dependencies'' of
        None \<Rightarrow> ret (Some (Wrapped ''packages-lock dependencies object is missing'' ErrInvalidInput))
      | Some lockDeps \<Rightarrow>
      attempt (embed_packages copyDir packagesRoot packages manifestDeps lockDeps) (\<lambda>e. ret (Some e))
        (\<lambda>(manifestDeps, lockDeps).
      check (writeJSONObject manifestPath (AList.update ''dependencies'' (enc_map manifestDeps) manifest))
        (\<lambda>e. ret (Some e))
        (writeJSONObject lockPath (AList.update ''dependencies'' (enc_map lockDeps) lock))))))"

section \<open>What resolving says\<close>

definition package_at :: "string \<Rightarrow> string \<Rightarrow> fsys \<Rightarrow> env \<Rightarrow> LocalPackageOverride \<Rightarrow> bool" where
  "package_at name configured f e p \<longleftrightarrow> unity_package_name name \<and> lp_Name p = name \<and>
     lp_SourcePath p = Clean (TrimSpace configured) \<and> IsAbs (TrimSpace configured) \<and>
     (\<exists>n. lookup f (comps (lp_SourcePath p)) = Some n \<and> is_dir n) \<and>
     (\<exists>c. fs_read (comps (Join [lp_SourcePath p, ''package.json''])) f = Inr c \<and>
        decode_single dec_package (stream c) = Inr \<lparr>pj_Name = name, pj_Version = lp_Version p\<rparr>) \<and>
     lp_ContentDigest p = digest_of_source e f (lp_SourcePath p)"

lemma reading_content: "reading (\<lambda>f e c. fs_read (comps path) f = Inr c) (os_ReadFile path)"
  by (rule readingI) (auto simp: wp_simps call_defs reads_as_def)

lemma reading_digestTree:
  "reading (\<lambda>f e (d, c, s). d = digest_of_source e f root) (source_digestTree root)"
  by (rule reading_mono [where P = "\<lambda>f e (d, c, s). d = hashBytes e (source_stream (source_files root f)) \<and>
      c = of_nat (length (source_files root f))", OF readingI [OF source_digestTree_spec]])
    (auto simp: digest_of_source_def)

lemma package_json_eta: "pj_Name p = name \<Longrightarrow> p = \<lparr>pj_Name = name, pj_Version = pj_Version p\<rparr>"
  by simp

lemma reading_resolve_package:
  "reading (package_at name configured) (resolve_package name configured)"
  unfolding resolve_package_def Let_def
  apply (intro reading_if reading_ret(2))
  apply (rule reading_attempt [OF reading_lstat], rule reading_ret)
  apply (intro reading_if reading_ret(2))
  apply (rule reading_attempt [OF reading_content], rule reading_ret)
  subgoal for info c
    apply (cases "decode_single dec_package (stream c)")
     apply (simp add: reading_ret)
    apply simp
    apply (intro conjI impI reading_ret(2))
    apply (rule reading_attempt [OF reading_digestTree], rule reading_ret)
    apply (rule reading_case_prod, rule reading_case_prod, rule reading_ret(1))
    apply (auto simp: package_at_def intro: package_json_eta)
    done
  done

definition aggregate_text :: "(string \<times> string) list \<Rightarrow> string" where
  "aggregate_text xs = concat (map (\<lambda>(name, digest). name @ [CHR 0x00] @ digest @ [CHR 0x00]) xs)"

text \<open>What the aggregate is made of: names and contents, not paths.\<close>

definition package_contents :: "LocalPackageOverride list \<Rightarrow> (string \<times> string) list" where
  "package_contents ps = map (\<lambda>p. (lp_Name p, lp_ContentDigest p)) ps"

lemma reading_resolve_packages:
  "reading (\<lambda>f e (ps, a). \<exists>qs. ps = resolved @ qs \<and> list_all2 (\<lambda>(n, c). package_at n c f e) xs qs \<and>
     a = aggregate @ aggregate_text (package_contents qs))
     (resolve_packages xs resolved aggregate :: ('z world_scheme, err + LocalPackageOverride list \<times> string) state)"
proof (induction xs arbitrary: resolved aggregate)
  case Nil
  show ?case by (auto intro!: reading_ret simp: aggregate_text_def package_contents_def)
next
  case (Cons x xs)
  obtain n c where x: "x = (n, c)" by fastforce
  show ?case
    unfolding x resolve_packages.simps
    by (rule reading_attempt [OF reading_resolve_package], rule reading_ret, rule reading_mono [OF Cons.IH])
      (auto simp: aggregate_text_def package_contents_def package_at_def intro!: exI [of _ "_ # _"])
qed

definition resolved_overrides ::
  "(string \<times> string) list \<Rightarrow> fsys \<Rightarrow> env \<Rightarrow> LocalPackageOverride list \<times> string \<Rightarrow> bool"
where
  "resolved_overrides configured f e r \<longleftrightarrow>
     list_all2 (\<lambda>(n, c). package_at n c f e) (sort_key fst configured) (fst r) \<and>
     snd r = (if configured = [] then '''' else hashBytes e (aggregate_text (package_contents (fst r))))"

lemma reading_overrides:
  "reading (resolved_overrides configured) (ResolveLocalPackageOverrides configured)"
  unfolding ResolveLocalPackageOverrides_def
  apply (intro reading_if)
   apply (rule reading_ret(1), simp add: resolved_overrides_def)
  apply (rule reading_attempt [OF reading_resolve_packages], rule reading_ret)
  apply (rule reading_case_prod, rule reading_env, rule reading_ret(1))
  apply (auto simp: resolved_overrides_def)
  done

section \<open>The aggregate digest\<close>

lemma package_name_no_nul: "unity_package_name s \<Longrightarrow> CHR 0x00 \<notin> set s"
proof -
  have "\<not> alnum (CHR 0x00)" "\<not> ident_char (CHR 0x00)"
    by (simp_all add: alnum_def ident_char_def ascii_between_def)
  then show "unity_package_name s \<Longrightarrow> CHR 0x00 \<notin> set s"
    by (cases s) (auto simp: unity_package_name_def list_all_iff)
qed

lemma aggregate_text_inj:
  "list_all (\<lambda>(n, d). CHR 0x00 \<notin> set n \<and> CHR 0x00 \<notin> set d) xs \<Longrightarrow>
   list_all (\<lambda>(n, d). CHR 0x00 \<notin> set n \<and> CHR 0x00 \<notin> set d) ys \<Longrightarrow>
   aggregate_text xs = aggregate_text ys \<Longrightarrow> xs = ys"
proof -
  have split: "split_on (CHR 0x00) (aggregate_text zs) = concat (map (\<lambda>(n, d). [n, d]) zs) @ [[]]"
    if "list_all (\<lambda>(n, d). CHR 0x00 \<notin> set n \<and> CHR 0x00 \<notin> set d) zs" for zs
    using that by (induction zs) (auto simp: aggregate_text_def split_on_append)
  have flat: "concat (map (\<lambda>(n, d). [n, d]) us) = concat (map (\<lambda>(n, d). [n, d]) vs) \<Longrightarrow> us = vs"
    for us vs :: "(string \<times> string) list"
    by (induction us vs rule: list_induct2') auto
  assume xs: "list_all (\<lambda>(n, d). CHR 0x00 \<notin> set n \<and> CHR 0x00 \<notin> set d) xs"
    and ys: "list_all (\<lambda>(n, d). CHR 0x00 \<notin> set n \<and> CHR 0x00 \<notin> set d) ys"
    and eq: "aggregate_text xs = aggregate_text ys"
  show "xs = ys" by (rule flat) (use split [OF xs] split [OF ys] eq in simp)
qed

lemma overrides_no_nul:
  assumes "resolved_overrides configured f e r"
  shows "list_all (\<lambda>(n, d). CHR 0x00 \<notin> set n \<and> CHR 0x00 \<notin> set d) (package_contents (fst r))"
proof -
  have "list_all2 (\<lambda>(n, c). package_at n c f e) (sort_key fst configured) (fst r)"
    using assms by (simp add: resolved_overrides_def)
  then show ?thesis
    by (induction rule: list_all2_induct)
      (auto simp: package_contents_def package_at_def package_name_no_nul digest_of_source_def hashBytes_no_nul)
qed

lemma overrides_digest:
  assumes r: "resolved_overrides c f e r" "resolved_overrides c' f' e r'" and ne: "c \<noteq> []" "c' \<noteq> []"
    and hash: "e_sha256 e (aggregate_text (package_contents (fst r))) =
        e_sha256 e (aggregate_text (package_contents (fst r'))) \<Longrightarrow>
      aggregate_text (package_contents (fst r)) = aggregate_text (package_contents (fst r'))"
  shows "snd r = snd r' \<longleftrightarrow> package_contents (fst r) = package_contents (fst r')"
proof
  assume "snd r = snd r'"
  then have "aggregate_text (package_contents (fst r)) = aggregate_text (package_contents (fst r'))"
    using r ne hash by (auto simp: resolved_overrides_def hashBytes_def dest: hex_encode_inj)
  then show "package_contents (fst r) = package_contents (fst r')"
    using aggregate_text_inj overrides_no_nul r by blast
qed (use r ne in \<open>simp add: resolved_overrides_def\<close>)


section \<open>What embedding does\<close>

text \<open>The edit of the two dependency maps, as a function of what was read.\<close>

fun embedded ::
  "LocalPackageOverride list \<Rightarrow> json_map \<times> json_map \<Rightarrow> (json_map \<times> json_map) option"
where
  "embedded [] ds = Some ds"
| "embedded (pkg # pkgs) (manifestDeps, lockDeps) =
     (if \<not> file_dependency manifestDeps (lp_Name pkg) then None
      else case map_field lockDeps (lp_Name pkg) of None \<Rightarrow> None
        | Some entry \<Rightarrow> embedded pkgs (AList.delete (lp_Name pkg) manifestDeps,
            AList.update (lp_Name pkg) (JObj (embedded_entry (lp_Name pkg) entry)) lockDeps))"

text \<open>The entries of a package after its embedding.\<close>

definition is_embedded :: "string \<Rightarrow> json_map \<times> json_map \<Rightarrow> bool" where
  "is_embedded name ds \<longleftrightarrow> map_of (fst ds) name = None \<and>
     (\<exists>entry. map_field (snd ds) name = Some entry \<and> map_of entry ''source'' = Some (JStr ''embedded'') \<and>
        map_of entry ''version'' = Some (JStr (''file:'' @ name)) \<and>
        map_of entry ''depth'' = Some (JNum 0) \<and> map_of entry ''hash'' = None)"

lemma embedded_entry_is:
  "is_embedded name (AList.delete name m, AList.update name (JObj (embedded_entry name entry)) l)"
  by (simp add: is_embedded_def embedded_entry_def map_field_def update_conv' delete_conv')

lemma embedded_keeps:
  assumes "embedded pkgs ds = Some ds'" and "is_embedded name ds"
  shows "is_embedded name ds'"
  using assms
proof (induction pkgs ds rule: embedded.induct)
  case (2 pkg pkgs m l)
  then obtain entry where e: "file_dependency m (lp_Name pkg)" "map_field l (lp_Name pkg) = Some entry"
      "embedded pkgs (AList.delete (lp_Name pkg) m,
         AList.update (lp_Name pkg) (JObj (embedded_entry (lp_Name pkg) entry)) l) = Some ds'"
    by (auto split: if_splits option.splits)
  with "2.prems"(2) have "lp_Name pkg \<noteq> name" by (auto simp: is_embedded_def file_dependency_def)
  with "2.prems"(2) have "is_embedded name (AList.delete (lp_Name pkg) m,
      AList.update (lp_Name pkg) (JObj (embedded_entry (lp_Name pkg) entry)) l)"
    by (auto simp: is_embedded_def map_field_def update_conv' delete_conv')
  with "2.IH" e show ?case by simp
qed simp

lemma embedded_all:
  "embedded pkgs ds = Some ds' \<Longrightarrow> p \<in> set pkgs \<Longrightarrow> is_embedded (lp_Name p) ds'"
proof (induction pkgs ds rule: embedded.induct)
  case (2 pkg pkgs m l)
  then obtain entry where e: "file_dependency m (lp_Name pkg)" "map_field l (lp_Name pkg) = Some entry"
      "embedded pkgs (AList.delete (lp_Name pkg) m,
         AList.update (lp_Name pkg) (JObj (embedded_entry (lp_Name pkg) entry)) l) = Some ds'"
    by (auto split: if_splits option.splits)
  show ?case
  proof (cases "p = pkg")
    case True
    with embedded_keeps [OF e(3) embedded_entry_is] show ?thesis by simp
  next
    case False
    with "2.IH" [OF _ e(2,3)] e(1) "2.prems"(2) show ?thesis by simp
  qed
qed simp

text \<open>A package that is embedded twice, or is there already, stops the embedding.\<close>

lemma embed_packages_spec:
  assumes "\<And>a b. keeps (writes UNIV) (copyDir a b :: ('z world_scheme, err option) state)"
  shows "wp (embed_packages copyDir root pkgs m l) (\<lambda>r v. w_env v = w_env w \<and>
     (\<forall>ds. r = Inr ds \<longrightarrow> embedded pkgs (m, l) = Some ds)) (w :: 'z world_scheme)"
proof (induction pkgs arbitrary: m l w)
  case (Cons pkg pkgs)
  have rest: "wp (embed_packages copyDir root pkgs m' l') (\<lambda>r v. w_env v = w_env u \<and>
      (\<forall>ds. r = Inr ds \<longrightarrow> embedded pkgs (m', l') = Some ds)) x"
    if "w_env x = w_env u" for m' l' and x u :: "'z world_scheme"
    using Cons.IH [of m' l' x] that by simp
  have copy: "wp (copyDir a b) (\<lambda>r v. w_env v = w_env u) u" for a b and u :: "'z world_scheme"
    using achieves_wp [OF assms [of a b], of u] by (rule wp_mono) (simp add: writes_def)
  show ?case
  proof (cases "file_dependency m (lp_Name pkg)"; cases "map_field l (lp_Name pkg)")
    fix entry
    assume d: "file_dependency m (lp_Name pkg)" "map_field l (lp_Name pkg) = Some entry"
    show ?thesis
      unfolding embed_packages.simps Let_def
      by (simp add: d, rule wp_bindI [OF os_read_specs(1)])
        (auto simp: wp_ret same_def split: sum.split intro!: wp_checkI [OF copy] wp_mono [OF rest])
  qed (simp_all add: wp_simps)
qed (simp add: wp_simps)

text \<open>
  A successful application leaves both files with the edited dependencies of what was read, provided
  the names the two writes go through are no links.
\<close>

definition manifest_of :: "cpath \<Rightarrow> fsys \<Rightarrow> json_map \<Rightarrow> json_map \<Rightarrow> bool" where
  "manifest_of p f m deps \<longleftrightarrow> map_field m ''dependencies'' = Some deps \<and>
     (\<exists>c. fs_read p f = Inr c \<and> decode_single dec_map (stream c) = Inr m)"

lemma readJSONObject_spec:
  "wp (readJSONObject path) (\<lambda>r v. same w v \<and> (\<forall>m. r = Inr m \<longrightarrow>
     (\<exists>c. fs_read (comps path) (w_fs w) = Inr c \<and> decode_single dec_map (stream c) = Inr m))) w"
  unfolding readJSONObject_def
  by (rule wp_attemptI [OF os_read_specs(4)]) (auto simp: wp_ret dest: sym)

lemma writeJSONObject_spec:
  assumes "no_link (comps (path @ ''.tmp'')) (w_fs w)" and "comps (path @ ''.tmp'') \<noteq> comps path"
  shows "wp (writeJSONObject path m) (\<lambda>r v.
     writes (subtree (comps (path @ ''.tmp'')) \<union> subtree (comps path)) w v \<and>
     (r = None \<longrightarrow> holds (comps path) (json_content (w_env w) True (enc_map m)) (w_fs v))) w"
  unfolding writeJSONObject_def by (simp add: env_get_def wp_simps Write_success [OF assms])

lemma package_name_proper:
  assumes "unity_package_name s" and "s \<noteq> ''.''" and "s \<noteq> ''..''"
  shows "proper s"
proof -
  have "\<not> alnum slash" "\<not> ident_char slash"
    by (simp_all add: alnum_def ident_char_def ascii_between_def)
  then show ?thesis using assms
    by (cases s) (auto simp: unity_package_name_def proper_def list_all_iff)
qed

definition plain_package :: "string \<Rightarrow> bool" where
  "plain_package s \<longleftrightarrow> unity_package_name s \<and> s \<notin> {''manifest.json.tmp'', ''packages-lock.json.tmp''}"

text \<open>A package name begins with a letter or a digit, so it is neither \<open>.\<close> nor \<open>..\<close>.\<close>

lemma plain_package_proper: "plain_package s \<Longrightarrow> proper s"
proof (rule package_name_proper)
  have "\<not> alnum (CHR 0x2E)" by (simp add: alnum_def ascii_between_def)
  then show "plain_package s \<Longrightarrow> s \<noteq> ''.''" "plain_package s \<Longrightarrow> s \<noteq> ''..''"
    by (auto simp: plain_package_def unity_package_name_def)
qed (simp add: plain_package_def)

lemma embed_packages_apart:
  assumes abs: "IsAbs root" and names: "\<forall>p \<in> set pkgs. plain_package (lp_Name p)"
    and copy: "\<And>a b. keeps (writes (subtree (comps b))) (copyDir a b :: ('z world_scheme, err option) state)"
  shows "keeps (writes (\<Union>p \<in> set pkgs. subtree (comps root @ [lp_Name p])))
     (embed_packages copyDir root pkgs m l :: ('z world_scheme, _) state)"
  using names
proof (induction pkgs arbitrary: m l)
  case (Cons p pkgs)
  let ?S = "\<Union>q \<in> set (p # pkgs). subtree (comps root @ [lp_Name q])"
  have c: "keeps (writes ?S) (copyDir a (Join [root, lp_Name p]) :: ('z world_scheme, err option) state)" for a
    using Cons.prems abs by (intro frame_mono [OF copy]) (auto simp: comps_Join plain_package_proper)
  have r: "keeps (writes ?S) (embed_packages copyDir root pkgs m' l' :: ('z world_scheme, _) state)" for m' l'
    using Cons.prems by (intro frame_mono [OF Cons.IH]) auto
  show ?case
    unfolding embed_packages.simps Let_def by (intro eff_intros c r) simp_all
qed (auto intro: eff_intros)

lemma render_suffix: "render True (ps @ [x]) @ s = render True (ps @ [x @ s])"
  by (induction ps) (auto simp: render_def intercalate_Cons)

lemma comps_Join_suffix:
  assumes "IsAbs a" and "list_all proper (bs @ [x])" and "proper (x @ s)"
  shows "comps (Join (a # bs @ [x]) @ s) = comps a @ bs @ [x @ s]"
proof -
  have "Join (a # bs @ [x]) @ s = render True ((comps a @ bs) @ [x @ s])"
    using assms Join_render [of a "bs @ [x]"] render_suffix [of "comps a @ bs" x s] by simp
  then show ?thesis using assms comps_proper [of a] by (simp add: comps_render_rooted)
qed

text \<open>What a successful application leaves in the two files.\<close>

definition overrides_applied :: "env \<Rightarrow> cpath \<Rightarrow> LocalPackageOverride list \<Rightarrow> fsys \<Rightarrow> fsys \<Rightarrow> bool" where
  "overrides_applied e root pkgs f g \<longleftrightarrow> (\<exists>manifest deps lock locked deps' locked'.
     manifest_of (root @ [''manifest.json'']) f manifest deps \<and>
     manifest_of (root @ [''packages-lock.json'']) f lock locked \<and>
     embedded pkgs (deps, locked) = Some (deps', locked') \<and>
     (\<forall>p \<in> set pkgs. is_embedded (lp_Name p) (deps', locked')) \<and>
     holds (root @ [''manifest.json''])
       (json_content e True (enc_map (AList.update ''dependencies'' (enc_map deps') manifest))) g \<and>
     holds (root @ [''packages-lock.json''])
       (json_content e True (enc_map (AList.update ''dependencies'' (enc_map locked') lock))) g)"

lemma overrides_appliedI:
  "manifest_of (root @ [''manifest.json'']) f m md \<Longrightarrow> manifest_of (root @ [''packages-lock.json'']) f l ld \<Longrightarrow>
   embedded pkgs (md, ld) = Some (md', ld') \<Longrightarrow>
   holds (root @ [''manifest.json'']) (json_content e True (enc_map (AList.update ''dependencies'' (enc_map md') m))) g \<Longrightarrow>
   holds (root @ [''packages-lock.json'']) (json_content e True (enc_map (AList.update ''dependencies'' (enc_map ld') l))) g \<Longrightarrow>
   overrides_applied e root pkgs f g"
  unfolding overrides_applied_def using embedded_all by blast

lemma same_steps:
  "same w v \<Longrightarrow> writes S v x \<Longrightarrow> writes S w x"
  by (auto simp: same_def writes_def)

lemma holds_kept: "holds p c (w_fs v) \<Longrightarrow> writes S v x \<Longrightarrow> p \<notin> S \<Longrightarrow> holds p c (w_fs x)"
  by (simp add: holds_def writes_lookup)

lemma no_link_kept: "no_link p (w_fs v) \<Longrightarrow> writes S v x \<Longrightarrow> p \<notin> S \<Longrightarrow> no_link p (w_fs x)"
  by (simp add: no_link_def writes_lookup)

lemma Apply_spec:
  fixes w :: "'z world_scheme"
  assumes abs: "IsAbs workspace" and names: "\<forall>p \<in> set pkgs. plain_package (lp_Name p)"
    and copy: "\<And>a b. keeps (writes (subtree (comps b))) (copyDir a b :: ('z world_scheme, err option) state)"
    and tmp: "no_link (comps workspace @ [''Packages'', ''manifest.json.tmp'']) (w_fs w)"
      "no_link (comps workspace @ [''Packages'', ''packages-lock.json.tmp'']) (w_fs w)"
  shows "wp (ApplyLocalPackageOverrides copyDir workspace pkgs) (\<lambda>r v. r = None \<longrightarrow> pkgs \<noteq> [] \<longrightarrow>
     overrides_applied (w_env w) (comps workspace @ [''Packages'']) pkgs (w_fs w) (w_fs v)) w"
proof -
  let ?root = "Join [workspace, ''Packages'']" and ?R = "comps workspace @ [''Packages'']"
  let ?M = "''manifest.json''" and ?L = "''packages-lock.json''"
  have props: "proper ''Packages''" "proper ?M" "proper ?L" "proper (?M @ ''.tmp'')" "proper (?L @ ''.tmp'')"
    by (simp_all add: proper_def)
  have root: "IsAbs ?root" "comps ?root = ?R" using abs props by (simp_all add: comps_Join IsAbs_Join)
  have path: "comps (Join [?root, x]) = ?R @ [x]" "comps (Join [?root, x] @ ''.tmp'') = ?R @ [x @ ''.tmp'']"
    if "x = ?M \<or> x = ?L" for x
    using that comps_Join_suffix [of ?root "[]" x "''.tmp''"] root props by (auto simp: comps_Join)
  let ?S = "\<Union>p \<in> set pkgs. subtree (?R @ [lp_Name p])"
  have kept: "?R @ [x @ ''.tmp''] \<notin> ?S" if "x = ?M \<or> x = ?L" for x
    using that names by (auto simp: plain_package_def)
  have emb: "wp (embed_packages copyDir ?root pkgs m l) (\<lambda>r x. writes ?S w x \<and>
      (\<forall>ds. r = Inr ds \<longrightarrow> embedded pkgs (m, l) = Some ds)) v" if "same w v" for m l and v :: "'z world_scheme"
  proof (rule wp_mono [OF wp_conj [OF achieves_wp [OF embed_packages_apart [OF root(1) names copy]]
        embed_packages_spec [OF frame_mono [OF copy]]]])
    fix r and x :: "'z world_scheme"
    assume "(writes (\<Union>p\<in>set pkgs. subtree (comps ?root @ [lp_Name p])) v x \<and> True) \<and>
      w_env x = w_env v \<and> (\<forall>ds. r = Inr ds \<longrightarrow> embedded pkgs (m, l) = Some ds)"
    with that show "writes ?S w x \<and> (\<forall>ds. r = Inr ds \<longrightarrow> embedded pkgs (m, l) = Some ds)"
      by (auto simp: root intro: same_steps)
  qed simp
  have lock: "wp (writeJSONObject (Join [?root, ?L]) l) (\<lambda>r y. r = None \<longrightarrow>
      holds (?R @ [?M]) c (w_fs y) \<and> holds (?R @ [?L]) (json_content (w_env w) True (enc_map l)) (w_fs y)) x"
    if x: "writes T w x" "?R @ [?L @ ''.tmp''] \<notin> T" "holds (?R @ [?M]) c (w_fs x)"
    for c l T and x :: "'z world_scheme"
  proof -
    have n: "no_link (comps (Join [?root, ?L] @ ''.tmp'')) (w_fs x)"
      using no_link_kept [OF _ x(1,2)] tmp(2) by (simp add: path)
    have "w_env x = w_env w" using x(1) by (simp add: writes_def)
    then show ?thesis
      using x(3) by (intro wp_mono [OF writeJSONObject_spec [OF n]]) (auto simp: path elim!: holds_kept)
  qed
  have manifest: "wp (writeJSONObject (Join [?root, ?M]) m) (\<lambda>r y. r = None \<longrightarrow>
      writes (?S \<union> subtree (?R @ [?M @ ''.tmp'']) \<union> subtree (?R @ [?M])) w y \<and>
      holds (?R @ [?M]) (json_content (w_env w) True (enc_map m)) (w_fs y)) x"
    if x: "writes ?S w x" for m and x :: "'z world_scheme"
  proof -
    have n: "no_link (comps (Join [?root, ?M] @ ''.tmp'')) (w_fs x)"
      using no_link_kept [OF _ x kept [of ?M]] tmp(1) by (simp add: path)
    have "w_env x = w_env w" using x by (simp add: writes_def)
    moreover have "writes (?S \<union> subtree (?R @ [?M @ ''.tmp'']) \<union> subtree (?R @ [?M])) w y"
      if "writes (subtree (?R @ [?M @ ''.tmp'']) \<union> subtree (?R @ [?M])) x y" for y
      by (rule writes_trans [OF writes_mono [OF x] writes_mono [OF that]]) auto
    ultimately show ?thesis
      using wp_mono [OF writeJSONObject_spec [OF n, of m]] by (simp add: path)
  qed
  let ?T = "?S \<union> subtree (?R @ [?M @ ''.tmp'']) \<union> subtree (?R @ [?M])"
  have T: "?R @ [?L @ ''.tmp''] \<notin> ?T" using kept [of ?L] by simp
  let ?Q = "\<lambda>r v. r = None \<longrightarrow> pkgs \<noteq> [] \<longrightarrow> overrides_applied (w_env w) ?R pkgs (w_fs w) (w_fs v)"
  have tail: "wp (attempt (embed_packages copyDir ?root pkgs md ld) (\<lambda>e. ret (Some e))
        (\<lambda>(md', ld'). check (writeJSONObject (Join [?root, ?M]) (AList.update ''dependencies'' (enc_map md') m))
          (\<lambda>e. ret (Some e)) (writeJSONObject (Join [?root, ?L]) (AList.update ''dependencies'' (enc_map ld') l)))) ?Q v"
    if v: "same w v" and m: "manifest_of (?R @ [?M]) (w_fs w) m md" and l: "manifest_of (?R @ [?L]) (w_fs w) l ld"
    for m md l ld and v :: "'z world_scheme"
  proof (rule wp_attemptI [OF emb [OF v]])
    fix ds and x :: "'z world_scheme"
    assume x: "writes ?S w x \<and> (\<forall>es. Inr ds = Inr es \<longrightarrow> embedded pkgs (md, ld) = Some es)"
    obtain md' ld' where ds: "ds = (md', ld')" by fastforce
    have "wp (check (writeJSONObject (Join [?root, ?M]) (AList.update ''dependencies'' (enc_map md') m))
        (\<lambda>e. ret (Some e)) (writeJSONObject (Join [?root, ?L]) (AList.update ''dependencies'' (enc_map ld') l))) ?Q x"
    proof (rule wp_checkI [OF manifest [OF conjunct1 [OF x]]])
      fix y :: "'z world_scheme"
      let ?c = "json_content (w_env w) True (enc_map (AList.update ''dependencies'' (enc_map md') m))"
      assume "None = None \<longrightarrow> writes ?T w y \<and> holds (?R @ [?M]) ?c (w_fs y)"
      then have y: "writes ?T w y" "holds (?R @ [?M]) ?c (w_fs y)" by simp_all
      show "wp (writeJSONObject (Join [?root, ?L]) (AList.update ''dependencies'' (enc_map ld') l)) ?Q y"
        using x ds m l by (intro wp_mono [OF lock [OF y(1) T y(2)]]) (auto intro: overrides_appliedI [OF m l])
    qed (simp add: wp_ret)
    then show "wp (case ds of (md', ld') \<Rightarrow>
        check (writeJSONObject (Join [?root, ?M]) (AList.update ''dependencies'' (enc_map md') m))
          (\<lambda>e. ret (Some e)) (writeJSONObject (Join [?root, ?L]) (AList.update ''dependencies'' (enc_map ld') l))) ?Q x"
      by (simp add: ds)
  qed (simp add: wp_ret)
  have reads: "wp (readJSONObject (Join [?root, x])) (\<lambda>r u. same w u \<and> (\<forall>m md. r = Inr m \<longrightarrow>
      map_field m ''dependencies'' = Some md \<longrightarrow> manifest_of (?R @ [x]) (w_fs w) m md)) v"
    if "same w v" "x = ?M \<or> x = ?L" for x and v :: "'z world_scheme"
    using that by (intro wp_mono [OF readJSONObject_spec])
      (auto simp: path manifest_of_def dest: same_trans sameD)
  show ?thesis
  proof (cases "pkgs = []")
    case False
    show ?thesis
      unfolding ApplyLocalPackageOverrides_def Let_def if_not_P [OF False]
    proof (rule wp_attemptI [OF reads [OF same_refl]], simp, goal_cases)
      case (2 m v)
      show ?case
      proof (cases "map_field m ''dependencies''")
        case (Some md)
        with 2 have v: "same w v" and m: "manifest_of (?R @ [?M]) (w_fs w) m md" by simp_all
        show ?thesis
          unfolding Some option.case
        proof (rule wp_attemptI [OF reads [OF v, of ?L]], simp, goal_cases)
          case (2 l x)
          show ?case
            by (cases "map_field l ''dependencies''") (use 2 tail [OF _ m, of x l] in \<open>simp_all add: wp_ret\<close>)
        qed (simp add: wp_ret)
      qed (simp add: wp_ret)
    qed (simp add: wp_ret)
  qed (simp add: ApplyLocalPackageOverrides_def wp_ret)
qed

end
