(* ===== verification/Broker_Types.thy ===== *)
theory Broker_Types
  imports Store "HOL-Library.AList"
begin

text \<open>
  The broker's wire types (\<open>workspace/protocol.go\<close>), its owner file (\<open>WorkspaceOwner\<close> in
  \<open>workspace/types.go\<close>), the interface of its storage provider (\<open>workspace/native.go\<close>) and its state
  (\<open>BrokerConfig\<close> and \<open>Broker\<close> in \<open>workspace/broker.go\<close>). A type whose name the daemon's contract
  uses too is prefixed with \<open>Broker\<close>.
\<close>

section \<open>Requests and responses\<close>

definition OperationHello :: string where "OperationHello = ''hello''"
definition OperationBeginParentBuild :: string where "OperationBeginParentBuild = ''begin-parent-build''"
definition OperationCommitParent :: string where "OperationCommitParent = ''commit-parent''"
definition OperationAbortParent :: string where "OperationAbortParent = ''abort-parent''"
definition BrokerOperationAcquire :: string where "BrokerOperationAcquire = ''acquire''"
definition OperationHeartbeat :: string where "OperationHeartbeat = ''heartbeat''"
definition BrokerOperationRelease :: string where "BrokerOperationRelease = ''release''"
definition OperationAttachRetained :: string where "OperationAttachRetained = ''attach-retained''"
definition OperationRemoveRetained :: string where "OperationRemoveRetained = ''remove-retained''"
definition BrokerOperationStatus :: string where "BrokerOperationStatus = ''status''"
definition OperationAdmit :: string where "OperationAdmit = ''admit''"
definition OperationGC :: string where "OperationGC = ''gc''"

lemmas broker_operations = OperationHello_def OperationBeginParentBuild_def OperationCommitParent_def
  OperationAbortParent_def BrokerOperationAcquire_def OperationHeartbeat_def
  BrokerOperationRelease_def OperationAttachRetained_def OperationRemoveRetained_def
  BrokerOperationStatus_def OperationAdmit_def OperationGC_def

record BrokerRequest =
  bq_SchemaVersion :: int
  bq_Operation :: string
  bq_RequestID :: string
  bq_UserSID :: string
  bq_RunID :: string
  bq_WorkspaceID :: string
  bq_WorkspaceRoot :: string
  bq_ParentKey :: "CompatibilityKey option"
  bq_Source :: "SourceSnapshot option"
  bq_LeaseID :: string
  bq_TransactionID :: string
  bq_ClientPID :: int
  bq_UnityPID :: int
  bq_RetainChild :: bool
  bq_DryRun :: bool
  bq_StoreMaxAllocatedBytes :: i64
  bq_MinimumHostFreeBytes :: i64

record ParentBuild =
  pb_TransactionID :: string
  pb_ParentKey :: string
  pb_MountPath :: string
  pb_State :: string

record BrokerLease =
  bl_LeaseID :: string
  bl_RunID :: string
  bl_ParentKey :: string
  bl_MountPath :: string
  bl_State :: string
  bl_CreatedAt :: int
  bl_Retained :: bool
  bl_PhysicalPath :: string
  bl_VolumeGUID :: string

record BrokerMetrics =
  bm_ParentStatus :: string
  bm_ParentCreated :: bool
  bm_ParentReused :: bool
  bm_ParentBuildMs :: i64
  bm_ParentVerifyMs :: i64
  bm_ParentVirtualBytes :: i64
  bm_ParentAllocatedBytes :: i64
  bm_ChildCreateMs :: i64
  bm_ChildAttachMs :: i64
  bm_ChildMountMs :: i64
  bm_ChildReleaseMs :: i64
  bm_ChildReadyBytes :: i64
  bm_ChildPeakBytes :: i64
  bm_ChildReleasedBytes :: i64
  bm_ChildReadyMeasured :: bool
  bm_ChildPeakMeasured :: bool
  bm_ChildReleasedMeasured :: bool
  bm_CleanupState :: string
  bm_Capacity :: Capacity

text \<open>The broker's \<open>Error\<close>: \<open>Message\<close> is the text of the cause.\<close>

record BrokerError =
  be_Code :: string
  be_Operation :: string
  be_Path :: string
  be_Cause :: "err option"

record BrokerResponse =
  bs_SchemaVersion :: int
  bs_RequestID :: string
  bs_OK :: bool
  bs_Provider :: string
  bs_BrokerVersion :: string
  bs_WorkspaceRoot :: string
  bs_StoreRoot :: string
  bs_Parent :: "ParentMetadata option"
  bs_ParentBuild :: "ParentBuild option"
  bs_Lease :: "BrokerLease option"
  bs_Metrics :: "BrokerMetrics option"
  bs_Status :: "StoreStatus option"
  bs_Error :: "BrokerError option"

definition zero_capacity :: Capacity where
  "zero_capacity = \<lparr>cp_QuotaBytes = 0, cp_AllocatedBytes = 0, cp_ReclaimableBytes = 0,
     cp_HostFreeBytes = 0, cp_HostFloorBytes = 0, cp_ReserveBytes = 0\<rparr>"

definition zero_metrics :: BrokerMetrics where
  "zero_metrics = \<lparr>bm_ParentStatus = '''', bm_ParentCreated = False, bm_ParentReused = False,
     bm_ParentBuildMs = 0, bm_ParentVerifyMs = 0, bm_ParentVirtualBytes = 0,
     bm_ParentAllocatedBytes = 0, bm_ChildCreateMs = 0, bm_ChildAttachMs = 0, bm_ChildMountMs = 0,
     bm_ChildReleaseMs = 0, bm_ChildReadyBytes = 0, bm_ChildPeakBytes = 0, bm_ChildReleasedBytes = 0,
     bm_ChildReadyMeasured = False, bm_ChildPeakMeasured = False, bm_ChildReleasedMeasured = False,
     bm_CleanupState = '''', bm_Capacity = zero_capacity\<rparr>"

definition zero_broker_response :: BrokerResponse where
  "zero_broker_response = \<lparr>bs_SchemaVersion = 0, bs_RequestID = '''', bs_OK = False, bs_Provider = '''',
     bs_BrokerVersion = '''', bs_WorkspaceRoot = '''', bs_StoreRoot = '''', bs_Parent = None,
     bs_ParentBuild = None, bs_Lease = None, bs_Metrics = None, bs_Status = None, bs_Error = None\<rparr>"

definition zero_broker_request :: BrokerRequest where
  "zero_broker_request = \<lparr>bq_SchemaVersion = 0, bq_Operation = '''', bq_RequestID = '''',
     bq_UserSID = '''', bq_RunID = '''', bq_WorkspaceID = '''', bq_WorkspaceRoot = '''',
     bq_ParentKey = None, bq_Source = None, bq_LeaseID = '''', bq_TransactionID = '''',
     bq_ClientPID = 0, bq_UnityPID = 0, bq_RetainChild = False, bq_DryRun = False,
     bq_StoreMaxAllocatedBytes = 0, bq_MinimumHostFreeBytes = 0\<rparr>"

text \<open>\<open>NewRequest\<close> of \<open>workspace/client.go\<close>.\<close>

definition BrokerNewRequest :: "string \<Rightarrow> string \<Rightarrow> BrokerRequest" where
  "BrokerNewRequest operation requestID = zero_broker_request\<lparr>bq_SchemaVersion := ProtocolSchemaVersion,
     bq_Operation := operation, bq_RequestID := requestID\<rparr>"

section \<open>The owner file of a workspace\<close>

record WorkspaceOwner =
  ow_SchemaVersion :: int
  ow_Provider :: string
  ow_LeaseID :: string
  ow_RunID :: string
  ow_WorkspaceID :: string
  ow_WorkspacePath :: string
  ow_MountPath :: string
  ow_OwnershipToken :: string
  ow_CreatedAt :: int

definition WorkspaceOwnerSchemaVersion :: int where
  "WorkspaceOwnerSchemaVersion = 1"

definition broker_owner_put :: "string \<Rightarrow> json \<Rightarrow> WorkspaceOwner \<Rightarrow> WorkspaceOwner option" where
  "broker_owner_put k =
     (if k = ''schemaVersion'' then set_int ow_SchemaVersion_update
      else if k = ''provider'' then set_str ow_Provider_update
      else if k = ''leaseId'' then set_str ow_LeaseID_update
      else if k = ''runId'' then set_str ow_RunID_update
      else if k = ''workspaceId'' then set_str ow_WorkspaceID_update
      else if k = ''workspacePath'' then set_str ow_WorkspacePath_update
      else if k = ''mountPath'' then set_str ow_MountPath_update
      else if k = ''ownershipToken'' then set_str ow_OwnershipToken_update
      else set_time ow_CreatedAt_update)"

definition dec_broker_owner :: "json \<Rightarrow> WorkspaceOwner option" where
  "dec_broker_owner = dec_obj [''schemaVersion'', ''provider'', ''leaseId'', ''runId'', ''workspaceId'',
     ''workspacePath'', ''mountPath'', ''ownershipToken'', ''createdAt''] broker_owner_put
     \<lparr>ow_SchemaVersion = 0, ow_Provider = '''', ow_LeaseID = '''', ow_RunID = '''',
      ow_WorkspaceID = '''', ow_WorkspacePath = '''', ow_MountPath = '''', ow_OwnershipToken = '''',
      ow_CreatedAt = 0\<rparr>"

definition enc_broker_owner :: "WorkspaceOwner \<Rightarrow> json" where
  "enc_broker_owner w = JObj
     [(''schemaVersion'', JNum (ow_SchemaVersion w)), (''provider'', JStr (ow_Provider w)),
      (''leaseId'', JStr (ow_LeaseID w)), (''runId'', JStr (ow_RunID w)),
      (''workspaceId'', JStr (ow_WorkspaceID w)), (''workspacePath'', JStr (ow_WorkspacePath w)),
      (''mountPath'', JStr (ow_MountPath w)), (''ownershipToken'', JStr (ow_OwnershipToken w)),
      (''createdAt'', JTime (ow_CreatedAt w))]"

lemma dec_enc_broker_owner: "go_int (ow_SchemaVersion w) \<Longrightarrow> dec_broker_owner (enc_broker_owner w) = Some w"
  by (cases w) (simp add: dec_broker_owner_def enc_broker_owner_def dec_obj_def broker_owner_put_def codec_simps)

section \<open>The provider\<close>

text \<open>
  \<open>Native\<close> with its sessions. A session is a handle, and the methods of \<open>ParentSession\<close> and
  \<open>ChildSession\<close> are operations on handles. \<open>Info\<close> and \<open>FileIdentity\<close> only read.
\<close>

type_synonym session = nat

record ParentEvidence =
  ev_FileIdentity :: FileIdentity
  ev_Volume :: VolumeIdentity
  ev_LogicalBytes :: i64
  ev_AllocatedBytes :: i64
  ev_SHA256 :: string
  ev_FileWriteTime :: int

type_synonym 'w transition = "string \<Rightarrow> string \<Rightarrow> string \<Rightarrow> ('w, err option) state"

record 'w Native =
  nv_Platform :: string
  nv_Available :: "('w, err option) state"
  nv_BeginParent :: "PendingParent \<Rightarrow> ('w, err + session) state"
  nv_VerifyParent :: "ParentMetadata \<Rightarrow> ('w, err option) state"
  nv_AcquireChild :: "ParentMetadata \<Rightarrow> LeaseJournal \<Rightarrow> 'w transition \<Rightarrow>
     ('w, err + session \<times> BrokerMetrics) state"
  nv_AttachChild :: "ParentMetadata \<Rightarrow> LeaseJournal \<Rightarrow> ('w, err + session \<times> BrokerMetrics) state"
  nv_BootSessionID :: string
  nv_ProcessAlive :: "int \<Rightarrow> ('w, bool) state"
  nv_HostFreeBytes :: "string \<Rightarrow> ('w, err + i64) state"
  nv_Finalize :: "session \<Rightarrow> ('w, err + ParentEvidence) state"
  nv_Abort :: "session \<Rightarrow> ('w, err option) state"
  nv_Info :: "session \<Rightarrow> 'w \<Rightarrow> BrokerLease"
  nv_FileIdentity :: "session \<Rightarrow> 'w \<Rightarrow> FileIdentity"
  nv_Usage :: "session \<Rightarrow> ('w, err + i64) state"
  nv_Release :: "session \<Rightarrow> bool \<Rightarrow> ('w, err + BrokerMetrics) state"

text \<open>The provider of a platform without one: \<open>workspace/native_unsupported.go\<close>. It makes no session.\<close>

definition windows_required :: err where
  "windows_required = Wrapped ''Windows is required'' ErrBrokerUnavailable"

definition no_session :: BrokerLease where
  "no_session = \<lparr>bl_LeaseID = '''', bl_RunID = '''', bl_ParentKey = '''', bl_MountPath = '''',
     bl_State = '''', bl_CreatedAt = 0, bl_Retained = False, bl_PhysicalPath = '''', bl_VolumeGUID = ''''\<rparr>"

definition unsupportedNative :: "'w Native" where
  "unsupportedNative = \<lparr>nv_Platform = ''unsupported'', nv_Available = ret (Some windows_required),
     nv_BeginParent = (\<lambda>_. ret (Inl windows_required)),
     nv_VerifyParent = (\<lambda>_. ret (Some windows_required)),
     nv_AcquireChild = (\<lambda>_ _ _. ret (Inl windows_required)),
     nv_AttachChild = (\<lambda>_ _. ret (Inl windows_required)), nv_BootSessionID = '''',
     nv_ProcessAlive = (\<lambda>_. ret False), nv_HostFreeBytes = (\<lambda>_. ret (Inl windows_required)),
     nv_Finalize = (\<lambda>_. ret (Inl windows_required)), nv_Abort = (\<lambda>_. ret (Some windows_required)),
     nv_Info = (\<lambda>_ _. no_session), nv_FileIdentity = (\<lambda>_ _. \<lparr>fi_VolumeSerial = '''', fi_FileID = ''''\<rparr>),
     nv_Usage = (\<lambda>_. ret (Inl windows_required)), nv_Release = (\<lambda>_ _. ret (Inl windows_required))\<rparr>"

section \<open>The broker's state\<close>

record BrokerConfig =
  bc_StoreRoot :: string
  bc_WorkspaceRoot :: string
  bc_UserSID :: string
  bc_QuotaBytes :: i64
  bc_HostFloorBytes :: i64
  bc_ChildReserveBytes :: i64
  bc_ParentTTL :: int

text \<open>
  \<open>bk_journal\<close> is the local variable \<open>journal\<close> of \<open>acquire\<close>, which the closure passed to the provider
  changes while the provider runs. A map of sessions is an association list with one entry per key.
\<close>

record broker = world +
  bk_config :: BrokerConfig
  bk_store :: Paths
  bk_parents :: "(string \<times> session) list"
  bk_pending :: "(string \<times> PendingParent) list"
  bk_children :: "(string \<times> session) list"
  bk_journal :: LeaseJournal
  bk_requests :: "string \<Rightarrow> BrokerResponse option"

type_synonym 'a bop = "(broker, 'a) state"

record RecoverySummary =
  sm_Released :: int
  sm_Preserved :: int
  sm_Quarantined :: int

end
