(* ===== verification/Unix_Storage.thy ===== *)
theory Unix_Storage
  imports Clone_Tree
begin

text \<open>
  The Unix storage backend, \<open>storage/lifecycle_unix.go\<close> and \<open>storage/unix_recovery.go\<close>: a lease
  is a clone of a parent directory below the store root, marked with an ownership file, and
  a symbolic link to it at the mount path. Release and recovery act only on the very
  directory that was acquired: its device and inode, lease identity and token must match.
\<close>

section \<open>Data\<close>

record Metrics =
  mt_TotalWallClockMs :: "i64 option"
  mt_AcquireWallClockMs :: "i64 option"
  mt_ReleaseWallClockMs :: "i64 option"
  mt_ChildCreateMs :: "i64 option"
  mt_MountCallMs :: "i64 option"
  mt_WorkspaceReadyMs :: "i64 option"
  mt_UnmountCallMs :: "i64 option"
  mt_CleanupMs :: "i64 option"
  mt_ChildReadyLogicalBytes :: "i64 option"
  mt_ChildReleasedLogicalBytes :: "i64 option"
  mt_ChildReadyAllocatedBytes :: "i64 option"
  mt_ChildReleasedAllocatedBytes :: "i64 option"

definition no_metrics :: Metrics where
  "no_metrics = \<lparr>mt_TotalWallClockMs = None, mt_AcquireWallClockMs = None,
     mt_ReleaseWallClockMs = None, mt_ChildCreateMs = None, mt_MountCallMs = None,
     mt_WorkspaceReadyMs = None, mt_UnmountCallMs = None, mt_CleanupMs = None,
     mt_ChildReadyLogicalBytes = None, mt_ChildReleasedLogicalBytes = None,
     mt_ChildReadyAllocatedBytes = None, mt_ChildReleasedAllocatedBytes = None\<rparr>"

record AcquireRequest =
  rq_ParentPath :: string
  rq_ChildPath :: string
  rq_MountPath :: string
  rq_StoreRoot :: string
  rq_LeaseID :: string

record fileIdentity =
  id_device :: "64 word"
  id_inode :: "64 word"

record ownershipMarker =
  om_SchemaVersion :: int
  om_LeaseID :: string
  om_OwnerToken :: string

record childOwnership =
  co_storeRoot :: string
  co_childPath :: string
  co_leaseID :: string
  co_ownerToken :: string
  co_identity :: fileIdentity

record LeaseInfo =
  li_ParentPath :: string
  li_ChildPath :: string
  li_MountPath :: string

record unixLease =
  ul_info :: LeaseInfo
  ul_ownership :: childOwnership
  ul_mountExisted :: bool
  ul_mountMode :: "32 word"
  ul_released :: bool
  ul_metrics :: Metrics

record UnixLeaseSnapshot =
  sn_StoreRoot :: string
  sn_ParentPath :: string
  sn_ChildPath :: string
  sn_MountPath :: string
  sn_LeaseID :: string
  sn_OwnerToken :: string
  sn_Device :: "64 word"
  sn_Inode :: "64 word"
  sn_MountExisted :: bool
  sn_MountMode :: "32 word"

definition ownershipMarkerName :: string where
  "ownershipMarkerName = ''.testplay-storage-owner''"

definition quarantineNamePrefix :: string where
  "quarantineNamePrefix = ''.testplay-delete-''"

definition ownershipMarkerSchemaVersion :: int where
  "ownershipMarkerSchemaVersion = 1"

definition maximumOwnershipMarkerBytes :: nat where
  "maximumOwnershipMarkerBytes = 4096"

definition ownershipTokenBytes :: nat where
  "ownershipTokenBytes = 32"

definition newError :: "string \<Rightarrow> string \<Rightarrow> string \<Rightarrow> err option \<Rightarrow> err" where
  "newError code operation path cause = StorageError code operation path cause"

definition ownershipLost :: "string \<Rightarrow> string \<Rightarrow> string \<Rightarrow> err option \<Rightarrow> err" where
  "ownershipLost operation path condition cause =
     newError ''child-ownership-lost'' operation path
       (Some (case cause of None \<Rightarrow> Text condition | Some e \<Rightarrow> Wrapped condition e))"

definition enc_marker :: "ownershipMarker \<Rightarrow> json" where
  "enc_marker m = JObj [(''schemaVersion'', JNum (om_SchemaVersion m)),
     (''leaseId'', JStr (om_LeaseID m)), (''ownerToken'', JStr (om_OwnerToken m))]"

definition dec_marker :: "json \<Rightarrow> ownershipMarker option" where
  "dec_marker = dec_obj [''schemaVersion'', ''leaseId'', ''ownerToken'']
     (\<lambda>k. if k = ''schemaVersion'' then set_int om_SchemaVersion_update
          else if k = ''leaseId'' then set_str om_LeaseID_update
          else set_str om_OwnerToken_update)
     \<lparr>om_SchemaVersion = 0, om_LeaseID = '''', om_OwnerToken = ''''\<rparr>"

section \<open>Clock and tokens\<close>

definition trunc_div :: "int \<Rightarrow> int \<Rightarrow> int" where
  "trunc_div a b = sgn a * (\<bar>a\<bar> div b)"

text \<open>\<open>milliseconds(time.Since(start).Milliseconds())\<close>.\<close>

definition since_ms :: "int \<Rightarrow> ('z world_scheme, i64 option) state" where
  "since_ms start = do {
     now \<leftarrow> time_Now;
     ret (Some (word_of_int (trunc_div (now - start) 1000000))) }"

definition randomToken :: "('z world_scheme, err + string) state" where
  "randomToken = attempt (rand_Read ownershipTokenBytes) (\<lambda>e. ret (Inl e))
     (\<lambda>value. ret (Inr (hex_encode value)))"

type_synonym 'w ProgressFunc = "(string \<Rightarrow> ('w, err option) state) option"

definition notify :: "'w ProgressFunc \<Rightarrow> string \<Rightarrow> ('w, err option) state" where
  "notify progress value = (case progress of None \<Rightarrow> ret None | Some f \<Rightarrow> f value)"

section \<open>Validation\<close>

definition validateOwnershipInputs :: "AcquireRequest \<Rightarrow> ('z world_scheme, err option) state" where
  "validateOwnershipInputs request =
     (if rq_StoreRoot request = '''' then
        ret (Some (newError ''child-create-failed'' ''validate-child-ownership'' (rq_ChildPath request)
          (Some (Text ''store root is required''))))
      else if rq_LeaseID request = '''' then
        ret (Some (newError ''child-create-failed'' ''validate-child-ownership'' (rq_ChildPath request)
          (Some (Text ''lease ID is required''))))
      else attempt (os_Lstat (rq_StoreRoot request))
        (\<lambda>e. ret (Some (newError ''child-create-failed'' ''stat-store-root'' (rq_StoreRoot request) (Some e))))
        (\<lambda>storeInfo.
          if \<not> is_dir storeInfo \<or> is_link storeInfo then
            ret (Some (newError ''child-create-failed'' ''validate-store-root'' (rq_StoreRoot request)
              (Some (Text ''store root must be a real directory''))))
          else if \<not> pathWithinRoot (rq_StoreRoot request) (rq_ChildPath request) then
            ret (Some (ownershipLost ''validate-child-boundary'' (rq_ChildPath request)
              ''child path is not below store root'' None))
          else ret None))"

definition clone_source_visit :: "string \<Rightarrow> cpath \<Rightarrow> err + node \<Rightarrow> err option" where
  "clone_source_visit root q r = (case r of
       Inl walkErr \<Rightarrow> Some (newError ''unsafe-source'' ''walk-source'' (render True q) (Some walkErr))
     | Inr n \<Rightarrow>
         if render True q \<noteq> root \<and> Base (render True q) = ownershipMarkerName then
           Some (newError ''unsafe-source'' ''validate-source'' (render True q)
             (Some (Text ''reserved ownership marker is not allowed in a clone source'')))
         else if is_link n then
           Some (newError ''unsafe-source'' ''validate-source'' (render True q)
             (Some (Text ''symbolic links are not allowed'')))
         else if is_dir n then None
         else if \<not> is_regular n then
           Some (newError ''unsafe-source'' ''validate-source'' (render True q)
             (Some (Text ''special files are not allowed'')))
         else None)"

definition validateCloneSource :: "string \<Rightarrow> ('z world_scheme, err option) state" where
  "validateCloneSource root = WalkCheck root (clone_source_visit root)"

definition identityFromFileInfo :: "node \<Rightarrow> ('z world_scheme, fileIdentity) state" where
  "identityFromFileInfo info = do {
     dev \<leftarrow> env_get e_dev;
     ret \<lparr>id_device = dev, id_inode = n_ino info\<rparr> }"

definition validateChildIdentity ::
  "childOwnership \<Rightarrow> string \<Rightarrow> ('z world_scheme, err option) state"
where
  "validateChildIdentity ownership path =
     attempt (os_Lstat path)
       (\<lambda>e. ret (Some (ownershipLost ''identify-child'' path
              ''child path is missing or cannot be inspected'' (Some e))))
       (\<lambda>info.
         if \<not> is_dir info \<or> is_link info then
           ret (Some (ownershipLost ''identify-child'' path
             ''child is not the acquired real directory'' None))
         else do {
           identity \<leftarrow> identityFromFileInfo info;
           if identity \<noteq> co_identity ownership then
             ret (Some (ownershipLost ''identify-child'' path
               ''child device/inode identity does not match the acquired object''
               (Some (Text ''identity''))))
           else ret None })"

definition marker_stream :: "env \<Rightarrow> content \<Rightarrow> json option list" where
  "marker_stream e c =
     (if length (bytes c) \<le> maximumOwnershipMarkerBytes + 1 then stream c
      else e_limited e (bytes c))"

definition readOwnershipMarker :: "string \<Rightarrow> ('z world_scheme, err + ownershipMarker) state" where
  "readOwnershipMarker path =
     attempt (os_Lstat path) (\<lambda>e. ret (Inl e)) (\<lambda>pathInfo.
     if is_link pathInfo \<or> \<not> is_regular pathInfo then
       ret (Inl (Text ''marker must be a regular non-symlink file''))
     else attempt (os_ReadFile path) (\<lambda>e. ret (Inl e)) (\<lambda>data.
     attempt (os_Stat path) (\<lambda>e. ret (Inl e)) (\<lambda>openInfo.
     attempt (os_Lstat path) (\<lambda>e. ret (Inl e)) (\<lambda>currentInfo.
     if is_link currentInfo \<or> \<not> is_regular currentInfo \<or> n_ino openInfo \<noteq> n_ino currentInfo then
       ret (Inl (Text ''marker path changed while being opened''))
     else do {
       e \<leftarrow> env_get (\<lambda>e. e);
       ret (decode_single dec_marker (marker_stream e data)) }))))"

definition validateChildTraversal :: "string \<Rightarrow> ('z world_scheme, err option) state" where
  "validateChildTraversal root = WalkCheck root (\<lambda>q r. case r of
       Inl e \<Rightarrow> Some e
     | Inr _ \<Rightarrow> if \<not> pathWithinOrEqual root (render True q)
                then Some (Text ''path is outside root'') else None)"

definition validateOwnedChildAt ::
  "childOwnership \<Rightarrow> string \<Rightarrow> ('z world_scheme, err option) state"
where
  "validateOwnedChildAt ownership path =
     (if \<not> pathWithinRoot (co_storeRoot ownership) path then
        ret (Some (ownershipLost ''validate-child-boundary'' path
          ''child path is not below store root'' None))
      else check (validateChildIdentity ownership path) (\<lambda>e. ret (Some e)) (
      attempt (readOwnershipMarker (Join [path, ownershipMarkerName]))
        (\<lambda>e. ret (Some (ownershipLost ''validate-ownership-marker'' path
          ''ownership marker is missing, unsafe, or unreadable'' (Some e))))
        (\<lambda>marker.
          if om_SchemaVersion marker \<noteq> ownershipMarkerSchemaVersion then
            ret (Some (ownershipLost ''validate-ownership-marker'' path
              ''ownership marker schema does not match'' (Some (Text ''schema''))))
          else if om_LeaseID marker \<noteq> co_leaseID ownership then
            ret (Some (ownershipLost ''validate-ownership-marker'' path
              ''ownership marker lease ID does not match'' (Some (Text ''lease''))))
          else if om_OwnerToken marker \<noteq> co_ownerToken ownership then
            ret (Some (ownershipLost ''validate-ownership-marker'' path
              ''ownership marker token does not match'' None))
          else check (validateChildTraversal path)
            (\<lambda>e. ret (Some (ownershipLost ''validate-child-traversal'' path
               ''child traversal escaped its root or failed'' (Some e))))
            (validateChildIdentity ownership path))))"

section \<open>Establishing ownership\<close>

definition createOwnershipMarker ::
  "string \<Rightarrow> ownershipMarker \<Rightarrow> ('z world_scheme, err option) state"
where
  "createOwnershipMarker childPath marker =
     (let markerPath = Join [childPath, ownershipMarkerName] in
      check (open_excl markerPath 384) (\<lambda>e. ret (Some e)) (do {
        e \<leftarrow> env_get (\<lambda>e. e);
        marshalErr \<leftarrow> check (file_write markerPath (json_content e False (enc_marker marker)))
          (\<lambda>x. ret (Some x)) file_sync;
        closeErr \<leftarrow> file_close;
        ret (join_errs [marshalErr, closeErr]) }))"

definition establishChildOwnership ::
  "AcquireRequest \<Rightarrow> ('z world_scheme, err + childOwnership) state"
where
  "establishChildOwnership request =
     attempt (os_Lstat (rq_ChildPath request))
       (\<lambda>e. ret (Inl (ownershipLost ''stat-created-child'' (rq_ChildPath request)
              ''created child cannot be inspected'' (Some e))))
     (\<lambda>info.
       if \<not> is_dir info \<or> is_link info then
         ret (Inl (ownershipLost ''validate-created-child'' (rq_ChildPath request)
           ''created child is not a real directory'' None))
       else do {
         identity \<leftarrow> identityFromFileInfo info;
         attempt randomToken
           (\<lambda>e. ret (Inl (newError ''child-create-failed'' ''create-owner-token''
                  (rq_ChildPath request) (Some e))))
         (\<lambda>token.
           let marker = \<lparr>om_SchemaVersion = ownershipMarkerSchemaVersion,
                         om_LeaseID = rq_LeaseID request, om_OwnerToken = token\<rparr> in
           check (createOwnershipMarker (rq_ChildPath request) marker)
             (\<lambda>e. ret (Inl (newError ''child-create-failed'' ''create-ownership-marker''
                    (Join [rq_ChildPath request, ownershipMarkerName]) (Some e))))
           (let ownership = \<lparr>co_storeRoot = rq_StoreRoot request, co_childPath = rq_ChildPath request,
                             co_leaseID = rq_LeaseID request, co_ownerToken = token,
                             co_identity = identity\<rparr> in
            check (validateOwnedChildAt ownership (rq_ChildPath request)) (\<lambda>e. ret (Inl e))
              (ret (Inr ownership)))) })"

section \<open>Removal\<close>

definition removeOwnedMount :: "string \<Rightarrow> string \<Rightarrow> ('z world_scheme, err option) state" where
  "removeOwnedMount mountPath childPath =
     attempt (os_Lstat mountPath)
       (\<lambda>e. ret (Some (if IsNotExist e
              then newError ''mount-ownership-lost'' ''release-mount'' mountPath (Some e)
              else newError ''unmount-failed'' ''stat-mount'' mountPath (Some e))))
     (\<lambda>info.
       if \<not> is_link info then
         ret (Some (newError ''mount-ownership-lost'' ''validate-mount'' mountPath
           (Some (Text ''mount is no longer the helper-owned symbolic link''))))
       else attempt (os_Readlink mountPath)
         (\<lambda>e. ret (Some (newError ''unmount-failed'' ''read-mount'' mountPath (Some e))))
       (\<lambda>target.
         if Clean target \<noteq> Clean childPath then
           ret (Some (newError ''mount-ownership-lost'' ''validate-mount'' mountPath
             (Some (Text ''target''))))
         else check (os_Remove mountPath)
           (\<lambda>e. ret (Some (newError ''unmount-failed'' ''remove-mount'' mountPath (Some e))))
           (ret None)))"

definition chooseQuarantinePath :: "childOwnership \<Rightarrow> ('z world_scheme, err + string) state" where
  "chooseQuarantinePath ownership =
     attempt randomToken
       (\<lambda>e. ret (Inl (newError ''cleanup-failed'' ''create-quarantine-name''
              (co_childPath ownership) (Some e))))
     (\<lambda>token.
       let path = Join [Dir (co_childPath ownership), quarantineNamePrefix @ token] in
       if Dir (Clean path) \<noteq> Dir (Clean (co_childPath ownership)) \<or>
          \<not> HasPrefix (Base path) quarantineNamePrefix \<or>
          \<not> pathWithinRoot (co_storeRoot ownership) path then
         ret (Inl (newError ''cleanup-failed'' ''validate-quarantine-path'' path
           (Some (Text ''quarantine must use the reserved name prefix beside the child''))))
       else attempt (os_Lstat path)
         (\<lambda>e. if IsNotExist e then ret (Inr path)
              else ret (Inl (newError ''cleanup-failed'' ''reserve-quarantine-path'' path (Some e))))
         (\<lambda>_. ret (Inl (newError ''cleanup-failed'' ''reserve-quarantine-path'' path
            (Some (Text ''quarantine destination already exists''))))))"

definition removal_visit ::
  "string \<Rightarrow> cpath \<Rightarrow> err + node \<Rightarrow> unit \<Rightarrow> ('z world_scheme, err + unit) state"
where
  "removal_visit root q r acc = (case r of
       Inl e \<Rightarrow> ret (Inl e)
     | Inr n \<Rightarrow>
         if \<not> pathWithinOrEqual root (render True q) then
           ret (Inl (Text ''path is outside root''))
         else if is_dir n then
           check (os_Chmod (render True q) 448) (\<lambda>e. ret (Inl e)) (ret (Inr ()))
         else ret (Inr ()))"

definition prepareChildRemoval :: "string \<Rightarrow> ('z world_scheme, err option) state" where
  "prepareChildRemoval root = do {
     r \<leftarrow> WalkDir root (removal_visit root) ();
     ret (err_unit r) }"

definition removeOwnedChild :: "childOwnership \<Rightarrow> ('z world_scheme, err option) state" where
  "removeOwnedChild ownership =
     check (validateOwnedChildAt ownership (co_childPath ownership)) (\<lambda>e. ret (Some e)) (
     attempt (chooseQuarantinePath ownership) (\<lambda>e. ret (Some e)) (\<lambda>quarantinePath.
     check (renameNoReplace (co_childPath ownership) quarantinePath)
       (\<lambda>e. ret (Some (newError ''cleanup-failed'' ''quarantine-child'' (co_childPath ownership)
              (Some (Wrapped ''destination'' e))))) (
     check (validateOwnedChildAt ownership quarantinePath)
       (\<lambda>e. do {
         let revalidationErr = ownershipLost ''revalidate-quarantined-child''
               (co_childPath ownership) ''quarantine ownership verification failed''
               (Some (Wrapped ''quarantine'' e));
         check (validateChildIdentity ownership quarantinePath)
           (\<lambda>_. ret (Some revalidationErr))
           (check (renameNoReplace quarantinePath (co_childPath ownership))
             (\<lambda>restoreErr. ret (join_errs [Some revalidationErr,
                Some (newError ''cleanup-failed'' ''restore-quarantined-child''
                  (co_childPath ownership) (Some (Wrapped ''quarantine'' restoreErr)))]))
             (ret (Some revalidationErr))) }) (
     check (prepareChildRemoval quarantinePath)
       (\<lambda>e. ret (Some (newError ''cleanup-failed'' ''prepare-child-removal'' quarantinePath (Some e)))) (
     check (os_RemoveAll quarantinePath)
       (\<lambda>e. ret (Some (newError ''cleanup-failed'' ''remove-quarantined-child'' quarantinePath (Some e))))
       (ret None))))))"

section \<open>Acquire\<close>

text \<open>
  The closure \<open>fail\<close> of \<open>Acquire\<close>; its arguments are the variables it captures. A partial
  clone without a verified marker is left in place.
\<close>

definition acquire_fail ::
  "AcquireRequest \<Rightarrow> bool \<Rightarrow> 32 word \<Rightarrow> bool \<Rightarrow> childOwnership option \<Rightarrow> bool \<Rightarrow> int \<Rightarrow> Metrics \<Rightarrow> err \<Rightarrow>
   ('z world_scheme, (err + unixLease) \<times> Metrics) state"
where
  "acquire_fail request mountExisted mountMode mountLinked ownership unownedChildObserved
     started metrics primary = do {
     c0 \<leftarrow> (if mountLinked then removeOwnedMount (rq_MountPath request) (rq_ChildPath request)
           else ret None);
     c1 \<leftarrow> (if mountExisted then do {
             r \<leftarrow> os_Mkdir (rq_MountPath request) mountMode;
             ret (case r of Some e \<Rightarrow> if IsExist e then c0 else join_errs [c0, Some e] | None \<Rightarrow> c0) }
           else ret c0);
     cleanupErr \<leftarrow> (case ownership of
         Some o' \<Rightarrow> do { r \<leftarrow> removeOwnedChild o'; ret (join_errs [c1, r]) }
       | None \<Rightarrow> ret (if unownedChildObserved then join_errs [c1, Some (ownershipLost
             ''preserve-unowned-partial-child'' (rq_ChildPath request)
             ''partial child lacks a verified ownership marker and was not deleted'' None)]
           else c1));
     total \<leftarrow> since_ms started;
     ret (Inl (Joined (somes [Some primary, cleanupErr])),
          metrics\<lparr>mt_TotalWallClockMs := total, mt_AcquireWallClockMs := total\<rparr>) }"

text \<open>The state of the mount path before anything is done: it existed as an empty directory.\<close>

definition inspect_mount :: "string \<Rightarrow> ('z world_scheme, err + bool \<times> 32 word) state" where
  "inspect_mount mountPath =
     attempt (os_Lstat mountPath)
       (\<lambda>e. if IsNotExist e then ret (Inr (False, 448))
            else ret (Inl (newError ''mount-failed'' ''stat-mount'' mountPath (Some e))))
     (\<lambda>info.
       if \<not> is_dir info \<or> is_link info then
         ret (Inl (newError ''mount-failed'' ''validate-mount'' mountPath
           (Some (Text ''mount must be a real directory''))))
       else attempt (os_ReadDir mountPath)
         (\<lambda>e. ret (Inl (newError ''mount-failed'' ''read-mount'' mountPath (Some e))))
       (\<lambda>entries.
         if length entries \<noteq> 0 then
           ret (Inl (newError ''mount-failed'' ''validate-mount'' mountPath
             (Some (Text ''mount must be empty''))))
         else ret (Inr (True, node_mode info))))"

definition clone_error_code :: "err \<Rightarrow> string" where
  "clone_error_code e =
     (if err_is e ErrCoWUnavailable then ''cow-unavailable''
      else if err_is e Cancelled then ''cancelled'' else ''child-create-failed'')"

definition Acquire ::
  "(string \<Rightarrow> string \<Rightarrow> ('z world_scheme, err option) state) \<Rightarrow> 'z world_scheme ProgressFunc \<Rightarrow>
   AcquireRequest \<Rightarrow> ('z world_scheme, (err + unixLease) \<times> Metrics) state"
where
  "Acquire clone progress request = do {
     started \<leftarrow> time_Now;
     check ctx_Err
       (\<lambda>e. ret (Inl (newError ''cancelled'' ''acquire'' (rq_ChildPath request) (Some e)), no_metrics)) (
     check (validateOwnershipInputs request) (\<lambda>e. ret (Inl e, no_metrics)) (
     check (validateCloneSource (rq_ParentPath request)) (\<lambda>e. ret (Inl e, no_metrics)) (do {
     child \<leftarrow> os_Lstat (rq_ChildPath request);
     (case child of
        Inr _ \<Rightarrow> ret (Inl (newError ''child-exists'' ''stat-child'' (rq_ChildPath request) None), no_metrics)
      | Inl ce \<Rightarrow> if \<not> IsNotExist ce then
            ret (Inl (newError ''child-create-failed'' ''stat-child'' (rq_ChildPath request) (Some ce)), no_metrics)
          else
     attempt (inspect_mount (rq_MountPath request)) (\<lambda>e. ret (Inl e, no_metrics))
     (\<lambda>(mountExisted, mountMode).
     let fail = acquire_fail request mountExisted mountMode in
     check (notify progress ''creating-child'') (fail False None False started no_metrics) (do {
     phase \<leftarrow> time_Now;
     check (clone (rq_ParentPath request) (rq_ChildPath request))
       (\<lambda>e. do {
          partial \<leftarrow> os_Lstat (rq_ChildPath request);
          fail False None (case partial of Inr _ \<Rightarrow> True | Inl _ \<Rightarrow> False) started no_metrics
            (newError (clone_error_code e) ''clone-child'' (rq_ChildPath request) (Some e)) }) (do {
     createMs \<leftarrow> since_ms phase;
     let metrics = no_metrics\<lparr>mt_ChildCreateMs := createMs\<rparr>;
     check (validateCloneSource (rq_ChildPath request))
       (\<lambda>e. fail False None True started metrics
          (newError ''unsafe-source'' ''validate-cloned-child'' (rq_ChildPath request) (Some e))) (
     attempt (establishChildOwnership request) (fail False None True started metrics) (\<lambda>ownership.
     attempt (MeasureDirectoryUsage (rq_ChildPath request))
       (\<lambda>e. fail False (Some ownership) False started metrics
          (newError ''child-create-failed'' ''measure-child'' (rq_ChildPath request) (Some e))) (\<lambda>usage.
     let metrics = metrics\<lparr>mt_ChildReadyLogicalBytes := Some (u_LogicalBytes usage),
                           mt_ChildReadyAllocatedBytes := Some (u_AllocatedBytes usage)\<rparr> in
     check (notify progress ''mounting'') (fail False (Some ownership) False started metrics) (do {
     phase \<leftarrow> time_Now;
     check (if mountExisted then os_Remove (rq_MountPath request) else ret None)
       (\<lambda>e. fail False (Some ownership) False started metrics
          (newError ''mount-failed'' ''remove-empty-mount'' (rq_MountPath request) (Some e))) (
     check (os_Symlink (rq_ChildPath request) (rq_MountPath request))
       (\<lambda>e. fail False (Some ownership) False started metrics
          (newError ''mount-failed'' ''link-workspace'' (rq_MountPath request) (Some e))) (do {
     mountMs \<leftarrow> since_ms phase;
     readyMs \<leftarrow> since_ms started;
     let metrics = metrics\<lparr>mt_MountCallMs := mountMs, mt_WorkspaceReadyMs := readyMs,
                           mt_AcquireWallClockMs := readyMs, mt_TotalWallClockMs := readyMs\<rparr>;
     check (notify progress ''ready'') (fail True (Some ownership) False started metrics)
       (ret (Inr \<lparr>ul_info = \<lparr>li_ParentPath = rq_ParentPath request,
                              li_ChildPath = rq_ChildPath request,
                              li_MountPath = rq_MountPath request\<rparr>,
                  ul_ownership = ownership, ul_mountExisted = mountExisted,
                  ul_mountMode = mountMode, ul_released = False, ul_metrics = no_metrics\<rparr>,
             metrics)) }) ) }) ) ) ) }) }) ) ) }) ) ) }"

section \<open>Release\<close>

text \<open>A background context is never cancelled.\<close>

definition Release ::
  "bool \<Rightarrow> 'z world_scheme ProgressFunc \<Rightarrow> bool \<Rightarrow> unixLease \<Rightarrow>
   ('z world_scheme, (Metrics \<times> err option) \<times> unixLease) state"
where
  "Release background progress deleteChild l =
     (if ul_released l then ret ((ul_metrics l, None), l)
      else do {
       started \<leftarrow> time_Now;
       let metrics = no_metrics;
       let bail = (\<lambda>metrics e. ret ((metrics, Some e), l));
       let child = li_ChildPath (ul_info l);
       let mount = li_MountPath (ul_info l);
       check (if background then ret None else ctx_Err) (\<lambda>e. bail metrics (newError ''cancelled'' ''release'' child (Some e))) (
       check (notify progress ''unmounting'') (bail metrics) (do {
       phase \<leftarrow> time_Now;
       check (removeOwnedMount mount child) (bail metrics) (
       check (if ul_mountExisted l then os_Mkdir mount (ul_mountMode l) else ret None)
         (\<lambda>e. bail metrics (newError ''cleanup-failed'' ''restore-mount-directory'' mount (Some e))) (do {
       unmountMs \<leftarrow> since_ms phase;
       let metrics = metrics\<lparr>mt_UnmountCallMs := unmountMs\<rparr>;
       check (if deleteChild then validateOwnedChildAt (ul_ownership l) child else ret None)
         (bail metrics) (
       attempt (MeasureDirectoryUsage child)
         (\<lambda>e. bail metrics (newError ''cleanup-failed'' ''measure-child'' child (Some e))) (\<lambda>usage. do {
       let metrics = metrics\<lparr>mt_ChildReleasedLogicalBytes := Some (u_LogicalBytes usage),
                             mt_ChildReleasedAllocatedBytes := Some (u_AllocatedBytes usage)\<rparr>;
       cleanup \<leftarrow> time_Now;
       check (if deleteChild then removeOwnedChild (ul_ownership l) else ret None) (bail metrics) (do {
       cleanupMs \<leftarrow> since_ms cleanup;
       releaseMs \<leftarrow> since_ms started;
       let metrics = metrics\<lparr>mt_CleanupMs := cleanupMs, mt_ReleaseWallClockMs := releaseMs,
                             mt_TotalWallClockMs := releaseMs\<rparr>;
       check (notify progress ''released'') (bail metrics)
         (ret ((metrics, None), l\<lparr>ul_released := True, ul_metrics := metrics\<rparr>)) }) })) })) })) })"

section \<open>Snapshot and recovery\<close>

definition SnapshotUnixLease :: "unixLease \<Rightarrow> UnixLeaseSnapshot" where
  "SnapshotUnixLease value =
     \<lparr>sn_StoreRoot = co_storeRoot (ul_ownership value), sn_ParentPath = li_ParentPath (ul_info value),
      sn_ChildPath = li_ChildPath (ul_info value), sn_MountPath = li_MountPath (ul_info value),
      sn_LeaseID = co_leaseID (ul_ownership value), sn_OwnerToken = co_ownerToken (ul_ownership value),
      sn_Device = id_device (co_identity (ul_ownership value)),
      sn_Inode = id_inode (co_identity (ul_ownership value)),
      sn_MountExisted = ul_mountExisted value, sn_MountMode = ul_mountMode value AND 511\<rparr>"

definition snapshot_ownership :: "UnixLeaseSnapshot \<Rightarrow> childOwnership" where
  "snapshot_ownership s =
     \<lparr>co_storeRoot = sn_StoreRoot s, co_childPath = sn_ChildPath s, co_leaseID = sn_LeaseID s,
      co_ownerToken = sn_OwnerToken s,
      co_identity = \<lparr>id_device = sn_Device s, id_inode = sn_Inode s\<rparr>\<rparr>"

definition RecoverUnixLease :: "UnixLeaseSnapshot \<Rightarrow> ('z world_scheme, err + unixLease) state" where
  "RecoverUnixLease snapshot =
     (let ownership = snapshot_ownership snapshot in
      check (validateOwnedChildAt ownership (sn_ChildPath snapshot)) (\<lambda>e. ret (Inl e)) (
      attempt (os_Lstat (sn_MountPath snapshot))
        (\<lambda>e. ret (Inl (newError ''mount-ownership-lost'' ''recover-mount'' (sn_MountPath snapshot) (Some e))))
      (\<lambda>info.
        if \<not> is_link info then
          ret (Inl (newError ''mount-ownership-lost'' ''recover-mount'' (sn_MountPath snapshot) None))
        else attempt (os_Readlink (sn_MountPath snapshot))
          (\<lambda>e. ret (Inl (newError ''mount-ownership-lost'' ''recover-mount-target'' (sn_MountPath snapshot) (Some e))))
        (\<lambda>target.
          if Clean target \<noteq> Clean (sn_ChildPath snapshot) then
            ret (Inl (newError ''mount-ownership-lost'' ''recover-mount-target'' (sn_MountPath snapshot) None))
          else ret (Inr
            \<lparr>ul_info = \<lparr>li_ParentPath = sn_ParentPath snapshot, li_ChildPath = sn_ChildPath snapshot,
                        li_MountPath = sn_MountPath snapshot\<rparr>,
             ul_ownership = ownership, ul_mountExisted = sn_MountExisted snapshot,
             ul_mountMode = sn_MountMode snapshot, ul_released = False,
             ul_metrics = no_metrics\<rparr>)))))"

section \<open>What validation establishes\<close>

definition identity_at :: "childOwnership \<Rightarrow> string \<Rightarrow> env \<Rightarrow> fsys \<Rightarrow> bool" where
  "identity_at ow p e f = (case lookup f (comps p) of
       None \<Rightarrow> False
     | Some n \<Rightarrow> is_dir n \<and> co_identity ow = \<lparr>id_device = e_dev e, id_inode = n_ino n\<rparr>)"

definition marker_at :: "string \<Rightarrow> ownershipMarker \<Rightarrow> env \<Rightarrow> fsys \<Rightarrow> bool" where
  "marker_at p m e f = (case lookup f (comps (Join [p, ownershipMarkerName])) of
       None \<Rightarrow> False
     | Some n \<Rightarrow> (case n_kind n of
         KFile c \<Rightarrow> decode_single dec_marker (marker_stream e c) = Inr m | _ \<Rightarrow> False))"

text \<open>The directory at \<open>p\<close> is the acquired one, with its marker, below the store root.\<close>

definition owned_at :: "childOwnership \<Rightarrow> string \<Rightarrow> env \<Rightarrow> fsys \<Rightarrow> bool" where
  "owned_at ow p e f \<longleftrightarrow> pathWithinRoot (co_storeRoot ow) p \<and> identity_at ow p e f \<and>
     marker_at p \<lparr>om_SchemaVersion = ownershipMarkerSchemaVersion, om_LeaseID = co_leaseID ow,
                 om_OwnerToken = co_ownerToken ow\<rparr> e f"

lemma decode_regular:
  "is_regular n \<Longrightarrow> lookup f q = Some n \<Longrightarrow> \<exists>c. n_kind n = KFile c \<and> fs_read q f = Inr c"
  by (auto simp: is_regular_def fs_read_def follow_def split: kind.splits)

lemma readOwnershipMarker_same [eff_intros]: "keeps same (readOwnershipMarker p)"
  unfolding readOwnershipMarker_def by (auto intro!: eff_intros)

lemma validate_same [eff_intros]:
  "keeps same (validateChildIdentity ow p)" "keeps same (validateOwnedChildAt ow p)"
  "keeps same (validateCloneSource p)" "keeps same (validateOwnershipInputs rq)"
  unfolding validateChildIdentity_def validateOwnedChildAt_def validateChildTraversal_def
    identityFromFileInfo_def validateCloneSource_def validateOwnershipInputs_def
  by (auto intro!: eff_intros)

lemma readOwnershipMarker_spec:
  "wp (readOwnershipMarker (Join [p, ownershipMarkerName])) (\<lambda>r v.
     \<forall>m. r = Inr m \<longrightarrow> marker_at p m (w_env w) (w_fs w)) w"
  by (auto simp: readOwnershipMarker_def os_Lstat_def os_ReadFile_def os_Stat_def env_get_def
      wp_simps fs_lstat_def marker_at_def split: option.splits sum.splits kind.splits
      dest: decode_regular)

lemma validateChildIdentity_spec:
  "wp (validateChildIdentity ow p) (\<lambda>r v. r = None \<longrightarrow> identity_at ow p (w_env w) (w_fs w)) w"
  by (auto simp: validateChildIdentity_def os_Lstat_def identityFromFileInfo_def env_get_def
      wp_simps fs_lstat_def identity_at_def split: option.splits sum.splits)

lemma validateOwnedChildAt_spec:
  "wp (validateOwnedChildAt ow p) (\<lambda>r v. r = None \<longrightarrow> owned_at ow p (w_env w) (w_fs w)) w"
proof -
  have id: "wp (validateChildIdentity ow p) (\<lambda>r v. same w v \<and>
      (r = None \<longrightarrow> identity_at ow p (w_env w) (w_fs w))) w"
    by (rule wp_conj [OF wp_keeps [OF validate_same(1)] validateChildIdentity_spec]) simp
  have rd: "wp (readOwnershipMarker (Join [p, ownershipMarkerName])) (\<lambda>r v.
     \<forall>m. r = Inr m \<longrightarrow> marker_at p m (w_env w) (w_fs w)) v" if "same w v" for v
    using readOwnershipMarker_spec [of p v] that by (simp add: same_def)
  have lit: "m = \<lparr>om_SchemaVersion = s, om_LeaseID = l, om_OwnerToken = t\<rparr>"
    if "om_OwnerToken m = t" "om_LeaseID m = l" "om_SchemaVersion m = s" for m s l t
    using that by (cases m) simp
  show ?thesis
    unfolding validateOwnedChildAt_def
    by (auto simp: wp_ret owned_at_def intro!: wp_checkI [OF id] wp_attemptI [OF rd])
      (rule wpI, drule (2) lit, simp)
qed

section \<open>What removal may touch\<close>

lemma Dir_of_abs:
  assumes "IsAbs s"
  shows "IsAbs (Dir s) \<and> Clean (Dir s) = Dir s"
proof -
  have "slash \<in> set (rev s)" using assms by (cases s) auto
  then have "dropWhile (\<lambda>c. c \<noteq> slash) (rev s) \<noteq> []" by (auto simp: dropWhile_eq_Nil_conv)
  then have "length (after_last_slash s) < length s"
    unfolding after_last_slash_def
    by (metis (no_types, lifting) append_self_conv length_append length_greater_0_conv length_rev
        less_add_same_cancel1 takeWhile_dropWhile_id)
  then have "IsAbs (take (length s - length (after_last_slash s)) s)"
    using assms by (cases s) (auto simp: take_Cons')
  then show ?thesis by (simp add: Dir_def Clean_idem)
qed

text \<open>The reserved names beside a child.\<close>

definition quarantine_paths :: "cpath \<Rightarrow> cpath set" where
  "quarantine_paths p = {butlast p @ [quarantineNamePrefix @ s] | s. list_all hex_char s}"

lemma quarantine_name_proper: "list_all hex_char s \<Longrightarrow> proper (quarantineNamePrefix @ s)"
  by (auto simp: proper_def quarantineNamePrefix_def list_all_iff dest!: hex_char_alnum)

lemma randomToken_spec:
  "achieves same (\<lambda>r. case r of Inr t \<Rightarrow> list_all hex_char t | Inl _ \<Rightarrow> True) randomToken"
  unfolding randomToken_def
  by (rule still.on_attempt [OF reads_same(11)]) (auto intro!: still.on_ret simp: hex_encode_hex_chars)

lemmas randomToken_keeps [eff_intros] = keeps_if_achieves [OF randomToken_spec]

lemma quarantine_location:
  assumes child: "IsAbs child" "comps child \<noteq> []" and t: "list_all hex_char t"
    and path: "path = Join [Dir child, quarantineNamePrefix @ t]"
    and eq: "Dir (Clean path) = Dir (Clean child)"
  shows "comps path \<in> quarantine_paths (comps child)"
proof -
  let ?n = "quarantineNamePrefix @ t"
  have dir: "IsAbs (Dir child)" "Clean (Dir child) = Dir child"
    using Dir_of_abs [OF child(1)] by auto
  have n: "list_all proper [?n]" using quarantine_name_proper [OF t] by simp
  have path': "path = render True (comps (Dir child) @ [?n])" "comps path = comps (Dir child) @ [?n]"
    using Join_render [OF dir(1) n] comps_Join [OF dir(1) n] path by simp_all
  have "list_all proper (comps (Dir child) @ [?n])"
    using n comps_proper [OF dir(1)] by simp
  then have "Dir (Clean path) = Dir child"
    using Dir_render path' Join_Clean [OF dir(1) n] path dir(2) dir(1) by (metis Clean_def)
  moreover have "Dir (Clean child) = render True (butlast (comps child))"
    using Dir_render [of "butlast (comps child)" "last (comps child)"] comps_proper [OF child(1)] child
    by (simp add: Clean_def)
  ultimately have "comps (Dir child) = comps (render True (butlast (comps child)))"
    using eq by simp
  also have "\<dots> = butlast (comps child)"
    using comps_proper [OF child(1)] by (intro comps_render_rooted)
      (metis append_butlast_last_id child(2) list_all_append)
  finally show ?thesis using path' t by (auto simp: quarantine_paths_def)
qed

lemma chooseQuarantinePath_spec:
  assumes "IsAbs (co_childPath ow)" and "comps (co_childPath ow) \<noteq> []"
  shows "achieves same (\<lambda>r. case r of Inr p \<Rightarrow>
       comps p \<in> quarantine_paths (comps (co_childPath ow)) \<and> IsAbs p | Inl _ \<Rightarrow> True)
     (chooseQuarantinePath ow)"
  unfolding chooseQuarantinePath_def
  by (rule still.on_attempt [OF randomToken_spec])
    (auto simp: Let_def pathWithinRoot_iff intro!: achieves_if still.on_ret still.on_attempt reads_same
      quarantine_location [OF assms])

lemma removal_walk_frame:
  "\<forall>q \<in> set qs. prefix R q \<and> list_all proper q \<Longrightarrow>
   wp (walk_list (removal_visit root) acc qs) (\<lambda>_ v. writes (subtree R) w v) w"
proof (induction qs arbitrary: acc w)
  case Nil
  then show ?case by (simp add: wp_simps writes_refl)
next
  case (Cons q qs)
  have pq: "prefix R q" "comps (render True q) = q"
    using Cons.prems by (auto intro: comps_render_rooted)
  have step: "wp (removal_visit root q r acc) (\<lambda>_ v'. writes (subtree R) w v') v"
    if "same w v \<and> (r = Inl EIO \<or> r = fs_lstat q (w_fs w))" for r v
  proof (cases "\<exists>n. r = Inr n \<and> is_dir n")
    case False
    then show ?thesis
      using that by (auto simp: removal_visit_def wp_simps writes_same split: sum.splits)
  next
    case True
    then obtain n where n: "r = Inr n" "is_dir n" by blast
    then have l: "lookup (w_fs w) q = Some n"
      using that by (auto simp: fs_lstat_def split: option.splits)
    then have f: "follow (w_fs w) q = q" using n by (auto simp: follow_def is_dir_def)
    have "wp (os_Chmod (render True q) 448) (\<lambda>_ v'. writes (subtree R) w v') v"
      using that l f pq
      by (auto simp: os_Chmod_def fs_chmod_def wp_simps same_def
          intro: writes_same [unfolded same_def] writes_put [unfolded puts_def])
    then show ?thesis
      unfolding removal_visit_def n(1)
      using n(2) that by (auto simp: wp_ret writes_same intro!: wp_checkI)
  qed
  have rec: "wp (walk_list (removal_visit root) a qs) (\<lambda>_ v'. writes (subtree R) w v') v"
    if "writes (subtree R) w v" for a v
    by (rule wp_mono [OF Cons.IH]) (use Cons.prems that in \<open>auto intro: writes_trans\<close>)
  show ?case
    unfolding walk_list.simps
    by (rule wp_bindI [OF query_spec], rule wp_attemptI [OF step]) (auto simp: wp_ret rec)
qed

lemma prepareChildRemoval_frame [eff_intros]:
  assumes "subtree (comps root) \<subseteq> S"
  shows "keeps (writes S) (prepareChildRemoval root)"
proof (rule achieves_if_wp)
  fix w :: "'a world_scheme"
  let ?W = "\<lambda>_ v. writes (subtree (comps root)) w v"
  have "wp (WalkDir root (removal_visit root) ()) ?W w"
    unfolding WalkDir_def
  proof (rule wp_bindI [OF os_read_specs(1)])
    fix r v
    assume v: "same w v \<and> (r = Inl EIO \<or> r = fs_lstat (comps root) (w_fs w))"
    have "wp (walk_list (removal_visit root) () (below (comps root) (w_fs v))) ?W v"
      by (rule wp_mono [OF removal_walk_frame [where R = "comps root"]])
        (use v in \<open>auto simp: set_below intro: writes_trans writes_same\<close>)
    with v show "wp (case r of Inl e \<Rightarrow> removal_visit root (comps root) (Inl e) ()
        | Inr n \<Rightarrow> (do { qs \<leftarrow> gets (\<lambda>w. below (comps root) (w_fs w));
            walk_list (removal_visit root) () qs })) ?W v"
      by (auto simp: wp_simps removal_visit_def writes_same split: sum.splits)
  qed
  then show "wp (prepareChildRemoval root) (\<lambda>_ v. writes S w v \<and> True) w"
    unfolding prepareChildRemoval_def
    by (rule wp_bindI) (use assms in \<open>auto simp: wp_ret intro: writes_mono\<close>)
qed

definition removal_scope :: "cpath \<Rightarrow> cpath set" where
  "removal_scope p = subtree p \<union> (\<Union>q \<in> quarantine_paths p. subtree q)"

lemma reads_frame [eff_intros]:
  "keeps (writes S) (validateChildIdentity ow p)" "keeps (writes S) (validateOwnedChildAt ow p)"
  "keeps (writes S) (validateCloneSource p)" "keeps (writes S) (validateOwnershipInputs rq)"
  by (rule keeps_same_writes, rule validate_same)+

lemma owned_at_path: "owned_at ow p e f \<Longrightarrow> IsAbs p \<and> comps p \<noteq> []"
  by (auto simp: owned_at_def pathWithinRoot_iff)

lemma validateOwnedChildAt_full:
  "wp (validateOwnedChildAt ow p) (\<lambda>r v. same w v \<and>
     (r = None \<longrightarrow> owned_at ow p (w_env w) (w_fs w))) w"
  by (rule wp_conj [OF wp_keeps [OF validate_same(2)] validateOwnedChildAt_spec]) simp

lemma removeOwnedChild_frame [eff_intros]:
  assumes S: "removal_scope (comps (co_childPath ow)) \<subseteq> S"
  shows "keeps (writes S) (removeOwnedChild ow)"
proof (rule achieves_if_wp)
  fix w :: "'a world_scheme"
  let ?c = "comps (co_childPath ow)"
  let ?rest = "\<lambda>quarantinePath. check (renameNoReplace (co_childPath ow) quarantinePath)
       (\<lambda>e. ret (Some (newError ''cleanup-failed'' ''quarantine-child'' (co_childPath ow)
              (Some (Wrapped ''destination'' e)))))"
  show "wp (removeOwnedChild ow) (\<lambda>_ v. writes S w v \<and> True) w"
    unfolding removeOwnedChild_def
  proof (rule wp_checkI [OF validateOwnedChildAt_full], simp add: wp_ret writes_same, goal_cases)
    case (1 v)
    then have abs: "IsAbs (co_childPath ow)" "?c \<noteq> []" and v: "same w v"
      using owned_at_path by auto
    note cq = keeps_same_writes [OF chooseQuarantinePath_spec [OF abs], where S = S]
    show ?case
    proof (rule wp_keeps, rule frame.on_attempt [OF cq], rule frame.on_ret, simp, goal_cases)
      case (1 p)
      then have "subtree (comps p) \<subseteq> S" "subtree ?c \<subseteq> S"
        using S by (auto simp: removal_scope_def)
      then show ?case by (auto intro!: eff_intros)
    qed (use v in \<open>auto intro: writes_trans writes_same\<close>)
  qed
qed

text \<open>Nothing is touched unless the child is the acquired one.\<close>

lemma removeOwnedChild_guarded:
  "wp (removeOwnedChild ow) (\<lambda>_ v. same w v \<or>
     owned_at ow (co_childPath ow) (w_env w) (w_fs w)) w"
  unfolding removeOwnedChild_def
  by (rule wp_checkI [OF validateOwnedChildAt_full]) (auto simp: wp_ret intro: wpI)

section \<open>Acquire and release stay inside their paths\<close>

lemma removeOwnedMount_frame [eff_intros]:
  "comps m \<in> S \<Longrightarrow> keeps (writes S) (removeOwnedMount m c)"
  unfolding removeOwnedMount_def by (auto intro!: eff_intros)

lemma since_ms_keeps [eff_intros]: "keeps (writes S) (since_ms t)" "keeps same (since_ms t)"
  unfolding since_ms_def by (auto intro!: eff_intros)

lemma MeasureDirectoryUsage_frame [eff_intros]: "keeps (writes S) (MeasureDirectoryUsage p)"
  by (rule keeps_same_writes [OF MeasureDirectoryUsage_same])

lemma notify_None [eff_intros]: "keeps (writes S) (notify None x)"
  unfolding notify_def by (auto intro: eff_intros)

lemma notify_None_same [eff_intros]: "keeps same (notify None x)"
  unfolding notify_def by (auto intro: eff_intros)

definition lease_scope :: "string \<Rightarrow> string \<Rightarrow> cpath set" where
  "lease_scope mount child = insert (comps mount) (removal_scope (comps child))"

lemma Release_frame:
  assumes "lease_scope (li_MountPath (ul_info l)) (co_childPath (ul_ownership l)) \<subseteq> S"
  shows "keeps (writes S) (Release bg None d l)"
proof -
  have "comps (li_MountPath (ul_info l)) \<in> S" "removal_scope (comps (co_childPath (ul_ownership l))) \<subseteq> S"
    using assms by (auto simp: lease_scope_def)
  then show ?thesis
    unfolding Release_def by (intro eff_intros TrueI) simp_all
qed

lemma createOwnershipMarker_frame [eff_intros]:
  assumes "IsAbs p" and "subtree (comps p) \<subseteq> S"
  shows "keeps (writes S) (createOwnershipMarker p m)"
proof -
  have "proper ownershipMarkerName" by (simp add: ownershipMarkerName_def proper_def)
  then have "comps (Join [p, ownershipMarkerName]) \<in> S"
    using comps_Join [OF assms(1), of "[ownershipMarkerName]"] assms(2) by auto
  then show ?thesis
    unfolding createOwnershipMarker_def by (intro eff_intros TrueI) simp_all
qed

lemma establishChildOwnership_frame:
  assumes "IsAbs (rq_ChildPath rq)" and "subtree (comps (rq_ChildPath rq)) \<subseteq> S"
  shows "achieves (writes S)
    (\<lambda>r. case r of Inr ow \<Rightarrow> co_childPath ow = rq_ChildPath rq | Inl _ \<Rightarrow> True)
    (establishChildOwnership rq)"
  unfolding establishChildOwnership_def identityFromFileInfo_def
  using assms
  by (intro eff_intros keeps_same_writes [OF keeps_if_achieves [OF randomToken_spec]] TrueI)
    simp_all

lemma inspect_mount_same [eff_intros]: "keeps same (inspect_mount m)"
  unfolding inspect_mount_def by (auto intro!: eff_intros)

lemma acquire_fail_frame:
  assumes "lease_scope (rq_MountPath rq) (rq_ChildPath rq) \<subseteq> S"
    and "\<And>o'. ow = Some o' \<Longrightarrow> co_childPath o' = rq_ChildPath rq"
  shows "keeps (writes S) (acquire_fail rq me mm ml ow un st mt e)"
proof -
  have "comps (rq_MountPath rq) \<in> S" "removal_scope (comps (rq_ChildPath rq)) \<subseteq> S"
    using assms(1) by (auto simp: lease_scope_def)
  then show ?thesis
    unfolding acquire_fail_def using assms(2) by (intro eff_intros TrueI) simp_all
qed

lemma validateOwnershipInputs_spec:
  "wp (validateOwnershipInputs rq) (\<lambda>r v. same w v \<and>
     (r = None \<longrightarrow> pathWithinRoot (rq_StoreRoot rq) (rq_ChildPath rq))) w"
  by (auto simp: validateOwnershipInputs_def os_Lstat_def wp_simps split: sum.splits)

context cloner begin

lemma Acquire_frame:
  assumes abs: "IsAbs (rq_ParentPath rq)" "IsAbs (rq_ChildPath rq)"
    and S: "lease_scope (rq_MountPath rq) (rq_ChildPath rq) \<subseteq> S"
  shows "keeps (writes S) (Acquire clone None rq)"
proof -
  have sc: "comps (rq_MountPath rq) \<in> S" "subtree (comps (rq_ChildPath rq)) \<subseteq> S"
    using S by (auto simp: lease_scope_def removal_scope_def)
  have m: "keeps (writes S) (inspect_mount (rq_MountPath rq))"
    by (rule keeps_same_writes) (rule inspect_mount_same)
  note fail = acquire_fail_frame [OF S]
  have est: "keeps (writes S) (attempt (establishChildOwnership rq) h k)"
    if "\<And>e. keeps (writes S) (h e)"
      and "\<And>ow. co_childPath ow = rq_ChildPath rq \<Longrightarrow> keeps (writes S) (k ow)" for h k
    by (rule frame.on_attempt [OF establishChildOwnership_frame [OF abs(2) sc(2)]]) (simp_all add: that)
  show ?thesis
    unfolding Acquire_def Let_def
    by (intro est eff_intros m clone_frame_mono fail abs sc TrueI) simp_all
qed

end

section \<open>What a successful acquire leaves behind\<close>

definition link_at :: "string \<Rightarrow> string \<Rightarrow> fsys \<Rightarrow> bool" where
  "link_at mount dest f = (case lookup f (comps mount) of
     None \<Rightarrow> False
   | Some n \<Rightarrow> (case n_kind n of KLink t \<Rightarrow> Clean t = Clean dest | _ \<Rightarrow> False))"

definition lease_ready :: "unixLease \<Rightarrow> env \<Rightarrow> fsys \<Rightarrow> bool" where
  "lease_ready l e f \<longleftrightarrow> \<not> ul_released l \<and>
     co_childPath (ul_ownership l) = li_ChildPath (ul_info l) \<and>
     owned_at (ul_ownership l) (li_ChildPath (ul_info l)) e f \<and>
     link_at (li_MountPath (ul_info l)) (li_ChildPath (ul_info l)) f"

lemma marker_path:
  "IsAbs p \<Longrightarrow> comps (Join [p, ownershipMarkerName]) = comps p @ [ownershipMarkerName]"
  by (subst comps_Join) (auto simp: ownershipMarkerName_def proper_def)

lemma owned_at_frame:
  assumes "writes S w v" and "S \<inter> subtree (comps p) = {}"
  shows "owned_at ow p (w_env v) (w_fs v) = owned_at ow p (w_env w) (w_fs w)"
proof (cases "IsAbs p")
  case True
  have "lookup (w_fs v) q = lookup (w_fs w) q" if "q \<in> subtree (comps p)" for q
    by (rule writes_lookup [OF assms(1)]) (use that assms(2) in auto)
  moreover have "w_env v = w_env w" using assms(1) by (simp add: writes_def)
  ultimately show ?thesis
    using marker_path [OF True] by (simp add: owned_at_def identity_at_def marker_at_def)
next
  case False
  then show ?thesis by (simp add: owned_at_def pathWithinRoot_iff)
qed

lemma acquire_fail_Inl: "wp (acquire_fail rq me mm ml ow un st mt e) (\<lambda>r v. \<exists>x. fst r = Inl x) w"
  unfolding acquire_fail_def by (intro wp_skip) (simp add: wp_ret)

lemma establishChildOwnership_spec:
  "wp (establishChildOwnership rq) (\<lambda>r v. \<forall>ow. r = Inr ow \<longrightarrow>
     co_childPath ow = rq_ChildPath rq \<and> owned_at ow (rq_ChildPath rq) (w_env v) (w_fs v)) w"
proof -
  have v: "wp (validateOwnedChildAt ow p) (\<lambda>r v. r = None \<longrightarrow> owned_at ow p (w_env v) (w_fs v)) w"
    for ow p and w :: "'a world_scheme"
    by (rule wp_mono [OF validateOwnedChildAt_full]) (auto simp: same_def)
  show ?thesis
    unfolding establishChildOwnership_def Let_def
    by (rule wp_skip, simp add: wp_ret, simp add: wp_ret, rule impI, rule wp_skip, rule wp_skip,
        simp add: wp_ret, rule wp_skip, simp add: wp_ret, rule wp_checkI [OF v])
      (simp_all add: wp_ret)
qed

lemma os_Symlink_spec:
  "wp (os_Symlink t m) (\<lambda>r v. writes {comps m} w v \<and> (r = None \<longrightarrow> link_at m t (w_fs v))) w"
  unfolding os_Symlink_def
  by (rule create_spec) (auto simp: link_at_def puts_def writes_same intro: writes_put)

lemma Acquire_success:
  fixes w :: "'z world_scheme"
  assumes out: "comps (rq_MountPath rq) \<notin> subtree (comps (rq_ChildPath rq))"
  shows "wp (Acquire clone None rq)
    (\<lambda>r v. \<forall>l. fst r = Inr l \<longrightarrow> lease_ready l (w_env v) (w_fs v) \<and>
       li_ChildPath (ul_info l) = rq_ChildPath rq \<and> li_MountPath (ul_info l) = rq_MountPath rq) w"
    (is "wp _ ?Q w")
proof -
  let ?c = "rq_ChildPath rq" and ?m = "rq_MountPath rq"
  have fail: "wp (acquire_fail rq me mm ml ow un st mt e) ?Q v"
    for me mm ml ow un st mt e and v :: "'z world_scheme"
    by (rule wp_mono [OF acquire_fail_Inl]) auto
  define own where "own = (\<lambda>ow (v :: 'z world_scheme). co_childPath ow = ?c \<and>
     owned_at ow ?c (w_env v) (w_fs v))"
  have keep: "wp m (\<lambda>_. own ow) v" if "own ow v" "keeps (writes {comps ?m}) m"
    for ow v and m :: "('z world_scheme, 'q) state"
  proof (rule wp_keeps [OF that(2)])
    fix u assume "writes {comps ?m} v u"
    from owned_at_frame [OF this, of ?c ow] that(1) out show "own ow u" by (simp add: own_def)
  qed
  note keep_pure = keep [OF _ keeps_same_writes]
  have link: "wp (os_Symlink ?c ?m) (\<lambda>r v. own ow v \<and> (r = None \<longrightarrow> link_at ?m ?c (w_fs v))) v"
    if "own ow v" for ow v
    by (rule wp_conj [OF keep [OF that] wp_mono [OF os_Symlink_spec]]) (auto intro: eff_intros)
  have done_I: "wp m (\<lambda>_ v. own ow v \<and> link_at ?m ?c (w_fs v)) v"
    if "own ow v \<and> link_at ?m ?c (w_fs v)" "keeps same m"
    for ow v and m :: "('z world_scheme, 'q) state"
    by (rule wp_keeps [OF that(2)]) (use that(1) in \<open>simp add: own_def same_def\<close>)
  have mount: "keeps (writes {comps ?m}) (if b then os_Remove ?m else ret None)" for b
    by (intro eff_intros) simp_all
  have last: "wp (do { mountMs \<leftarrow> since_ms phase; readyMs \<leftarrow> since_ms st;
       check (notify None ''ready'') (F mountMs readyMs) (ret (Inr (L ow), M mountMs readyMs)) }) ?Q v"
    if "own ow v \<and> link_at ?m ?c (w_fs v)"
      and "\<And>a b e v. wp (F a b e) ?Q v"
      and "\<And>v. own ow v \<and> link_at ?m ?c (w_fs v) \<Longrightarrow> ?Q (Inr (L ow), x) v"
    for phase st F L M ow v x
    by (rule wp_bindI [OF done_I [OF that(1)]], rule eff_intros,
        rule wp_bindI [OF done_I], assumption, rule eff_intros,
        rule wp_checkI [OF done_I], assumption, rule eff_intros, rule that(2))
      (use that(3) in \<open>simp add: wp_ret\<close>)
  show ?thesis
    unfolding Acquire_def Let_def
    by (rule wp_skip(1), rule wp_skip(2), simp add: wp_ret, rule wp_skip(2), simp add: wp_ret,
        rule wp_skip(2), simp add: wp_ret, rule wp_skip(1), split sum.split, intro conjI allI impI,
        split if_split, intro conjI impI, simp add: wp_ret,
        rule wp_skip(3), simp add: wp_ret, split prod.split, intro allI impI,
        rule wp_skip(2), rule fail, rule wp_skip(1), rule wp_skip(2), rule wp_skip(1), rule fail,
        rule wp_skip(1), rule wp_skip(2), rule fail,
        rule wp_attemptI [OF establishChildOwnership_spec], rule fail,
        rule wp_attemptI [OF keep_pure], simp add: own_def, rule eff_intros, rule fail,
        rule wp_checkI [OF keep_pure], assumption, rule eff_intros, rule fail,
        rule wp_bindI [OF keep_pure], assumption, rule eff_intros,
        rule wp_checkI [OF keep], assumption, rule mount, rule fail,
        rule wp_checkI [OF link], assumption, rule fail, rule last, simp, rule fail)
      (simp_all add: wp_ret lease_ready_def own_def)
qed

text \<open>An acquired lease records the request it was made for, and a token that is an identifier.\<close>

definition lease_for :: "AcquireRequest \<Rightarrow> unixLease \<Rightarrow> bool" where
  "lease_for rq l \<longleftrightarrow>
     ul_info l = \<lparr>li_ParentPath = rq_ParentPath rq, li_ChildPath = rq_ChildPath rq, li_MountPath = rq_MountPath rq\<rparr> \<and>
     co_storeRoot (ul_ownership l) = rq_StoreRoot rq \<and> co_childPath (ul_ownership l) = rq_ChildPath rq \<and>
     co_leaseID (ul_ownership l) = rq_LeaseID rq \<and> is_identifier (co_ownerToken (ul_ownership l))"

lemma hex_identifier: "list_all hex_char s \<Longrightarrow> s \<noteq> '''' \<Longrightarrow> length s \<le> 128 \<Longrightarrow> is_identifier s"
  by (cases s) (auto simp: is_identifier_def list_all_iff hex_char_alnum hex_char_ident_char)

lemma randomToken_identifier:
  "wp randomToken (\<lambda>r v. \<forall>t. r = Inr t \<longrightarrow> is_identifier t) w"
  unfolding randomToken_def
  by (rule wp_attemptI [where P = "\<lambda>r v. \<forall>t. r = Inr t \<longrightarrow> length t = ownershipTokenBytes"])
    (auto simp: rand_Read_def wp_simps ownershipTokenBytes_def hex_encode_hex_chars
      intro!: hex_identifier dest: arg_cong [where f = length])

lemma establishChildOwnership_values:
  "wp (establishChildOwnership rq) (\<lambda>r v. \<forall>ow. r = Inr ow \<longrightarrow>
     co_storeRoot ow = rq_StoreRoot rq \<and> co_childPath ow = rq_ChildPath rq \<and>
     co_leaseID ow = rq_LeaseID rq \<and> is_identifier (co_ownerToken ow)) w"
  unfolding establishChildOwnership_def Let_def
  by (rule wp_skip, simp add: wp_ret, simp add: wp_ret, rule impI, rule wp_skip,
      rule wp_attemptI [OF randomToken_identifier], simp add: wp_ret, rule wp_skip, simp add: wp_ret,
      rule wp_skip)
    (simp_all add: wp_ret)

lemma Acquire_values:
  "wp (Acquire clone None rq) (\<lambda>r v. \<forall>l. fst r = Inr l \<longrightarrow> lease_for rq l) w"
    (is "wp _ ?Q w")
proof -
  have fail: "wp (acquire_fail rq me mm ml ow un st mt e) ?Q v" for me mm ml ow un st mt e v
    by (rule wp_mono [OF acquire_fail_Inl]) auto
  show ?thesis
    unfolding Acquire_def Let_def
    by (rule wp_skip(1), rule wp_skip(2), simp add: wp_ret, rule wp_skip(2), simp add: wp_ret,
        rule wp_skip(2), simp add: wp_ret, rule wp_skip(1), split sum.split, intro conjI allI impI,
        split if_split, intro conjI impI, simp add: wp_ret,
        rule wp_skip(3), simp add: wp_ret, split prod.split, intro allI impI,
        rule wp_skip(2), rule fail, rule wp_skip(1), rule wp_skip(2), rule wp_skip(1), rule fail,
        rule wp_skip(1), rule wp_skip(2), rule fail,
        rule wp_attemptI [OF establishChildOwnership_values], rule fail,
        rule wp_skip(3), rule fail, rule wp_skip(2), rule fail, rule wp_skip(1),
        rule wp_skip(2), rule fail, rule wp_skip(2), rule fail, rule wp_skip(1), rule wp_skip(1),
        rule wp_skip(2), rule fail)
      (simp_all add: wp_ret lease_for_def)
qed

section \<open>What a successful release leaves behind\<close>

lemma remove_list_success:
  "wp (remove_list acc qs) (\<lambda>r v. (\<forall>q. lookup (w_fs w) q = None \<longrightarrow> lookup (w_fs v) q = None) \<and>
     (r = None \<longrightarrow> acc = None \<and> (\<forall>q \<in> set qs. lookup (w_fs v) q = None))) w"
proof (induction qs arbitrary: acc w)
  case Nil
  show ?case by (simp add: wp_simps)
next
  case (Cons q qs)
  have rm: "wp (update (\<lambda>_. fs_remove q)) (\<lambda>r v.
      (\<forall>x. lookup (w_fs w) x = None \<longrightarrow> lookup (w_fs v) x = None) \<and>
      (r = None \<longrightarrow> lookup (w_fs v) q = None)) w"
    by (auto simp: wp_simps fs_remove_def lookup_del split: sum.splits option.splits if_splits)
  show ?case
    unfolding remove_list.simps
    by (rule wp_bindI [OF rm], rule wp_mono [OF Cons.IH]) (auto split: if_splits)
qed

lemma os_RemoveAll_success:
  "wp (os_RemoveAll p) (\<lambda>r v. r = None \<longrightarrow>
     (\<forall>q. prefix (comps p) q \<longrightarrow> list_all proper q \<longrightarrow> lookup (w_fs v) q = None)) w"
  unfolding os_RemoveAll_def
  by (auto simp: wp_bind wp_gets set_below intro!: wp_mono [OF remove_list_success])

lemma quarantine_disjoint:
  assumes "c \<noteq> []" and "p \<in> quarantine_paths c" and "c \<notin> quarantine_paths c"
  shows "\<not> prefix c p" and "\<not> prefix p c"
proof -
  obtain s where p: "p = butlast c @ [quarantineNamePrefix @ s]" "list_all hex_char s"
    using assms(2) by (auto simp: quarantine_paths_def)
  then have len: "length p = length c" using assms(1) by simp
  have "p \<noteq> c" using assms by auto
  with len show "\<not> prefix c p" and "\<not> prefix p c" by (auto simp: prefix_def)
qed

lemma subtree_gone_after_move:
  assumes "fs_rename_noreplace c p f = Inr g" and "\<not> prefix p c" and "prefix c q"
  shows "lookup g q = None"
proof -
  from assms(1) have "g = fs_move c p f" "\<not> prefix c p"
    by (auto simp: fs_rename_noreplace_def split: option.splits if_splits)
  with lookup_move_src [of c p f] assms(2,3) show ?thesis by (auto simp: prefix_def)
qed

text \<open>After a successful removal nothing is left at or below the child's path.\<close>

definition gone :: "cpath \<Rightarrow> fsys \<Rightarrow> bool" where
  "gone p f \<longleftrightarrow> (\<forall>q. prefix p q \<longrightarrow> lookup f q = None)"

lemma gone_frame:
  assumes "gone c (w_fs w)" and "writes (subtree p) w v" and "\<not> prefix c p" and "\<not> prefix p c"
  shows "gone c (w_fs v)"
  unfolding gone_def
proof (intro allI impI)
  fix q assume q: "prefix c q"
  have "q \<notin> subtree p"
  proof
    assume "q \<in> subtree p"
    then have "prefix p q" by simp
    with q assms(3,4) show False using prefix_same_cases by blast
  qed
  from writes_lookup [OF assms(2) this] q assms(1) show "lookup (w_fs v) q = None"
    by (simp add: gone_def)
qed

lemma removeOwnedChild_success:
  assumes c: "comps (co_childPath ow) \<notin> quarantine_paths (comps (co_childPath ow))"
  shows "wp (removeOwnedChild ow) (\<lambda>r v. r = None \<longrightarrow> gone (comps (co_childPath ow)) (w_fs v)) w"
    (is "wp _ ?Q w")
proof -
  let ?c = "comps (co_childPath ow)"
  show ?thesis
    unfolding removeOwnedChild_def
  proof (rule wp_checkI [OF validateOwnedChildAt_full], simp add: wp_ret, goal_cases)
    case (1 v)
    then have abs: "IsAbs (co_childPath ow)" "?c \<noteq> []" using owned_at_path by auto
    have cq: "wp (chooseQuarantinePath ow) (\<lambda>r u. case r of
        Inr p \<Rightarrow> comps p \<in> quarantine_paths ?c | Inl _ \<Rightarrow> True) v"
      by (rule wp_keeps [OF chooseQuarantinePath_spec [OF abs]]) (auto split: sum.splits)
    have mv: "wp (renameNoReplace (co_childPath ow) p) (\<lambda>r u. r = None \<longrightarrow> gone ?c (w_fs u)) u"
      if "comps p \<in> quarantine_paths ?c" for p u
      using subtree_gone_after_move [of ?c "comps p" "w_fs u"]
        quarantine_disjoint [OF abs(2) that c]
      by (auto simp: renameNoReplace_def wp_simps gone_def split: sum.splits)
    have keep: "wp m (\<lambda>_ x. gone ?c (w_fs x)) u"
      if "keeps (writes (subtree (comps p))) m" "comps p \<in> quarantine_paths ?c" "gone ?c (w_fs u)"
      for p u and m :: "('a world_scheme, 'q) state"
      by (rule wp_keeps [OF that(1)])
        (use that quarantine_disjoint [OF abs(2) that(2) c] in \<open>auto intro: gone_frame\<close>)
    have some: "wp (check (validateChildIdentity ow p) (\<lambda>_. ret (Some e))
        (check (renameNoReplace p (co_childPath ow)) (\<lambda>x. ret (join_errs [Some e, Some (h x)]))
          (ret (Some e)))) ?Q u" for p e h u
      by (rule wp_skip(2), simp add: wp_ret, rule wp_skip(2)) (simp_all add: wp_ret join_errs_def)
    show ?case
      by (rule wp_attemptI [OF cq], simp add: wp_ret, rule wp_checkI [OF mv], simp, simp add: wp_ret,
          rule wp_checkI [OF keep], rule reads_frame, simp, simp, simp add: Let_def some,
          rule wp_checkI [OF keep], rule prepareChildRemoval_frame, rule subset_refl, simp, simp,
          simp add: wp_ret, rule wp_checkI [OF keep], rule os_RemoveAll_keeps, rule subset_refl,
          simp, simp) (simp_all add: wp_ret)
  qed
qed

lemma Release_success:
  assumes "comps (co_childPath (ul_ownership l)) \<notin> quarantine_paths (comps (co_childPath (ul_ownership l)))"
    and "\<not> ul_released l"
  shows "wp (Release bg None True l) (\<lambda>((m, e), l') v. e = None \<longrightarrow>
     ul_released l' \<and> ul_metrics l' = m \<and>
     gone (comps (co_childPath (ul_ownership l))) (w_fs v)) w"
    (is "wp _ ?Q w")
proof -
  let ?G = "\<lambda>v. gone (comps (co_childPath (ul_ownership l))) (w_fs v)"
  have keep: "wp m (\<lambda>_. ?G) u" if "?G u" "keeps same m" for u and m :: "('a world_scheme, 'q) state"
    by (rule wp_keeps [OF that(2)]) (use that(1) in \<open>simp add: same_def\<close>)
  show ?thesis
    unfolding Release_def Let_def
    unfolding if_not_P [OF assms(2)] if_True
    by (rule wp_skip(1), rule wp_skip(2), simp add: wp_ret, rule wp_skip(2), simp add: wp_ret,
        rule wp_skip(1), rule wp_skip(2), simp add: wp_ret, rule wp_skip(2), simp add: wp_ret,
        rule wp_skip(1), rule wp_skip(2), simp add: wp_ret, rule wp_skip(3), simp add: wp_ret,
        rule wp_skip(1), rule wp_checkI [OF removeOwnedChild_success [OF assms(1)]],
        simp add: wp_ret, rule wp_bindI [OF keep], simp, rule eff_intros,
        rule wp_bindI [OF keep], assumption, rule eff_intros,
        rule wp_checkI [OF keep], assumption, rule eff_intros, simp add: wp_ret)
      (simp_all add: wp_ret)
qed

text \<open>A second release is answered from the lease, without touching anything.\<close>

lemma Release_again: "ul_released l \<Longrightarrow> Release bg pr d l = ret ((ul_metrics l, None), l)"
  by (simp add: Release_def)

section \<open>Snapshot and recovery\<close>

lemma RecoverUnixLease_spec:
  "wp (RecoverUnixLease s) (\<lambda>r v. same w v \<and> (\<forall>l. r = Inr l \<longrightarrow>
     lease_ready l (w_env w) (w_fs w) \<and>
     SnapshotUnixLease l = s\<lparr>sn_MountMode := sn_MountMode s AND 511\<rparr>)) w"
proof -
  let ?ow = "snapshot_ownership s"
  have lk: "link_at (sn_MountPath s) (sn_ChildPath s) f"
    if "fs_readlink (comps (sn_MountPath s)) f = Inr t" "Clean t = Clean (sn_ChildPath s)" for t f
    using that by (auto simp: fs_readlink_def link_at_def split: option.splits kind.splits)
  have rl: "wp (os_Readlink p) (\<lambda>r v. same w v \<and>
      (\<forall>t. r = Inr t \<longrightarrow> fs_readlink (comps p) (w_fs w) = Inr t)) u" if "same w u"
    for p and u :: "'a world_scheme"
    by (rule wp_mono [OF os_read_specs(3)]) (use that in \<open>auto intro: same_trans simp: sameD\<close>)
  have ls: "wp (os_Lstat p) (\<lambda>_. same w) u" if "same w u" for p and u :: "'a world_scheme"
    by (rule wp_keeps [OF reads_same(1)]) (use that in \<open>auto intro: same_trans\<close>)
  have fin: "lease_ready
      \<lparr>ul_info = \<lparr>li_ParentPath = sn_ParentPath s, li_ChildPath = sn_ChildPath s,
                  li_MountPath = sn_MountPath s\<rparr>,
       ul_ownership = ?ow, ul_mountExisted = sn_MountExisted s, ul_mountMode = sn_MountMode s,
       ul_released = False, ul_metrics = no_metrics\<rparr> (w_env w) (w_fs w)"
    if "owned_at ?ow (sn_ChildPath s) (w_env w) (w_fs w)"
      "fs_readlink (comps (sn_MountPath s)) (w_fs w) = Inr t" "Clean t = Clean (sn_ChildPath s)" for t
    using that lk by (simp add: lease_ready_def) (simp add: snapshot_ownership_def)
  show ?thesis
    unfolding RecoverUnixLease_def Let_def
    by (rule wp_checkI [OF validateOwnedChildAt_full], simp add: wp_ret,
        rule wp_attemptI [OF ls], simp, simp add: wp_ret, split if_split, intro conjI impI,
        simp add: wp_ret, rule wp_attemptI [OF rl], assumption, simp add: wp_ret)
      (use fin in \<open>auto simp: wp_ret SnapshotUnixLease_def snapshot_ownership_def\<close>)
qed

end
