(* ===== verification/Broker.thy ===== *)
theory Broker
  imports Broker_Types Unix_Storage
begin

text \<open>
  The broker: \<open>workspace/broker.go\<close> over the store, with the provider \<open>n\<close> as a parameter. Its
  operations run one after the other; requests that overlap are \<open>Broker_Requests\<close>. The text of
  an error (\<open>txt\<close>) is a parameter where the broker stores it.
\<close>

section \<open>Construction\<close>

definition DefaultQuotaBytes :: i64 where "DefaultQuotaBytes = 34359738368"
definition DefaultHostFloor :: i64 where "DefaultHostFloor = 21474836480"
definition DefaultChildReserve :: i64 where "DefaultChildReserve = 2147483648"

definition broker_defaults :: "BrokerConfig \<Rightarrow> BrokerConfig" where
  "broker_defaults c = c\<lparr>
     bc_QuotaBytes := (if bc_QuotaBytes c = 0 then DefaultQuotaBytes else bc_QuotaBytes c),
     bc_HostFloorBytes := (if bc_HostFloorBytes c = 0 then DefaultHostFloor else bc_HostFloorBytes c),
     bc_ChildReserveBytes := (if bc_ChildReserveBytes c = 0 then DefaultChildReserve else bc_ChildReserveBytes c),
     bc_ParentTTL := (if bc_ParentTTL c = 0 then 30 * 24 * 3600 * 1000000000 else bc_ParentTTL c)\<rparr>"

definition NewBroker :: "world \<Rightarrow> BrokerConfig \<Rightarrow> err + broker" where
  "NewBroker w config =
     (if \<not> IsAbs (bc_StoreRoot config) \<or> \<not> IsAbs (bc_WorkspaceRoot config) \<or>
         TrimSpace (bc_UserSID config) = '''' then Inl ErrInvalidInput
      else let c = broker_defaults config in
        if bc_QuotaBytes c <s 0 \<or> bc_HostFloorBytes c <s 0 \<or> bc_ChildReserveBytes c <s 0
        then Inl ErrInvalidInput
        else case NewPaths (bc_StoreRoot c) (bc_UserSID c) of Inl e \<Rightarrow> Inl e
          | Inr s \<Rightarrow> Inr \<lparr>w_fs = w_fs w, w_tick = w_tick w, w_ino = w_ino w, w_env = w_env w,
              bk_config = c, bk_store = s, bk_parents = [], bk_pending = [], bk_children = [],
              bk_journal = zero_journal, bk_requests = (\<lambda>_. None)\<rparr>)"

section \<open>Workspaces\<close>

definition broker_workspaceOwnerFile :: string where
  "broker_workspaceOwnerFile = ''.testplay-vhdx-workspace-owner.json''"

definition samePath :: "string \<Rightarrow> string \<Rightarrow> bool" where
  "samePath left right \<longleftrightarrow> EqualFold (Clean left) (Clean right)"

definition workspaceMount :: "BrokerConfig \<Rightarrow> string \<Rightarrow> err + string \<times> string" where
  "workspaceMount c workspaceID =
     (if \<not> is_identifier workspaceID then Inl ErrInvalidInput
      else let workspace = Join [bc_WorkspaceRoot c, workspaceID] in
        case Rel (bc_WorkspaceRoot c) workspace of None \<Rightarrow> Inl ErrInvalidInput
        | Some rel \<Rightarrow> if rel = ''.'' \<or> HasPrefix rel ''../'' then Inl ErrInvalidInput
            else Inr (workspace, Join [workspace, ''Library'']))"

text \<open>The loop over the workspace root and the workspace, which must be real directories.\<close>

fun real_directories :: "err \<Rightarrow> string list \<Rightarrow> ('z world_scheme, err option) state" where
  "real_directories kind [] = ret None"
| "real_directories kind (path # paths) =
     attempt (os_Lstat path) (\<lambda>_. ret (Some (Wrapped ''workspace component is not a real directory'' kind)))
       (\<lambda>info. if \<not> is_dir info \<or> is_link info
          then ret (Some (Wrapped ''workspace component is not a real directory'' kind))
          else real_directories kind paths)"

definition validateWorkspaceMount ::
  "BrokerConfig \<Rightarrow> string \<Rightarrow> string \<Rightarrow> ('z world_scheme, err option) state"
where
  "validateWorkspaceMount c workspaceID mount =
     (case workspaceMount c workspaceID of Inl e \<Rightarrow> ret (Some (Joined [e, ErrInvalidInput]))
      | Inr (workspace, expectedMount) \<Rightarrow>
          if \<not> samePath expectedMount mount then ret (Some (Joined [ErrInvalidInput]))
          else check (real_directories ErrInvalidInput [bc_WorkspaceRoot c, workspace])
            (\<lambda>e. ret (Some e)) (
          attempt (os_Lstat mount) (\<lambda>e. ret (if \<not> IsNotExist e then Some e else None))
            (\<lambda>_. ret (Some (Wrapped ''Library mount path already exists'' ErrInvalidInput)))))"

definition writeWorkspaceOwner :: "BrokerConfig \<Rightarrow> LeaseJournal \<Rightarrow> ('z world_scheme, err option) state" where
  "writeWorkspaceOwner c journal =
     (case workspaceMount c (jn_WorkspaceID journal) of
        Inl e \<Rightarrow> ret (Some (Joined [e, ErrOwnershipMismatch]))
      | Inr (workspace, mount) \<Rightarrow>
          if \<not> samePath workspace (jn_WorkspacePath journal) \<or> \<not> samePath mount (jn_MountPath journal)
          then ret (Some (Joined [ErrOwnershipMismatch]))
          else check (validateWorkspaceMount c (jn_WorkspaceID journal) (jn_MountPath journal))
            (\<lambda>e. ret (Some e))
            (store_writeJSONExclusive (Join [workspace, broker_workspaceOwnerFile]) (enc_broker_owner
              \<lparr>ow_SchemaVersion = WorkspaceOwnerSchemaVersion, ow_Provider = Provider,
               ow_LeaseID = jn_LeaseID journal, ow_RunID = jn_RunID journal,
               ow_WorkspaceID = jn_WorkspaceID journal, ow_WorkspacePath = workspace,
               ow_MountPath = mount, ow_OwnershipToken = jn_OwnershipToken journal,
               ow_CreatedAt = jn_CreatedAt journal\<rparr>)))"

definition owner_matches :: "WorkspaceOwner \<Rightarrow> LeaseJournal \<Rightarrow> string \<Rightarrow> string \<Rightarrow> bool" where
  "owner_matches owner journal workspace mount \<longleftrightarrow>
     ow_SchemaVersion owner = WorkspaceOwnerSchemaVersion \<and> ow_Provider owner = Provider \<and>
     ow_LeaseID owner = jn_LeaseID journal \<and> ow_RunID owner = jn_RunID journal \<and>
     ow_WorkspaceID owner = jn_WorkspaceID journal \<and> samePath (ow_WorkspacePath owner) workspace \<and>
     samePath (ow_MountPath owner) mount \<and> ow_OwnershipToken owner = jn_OwnershipToken journal"

definition readWorkspaceOwner :: "BrokerConfig \<Rightarrow> LeaseJournal \<Rightarrow> ('z world_scheme, err + string) state" where
  "readWorkspaceOwner c journal =
     (if jn_WorkspaceID journal = '''' \<or> jn_WorkspacePath journal = '''' then ret (Inr '''')
      else case workspaceMount c (jn_WorkspaceID journal) of
        Inl e \<Rightarrow> ret (Inl (Joined [e, ErrOwnershipMismatch]))
      | Inr (workspace, mount) \<Rightarrow>
          if \<not> samePath workspace (jn_WorkspacePath journal) \<or> \<not> samePath mount (jn_MountPath journal)
          then ret (Inl (Joined [ErrOwnershipMismatch]))
          else check (real_directories ErrOwnershipMismatch [bc_WorkspaceRoot c, workspace])
            (\<lambda>e. ret (Inl e)) (
          let marker = Join [workspace, broker_workspaceOwnerFile] in
          check (validateRegular marker) (\<lambda>e. ret (Inl e)) (
          attempt (store_readJSON marker dec_broker_owner) (\<lambda>e. ret (Inl e)) (\<lambda>owner.
          if \<not> owner_matches owner journal workspace mount then ret (Inl ErrOwnershipMismatch)
          else ret (Inr marker)))))"

definition broker_removeWorkspaceOwner :: "BrokerConfig \<Rightarrow> LeaseJournal \<Rightarrow> ('z world_scheme, err option) state" where
  "broker_removeWorkspaceOwner c journal = attempt (readWorkspaceOwner c journal) (\<lambda>e. ret (Some e))
     (\<lambda>marker. if marker = '''' then ret None else os_Remove marker)"

definition cleanup_visit :: "cpath \<Rightarrow> err + node \<Rightarrow> err option" where
  "cleanup_visit q r = (case r of Inl walkErr \<Rightarrow> Some walkErr
     | Inr info \<Rightarrow> if is_link info
         then Some (Wrapped ''workspace entry is a symlink'' ErrOwnershipMismatch) else None)"

definition cleanupOwnedWorkspace :: "BrokerConfig \<Rightarrow> LeaseJournal \<Rightarrow> ('z world_scheme, err option) state" where
  "cleanupOwnedWorkspace c journal =
     (if jn_WorkspaceID journal = '''' \<or> jn_WorkspacePath journal = '''' then ret None
      else attempt (os_Lstat (jn_WorkspacePath journal))
        (\<lambda>e. ret (if IsNotExist e then None else Some e)) (\<lambda>_.
      attempt (readWorkspaceOwner c journal) (\<lambda>e. ret (Some e)) (\<lambda>_.
      check (WalkCheck (jn_WorkspacePath journal) cleanup_visit) (\<lambda>e. ret (Some e)) (
      check (os_RemoveAll (jn_WorkspacePath journal)) (\<lambda>e. ret (Some e)) (
      attempt (os_Lstat (jn_WorkspacePath journal))
        (\<lambda>e. ret (if IsNotExist e then None else join_errs [Some e, Some ErrOwnershipMismatch]))
        (\<lambda>_. ret (join_errs [None, Some ErrOwnershipMismatch])))))))"

section \<open>Capacity and collection\<close>

definition broker_fail ::
  "BrokerRequest \<Rightarrow> string \<Rightarrow> string \<Rightarrow> string \<Rightarrow> err option \<Rightarrow> BrokerResponse"
where
  "broker_fail request code operation path e = zero_broker_response\<lparr>
     bs_SchemaVersion := ProtocolSchemaVersion, bs_RequestID := bq_RequestID request, bs_OK := False,
     bs_Error := Some \<lparr>be_Code = code, be_Operation = operation, be_Path = path, be_Cause = e\<rparr>\<rparr>"

definition broker_ok :: "BrokerRequest \<Rightarrow> BrokerResponse" where
  "broker_ok request = zero_broker_response\<lparr>bs_SchemaVersion := ProtocolSchemaVersion,
     bs_RequestID := bq_RequestID request, bs_OK := True, bs_Provider := Provider\<rparr>"

definition activeParents :: "broker Native \<Rightarrow> string set bop" where
  "activeParents n = gets (\<lambda>w. set (map (\<lambda>(_, h). bl_ParentKey (nv_Info n h w)) (bk_children w)))"

text \<open>The admission test, written with the running total of the collection.\<close>

definition fits :: "Capacity \<Rightarrow> i64 \<Rightarrow> bool" where
  "fits capacity allocated \<longleftrightarrow>
     allocated + cp_ReserveBytes capacity \<le>s cp_QuotaBytes capacity \<and>
     cp_HostFloorBytes capacity \<le>s cp_HostFreeBytes capacity - cp_ReserveBytes capacity"

fun reclaim ::
  "Paths \<Rightarrow> int \<Rightarrow> bool \<Rightarrow> string set \<Rightarrow> ParentMetadata list \<Rightarrow> Capacity \<Rightarrow> i64 \<Rightarrow>
   ('z world_scheme, Capacity \<times> err option) state"
where
  "reclaim s ttl dryRun active [] capacity projected =
     ret (capacity, if dryRun then None else Some ErrStorageUnavailable)"
| "reclaim s ttl dryRun active (parent # parents) capacity projected =
     (let key = ck_Digest (pm_CompatibilityKey parent) in
      if key \<in> active then reclaim s ttl dryRun active parents capacity projected
      else do {
        now \<leftarrow> time_Now;
        if now - ttl < pm_LastUsedAt parent then reclaim s ttl dryRun active parents capacity projected
        else let capacity = cp_ReclaimableBytes_update (\<lambda>b. b + pm_AllocatedBytes parent) capacity;
                 projected = projected - pm_AllocatedBytes parent in
          if dryRun then reclaim s ttl dryRun active parents capacity projected
          else attempt (RemoveParentIfUnused s key active) (\<lambda>e. ret (capacity, Some e)) (\<lambda>reclaimed.
            let capacity = cp_AllocatedBytes_update (\<lambda>b. b - reclaimed) capacity in
            if fits capacity projected then ret (capacity, None)
            else reclaim s ttl dryRun active parents capacity projected) })"

definition ensureCapacityWithLimits ::
  "broker Native \<Rightarrow> nat \<Rightarrow> bool \<Rightarrow> i64 \<Rightarrow> i64 \<Rightarrow> (Capacity \<times> err option) bop"
where
  "ensureCapacityWithLimits n workers dryRun requestedQuota requestedFloor = do {
     c \<leftarrow> gets bk_config;
     s \<leftarrow> gets bk_store;
     attempt (nv_HostFreeBytes n (bc_StoreRoot c)) (\<lambda>e. ret (zero_capacity, Some e)) (\<lambda>hostFree. do {
     let quota = (if 0 <s requestedQuota \<and> requestedQuota <s bc_QuotaBytes c then requestedQuota
                  else bc_QuotaBytes c);
     let floor = (if bc_HostFloorBytes c <s requestedFloor then requestedFloor else bc_HostFloorBytes c);
     (st, e) \<leftarrow> Store_Status s hostFree quota floor;
     (case e of Some x \<Rightarrow> ret (zero_capacity, Some x) | None \<Rightarrow>
     let capacity = (ws_Capacity st)\<lparr>cp_ReserveBytes := of_nat workers * bc_ChildReserveBytes c\<rparr> in
     if fits capacity (cp_AllocatedBytes capacity) \<and> \<not> dryRun then ret (capacity, None)
     else do {
     active \<leftarrow> activeParents n;
     attempt (ProtectedParentKeys s) (\<lambda>e. ret (capacity, Some e)) (\<lambda>protected.
     attempt (ListParents s) (\<lambda>e. ret (capacity, Some e)) (\<lambda>parents.
       reclaim s (bc_ParentTTL c) dryRun (active \<union> protected) parents capacity
         (cp_AllocatedBytes capacity))) }) }) }"

definition ensureCapacity :: "broker Native \<Rightarrow> nat \<Rightarrow> bool \<Rightarrow> (Capacity \<times> err option) bop" where
  "ensureCapacity n workers dryRun = ensureCapacityWithLimits n workers dryRun 0 0"

definition broker_gc :: "broker Native \<Rightarrow> BrokerRequest \<Rightarrow> BrokerResponse bop" where
  "broker_gc n request = do {
     root \<leftarrow> gets (\<lambda>w. bc_StoreRoot (bk_config w));
     (capacity, e) \<leftarrow> ensureCapacity n 0 (bq_DryRun request);
     ret (case e of Some x \<Rightarrow> broker_fail request ''gc-failed'' ''gc'' root (Some x)
       | None \<Rightarrow> (broker_ok request)\<lparr>bs_Metrics := Some (zero_metrics\<lparr>bm_Capacity := capacity\<rparr>)\<rparr>) }"

definition broker_admit :: "broker Native \<Rightarrow> BrokerRequest \<Rightarrow> BrokerResponse bop" where
  "broker_admit n request = do {
     root \<leftarrow> gets (\<lambda>w. bc_StoreRoot (bk_config w));
     (capacity, e) \<leftarrow> ensureCapacityWithLimits n 1 False (bq_StoreMaxAllocatedBytes request)
       (bq_MinimumHostFreeBytes request);
     ret (case e of
         Some x \<Rightarrow> broker_fail request ''storage-capacity-unavailable'' ''admit'' root (Some x)
       | None \<Rightarrow> (broker_ok request)\<lparr>bs_Metrics := Some (zero_metrics\<lparr>bm_Capacity := capacity\<rparr>)\<rparr>) }"

text \<open>The loop of \<open>status\<close> over the parents that could be collected.\<close>

fun reclaimable ::
  "int \<Rightarrow> string set \<Rightarrow> ParentMetadata list \<Rightarrow> StoreStatus \<Rightarrow> ('z world_scheme, StoreStatus) state"
where
  "reclaimable ttl active [] st = ret st"
| "reclaimable ttl active (parent # parents) st =
     (if ck_Digest (pm_CompatibilityKey parent) \<in> active then reclaimable ttl active parents st
      else do {
        now \<leftarrow> time_Now;
        reclaimable ttl active parents (if now - ttl < pm_LastUsedAt parent then st
          else ws_Capacity_update (cp_ReclaimableBytes_update (\<lambda>b. b + pm_AllocatedBytes parent)) st) })"

definition broker_status :: "broker Native \<Rightarrow> (err \<Rightarrow> string) \<Rightarrow> BrokerRequest \<Rightarrow> BrokerResponse bop" where
  "broker_status n txt request = do {
     c \<leftarrow> gets bk_config;
     s \<leftarrow> gets bk_store;
     attempt (nv_HostFreeBytes n (bc_StoreRoot c))
       (\<lambda>e. ret (broker_fail request ''status-failed'' ''host-free'' (bc_StoreRoot c) (Some e))) (\<lambda>hostFree. do {
     (st, e) \<leftarrow> Store_Status s hostFree (bc_QuotaBytes c) (bc_HostFloorBytes c);
     (case e of
        Some x \<Rightarrow> ret (broker_fail request ''status-failed'' ''measure-store'' (bc_StoreRoot c) (Some x))
      | None \<Rightarrow> do {
     let st = st\<lparr>ws_BootSessionID := nv_BootSessionID n,
                 ws_ParentTTLSeconds := word_of_int (trunc_div (bc_ParentTTL c) 1000000000)\<rparr>;
     active \<leftarrow> activeParents n;
     attempt (ProtectedParentKeys s)
       (\<lambda>e. ret ((broker_ok request)\<lparr>bs_Status := Some (st\<lparr>ws_GCBlocked := True,
          ws_GCBlockReason := txt e, ws_ManualRecoveryRequired := True\<rparr>)\<rparr>)) (\<lambda>protected. do {
     parents \<leftarrow> ListParents s;
     st \<leftarrow> (case parents of Inl _ \<Rightarrow> ret st
       | Inr parents \<Rightarrow> reclaimable (bc_ParentTTL c) (active \<union> protected) parents st);
     ret ((broker_ok request)\<lparr>bs_Status := Some st\<rparr>) }) }) }) }"

section \<open>Parents\<close>

definition valid_metadata :: "err + ParentResolution \<Rightarrow> ParentMetadata option" where
  "valid_metadata r = (case r of Inl _ \<Rightarrow> None
     | Inr resolved \<Rightarrow> if res_Status resolved \<noteq> ''valid'' then None else res_Metadata resolved)"

definition error_of :: "err + 'a \<Rightarrow> err option" where
  "error_of r = (case r of Inl e \<Rightarrow> Some e | Inr _ \<Rightarrow> None)"

definition parent_key :: "string \<Rightarrow> CompatibilityKey" where
  "parent_key digest = zero_key\<lparr>ck_SchemaVersion := ParentSchemaVersion, ck_Digest := digest\<rparr>"

definition broker_beginParent :: "broker Native \<Rightarrow> BrokerRequest \<Rightarrow> BrokerResponse bop" where
  "broker_beginParent n request =
     (case (bq_ParentKey request, bq_Source request) of
        (Some key, Some source) \<Rightarrow> do {
     c \<leftarrow> gets bk_config;
     s \<leftarrow> gets bk_store;
     let failed = (\<lambda>code operation path e. ret (broker_fail request code operation path (Some e)));
     attempt (ResolveParent s key) (failed ''parent-resolve-failed'' ''resolve-parent'' '''') (\<lambda>resolved.
     case valid_metadata (Inr resolved) of
       Some metadata \<Rightarrow>
         check (nv_VerifyParent n metadata) (failed ''parent-corrupt'' ''verify-parent'' (res_Path resolved)) (
         ignore (TouchParent s metadata) (ret ((broker_ok request)\<lparr>bs_Parent := Some metadata,
           bs_Metrics := Some (zero_metrics\<lparr>bm_ParentStatus := ''valid'', bm_ParentReused := True,
             bm_ParentVirtualBytes := pm_VirtualBytes metadata,
             bm_ParentAllocatedBytes := pm_AllocatedBytes metadata\<rparr>)\<rparr>)))
     | None \<Rightarrow>
     if res_Status resolved \<noteq> ''missing'' then
       failed ''parent-corrupt'' ''resolve-parent'' (res_Path resolved)
         (Text (''status='' @ res_Status resolved))
     else case workspaceMount c (bq_WorkspaceID request) of
       Inl e \<Rightarrow> failed ''invalid-workspace'' ''derive-parent-mount'' (bq_WorkspaceID request) e
     | Inr (workspace, mount) \<Rightarrow>
       check (validateWorkspaceMount c (bq_WorkspaceID request) mount)
         (failed ''invalid-workspace'' ''validate-parent-mount'' mount) (
       attempt (os_Stat workspace) (failed ''invalid-workspace'' ''stat-workspace'' workspace) (\<lambda>_.
       attempt (BeginParent s (bc_UserSID c) key source mount (bq_ClientPID request))
         (\<lambda>e. if err_is e ErrParentConflict
            then ret ((broker_ok request)\<lparr>
              bs_ParentBuild := Some \<lparr>pb_TransactionID = '''', pb_ParentKey = ck_Digest key,
                pb_MountPath = '''', pb_State = ''waiting''\<rparr>,
              bs_Metrics := Some (zero_metrics\<lparr>bm_ParentStatus := ''pending''\<rparr>)\<rparr>)
            else failed ''parent-conflict'' ''begin-parent'' (res_Path resolved) e) (\<lambda>pending.
       attempt (nv_BeginParent n pending)
         (\<lambda>e. ignore (AbortParent s (Some pending))
            (failed ''parent-create-failed'' ''begin-parent-native'' (pp_StagingPath pending) e)) (\<lambda>h. do {
       modify (\<lambda>w. w\<lparr>bk_parents := AList.update (pp_TransactionID pending) h (bk_parents w),
                      bk_pending := AList.update (pp_TransactionID pending) pending (bk_pending w)\<rparr>);
       ret ((broker_ok request)\<lparr>
         bs_ParentBuild := Some \<lparr>pb_TransactionID = pp_TransactionID pending,
           pb_ParentKey = ck_Digest (pp_Key pending), pb_MountPath = pp_MountPath pending,
           pb_State = ''mounted''\<rparr>,
         bs_Metrics := Some (zero_metrics\<lparr>bm_ParentStatus := ''pending'', bm_ParentCreated := True\<rparr>)\<rparr>) }))))) }
      | _ \<Rightarrow> ret (broker_fail request ''invalid-request'' ''begin-parent'' '''' (Some ErrInvalidInput)))"

definition forget_transaction :: "string \<Rightarrow> unit bop" where
  "forget_transaction i = modify (\<lambda>w. w\<lparr>bk_parents := AList.delete i (bk_parents w),
     bk_pending := AList.delete i (bk_pending w)\<rparr>)"

definition built_metadata :: "PendingParent \<Rightarrow> ParentEvidence \<Rightarrow> ParentMetadata" where
  "built_metadata pending evidence = zero_metadata\<lparr>pm_CompatibilityKey := pp_Key pending,
     pm_SourceSnapshot := pp_Source pending, pm_OwnershipToken := pp_OwnershipToken pending,
     pm_FileIdentity := ev_FileIdentity evidence, pm_Volume := ev_Volume evidence,
     pm_FileWriteTime := ev_FileWriteTime evidence,
     pm_VirtualBytes := ck_VirtualBytes (pp_Key pending), pm_BlockBytes := ck_BlockBytes (pp_Key pending),
     pm_SectorBytes := ck_SectorBytes (pp_Key pending), pm_LogicalBytes := ev_LogicalBytes evidence,
     pm_AllocatedBytes := ev_AllocatedBytes evidence, pm_CommittedSHA256 := ev_SHA256 evidence\<rparr>"

definition broker_commitParent :: "broker Native \<Rightarrow> BrokerRequest \<Rightarrow> BrokerResponse bop" where
  "broker_commitParent n request = do {
     s \<leftarrow> gets bk_store;
     found \<leftarrow> gets (\<lambda>w. (map_of (bk_parents w) (bq_TransactionID request),
                        map_of (bk_pending w) (bq_TransactionID request)));
     (case found of
        (Some h, Some pending) \<Rightarrow> do {
     started \<leftarrow> time_Now;
     attempt (nv_Finalize n h)
       (\<lambda>e. ret (broker_fail request ''parent-verification-failed'' ''finalize-parent''
          (pp_StagingPath pending) (Some e))) (\<lambda>evidence.
     attempt (CommitParent s (Some pending) (built_metadata pending evidence))
       (\<lambda>e. ret (broker_fail request ''parent-commit-failed'' ''commit-parent''
          (pp_StagingPath pending) (Some e))) (\<lambda>committed. do {
     forget_transaction (bq_TransactionID request);
     elapsed \<leftarrow> since_ms started;
     ret ((broker_ok request)\<lparr>bs_Parent := Some committed,
       bs_Metrics := Some (zero_metrics\<lparr>bm_ParentStatus := ''valid'', bm_ParentCreated := True,
         bm_ParentVerifyMs := (case elapsed of Some ms \<Rightarrow> ms | None \<Rightarrow> 0),
         bm_ParentVirtualBytes := pm_VirtualBytes committed,
         bm_ParentAllocatedBytes := pm_AllocatedBytes committed\<rparr>)\<rparr>) })) }
      | _ \<Rightarrow> ret (broker_fail request ''parent-transaction-not-found'' ''commit-parent''
          (bq_TransactionID request) (Some ErrOwnershipMismatch))) }"

definition broker_abortParent :: "broker Native \<Rightarrow> BrokerRequest \<Rightarrow> BrokerResponse bop" where
  "broker_abortParent n request = do {
     s \<leftarrow> gets bk_store;
     found \<leftarrow> gets (\<lambda>w. (map_of (bk_parents w) (bq_TransactionID request),
                        map_of (bk_pending w) (bq_TransactionID request)));
     (case found of
        (Some h, Some pending) \<Rightarrow>
          check (nv_Abort n h)
            (\<lambda>e. ret (broker_fail request ''parent-abort-uncertain'' ''abort-parent''
               (pp_StagingPath pending) (Some e))) (
          check (AbortParent s (Some pending))
            (\<lambda>e. ret (broker_fail request ''parent-abort-failed'' ''remove-pending''
               (pp_StagingPath pending) (Some e))) (do {
          forget_transaction (bq_TransactionID request);
          ret ((broker_ok request)\<lparr>bs_Metrics := Some (zero_metrics\<lparr>bm_CleanupState := ''released''\<rparr>)\<rparr>) }))
      | _ \<Rightarrow> ret (broker_fail request ''parent-transaction-not-found'' ''abort-parent''
          (bq_TransactionID request) (Some ErrOwnershipMismatch))) }"

section \<open>Leases\<close>

text \<open>The closure \<open>transition\<close>: it changes the journal that \<open>acquire\<close> goes on with.\<close>

definition acquire_transition :: "string \<Rightarrow> string \<Rightarrow> string \<Rightarrow> err option bop" where
  "acquire_transition st physical volume = do {
     modify (\<lambda>w. w\<lparr>bk_journal := (bk_journal w)\<lparr>jn_State := st,
       jn_PhysicalPath := (if physical \<noteq> '''' then physical else jn_PhysicalPath (bk_journal w)),
       jn_VolumeGUID := (if volume \<noteq> '''' then volume else jn_VolumeGUID (bk_journal w))\<rparr>\<rparr>);
     s \<leftarrow> gets bk_store;
     journal \<leftarrow> gets bk_journal;
     Store_WriteLease s journal }"

definition acquire_journal ::
  "BrokerConfig \<Rightarrow> string \<Rightarrow> BrokerRequest \<Rightarrow> ParentMetadata \<Rightarrow> string \<Rightarrow> string \<Rightarrow> string \<Rightarrow> string \<Rightarrow>
   string \<Rightarrow> string \<Rightarrow> int \<Rightarrow> int \<Rightarrow> LeaseJournal"
where
  "acquire_journal c boot request metadata parentKey leaseID token child workspace mount created updated =
     zero_journal\<lparr>jn_LeaseID := leaseID, jn_RunID := bq_RunID request, jn_UserSID := bc_UserSID c,
       jn_OwnershipToken := token, jn_ParentKey := parentKey, jn_ParentPath := pm_VHDXPath metadata,
       jn_ChildPath := child, jn_WorkspaceID := bq_WorkspaceID request, jn_WorkspacePath := workspace,
       jn_MountPath := mount, jn_State := ''requested'', jn_BootSessionID := boot,
       jn_ClientPID := bq_ClientPID request, jn_CreatedAt := created, jn_UpdatedAt := updated\<rparr>"

text \<open>\<open>journal.State = "quarantined"; _ = b.store.WriteLease(journal)\<close>.\<close>

definition quarantine_lease :: "Paths \<Rightarrow> LeaseJournal \<Rightarrow> ('z world_scheme, 'a) state \<Rightarrow> ('z world_scheme, 'a) state" where
  "quarantine_lease s journal k = ignore (Store_WriteLease s (journal\<lparr>jn_State := ''quarantined''\<rparr>)) k"

definition acquire_child ::
  "broker Native \<Rightarrow> BrokerRequest \<Rightarrow> BrokerConfig \<Rightarrow> Paths \<Rightarrow> ParentMetadata \<Rightarrow> LeaseJournal \<Rightarrow> BrokerResponse bop"
where
  "acquire_child n request c s metadata journal = do {
     let child = jn_ChildPath journal;
     modify (\<lambda>w. w\<lparr>bk_journal := journal\<rparr>);
     r \<leftarrow> nv_AcquireChild n metadata journal acquire_transition;
     journal \<leftarrow> gets bk_journal;
     (case r of
        Inl e \<Rightarrow> do {
          gone \<leftarrow> os_Lstat child;
          let failed = ret (broker_fail request ''child-acquire-failed'' ''acquire-child'' child (Some e));
          (if (case gone of Inl x \<Rightarrow> IsNotExist x | Inr _ \<Rightarrow> False)
           then ignore (broker_removeWorkspaceOwner c journal) (ignore (RemoveLease s journal) failed)
           else quarantine_lease s journal failed) }
      | Inr (h, metrics) \<Rightarrow> do {
     info \<leftarrow> gets (nv_Info n h);
     identity \<leftarrow> gets (nv_FileIdentity n h);
     let journal = journal\<lparr>jn_State := ''ready'', jn_FileIdentity := identity,
           jn_PhysicalPath := bl_PhysicalPath info, jn_VolumeGUID := bl_VolumeGUID info\<rparr>;
     check (Store_WriteLease s journal)
       (\<lambda>e. do {
          cleanupErr \<leftarrow> nv_Release n h True;
          workspaceErr \<leftarrow> cleanupOwnedWorkspace c journal;
          ret (broker_fail request ''journal-write-failed'' ''commit-ready'' child
            (join_errs [Some e, error_of cleanupErr, workspaceErr])) }) (do {
     modify (\<lambda>w. w\<lparr>bk_children := AList.update (jn_LeaseID journal) h (bk_children w)\<rparr>);
     (capacity, _) \<leftarrow> ensureCapacity n 0 False;
     ret ((broker_ok request)\<lparr>bs_Parent := Some metadata, bs_Lease := Some info,
       bs_Metrics := Some (metrics\<lparr>bm_Capacity := capacity\<rparr>)\<rparr>) }) }) }"

definition broker_acquire :: "broker Native \<Rightarrow> BrokerRequest \<Rightarrow> BrokerResponse bop" where
  "broker_acquire n request = do {
     c \<leftarrow> gets bk_config;
     s \<leftarrow> gets bk_store;
     let failed = (\<lambda>code operation path e. ret (broker_fail request code operation path e));
     (case (if is_identifier (bq_RunID request) then bq_ParentKey request else None) of
        None \<Rightarrow> failed ''invalid-request'' ''acquire'' (bq_RunID request) (Some ErrInvalidInput)
      | Some key \<Rightarrow> do {
     resolved \<leftarrow> ResolveParent s key;
     (case valid_metadata resolved of
        None \<Rightarrow> failed ''parent-unavailable'' ''resolve-parent'' (ck_Digest key)
          (join_errs [error_of resolved, Some (Text ''status='')])
      | Some metadata \<Rightarrow>
     check (nv_VerifyParent n metadata)
       (\<lambda>e. failed ''parent-corrupt'' ''verify-parent'' (Join [Join [pt_Parents s, ck_Digest key], ''parent.vhdx'']) (Some e)) (
     ignore (TouchParent s metadata) (do {
     (_, full) \<leftarrow> ensureCapacityWithLimits n 1 False (bq_StoreMaxAllocatedBytes request)
       (bq_MinimumHostFreeBytes request);
     check (ret full) (\<lambda>e. failed ''storage-capacity-unavailable'' ''admit-child'' (bc_StoreRoot c) (Some e)) (
     attempt (store_randomID ''lease'') (\<lambda>e. failed ''lease-create-failed'' ''lease-id'' '''' (Some e)) (\<lambda>leaseID.
     case workspaceMount c (bq_WorkspaceID request) of
       Inl e \<Rightarrow> failed ''invalid-workspace'' ''derive-child-mount'' (bq_WorkspaceID request) (Some e)
     | Inr (workspace, mount) \<Rightarrow>
     check (validateWorkspaceMount c (bq_WorkspaceID request) mount)
       (\<lambda>e. failed ''invalid-workspace'' ''validate-child-mount'' mount (Some e)) (do {
     let child = (case Paths_Child s leaseID of Inl _ \<Rightarrow> '''' | Inr p \<Rightarrow> p);
     token \<leftarrow> store_randomID ''owner'';
     created \<leftarrow> time_Now;
     updated \<leftarrow> time_Now;
     let journal = acquire_journal c (nv_BootSessionID n) request metadata (ck_Digest key) leaseID
           (case token of Inl _ \<Rightarrow> '''' | Inr t \<Rightarrow> t) child workspace mount created updated;
     check (Store_WriteLease s journal)
       (\<lambda>e. failed ''journal-write-failed'' ''create-lease'' child (Some e)) (
     check (writeWorkspaceOwner c journal)
       (\<lambda>e. ignore (RemoveLease s journal)
          (failed ''workspace-owner-write-failed'' ''create-workspace-owner'' workspace (Some e)))
       (acquire_child n request c s metadata journal)) }))) }))) }) }"

definition broker_heartbeat :: "broker Native \<Rightarrow> BrokerRequest \<Rightarrow> BrokerResponse bop" where
  "broker_heartbeat n request = do {
     s \<leftarrow> gets bk_store;
     let lease = bq_LeaseID request;
     let failed = (\<lambda>code e. ret (broker_fail request code ''heartbeat'' lease (Some e)));
     attempt (Store_ReadLease s lease) (failed ''lease-not-found'') (\<lambda>journal.
     if jn_OwnershipToken journal = '''' \<or> jn_State journal \<noteq> ''ready''
     then failed ''lease-not-ready'' ErrOwnershipMismatch
     else
       let journal = journal\<lparr>jn_ClientPID := bq_ClientPID request,
             jn_BootSessionID := (if jn_BootSessionID journal = '''' then nv_BootSessionID n
                                  else jn_BootSessionID journal),
             jn_UnityPID := (if bq_UnityPID request \<noteq> 0 then bq_UnityPID request
                             else jn_UnityPID journal)\<rparr> in
     check (Store_WriteLease s journal) (failed ''journal-write-failed'') (do {
     active \<leftarrow> gets (\<lambda>w. map_of (bk_children w) lease);
     (case active of None \<Rightarrow> failed ''lease-not-active'' ErrOwnershipMismatch | Some h \<Rightarrow> do {
     info \<leftarrow> gets (nv_Info n h);
     usage \<leftarrow> nv_Usage n h;
     ret ((broker_ok request)\<lparr>bs_Lease := Some info, bs_Metrics := Some (case usage of
         Inl _ \<Rightarrow> zero_metrics
       | Inr b \<Rightarrow> zero_metrics\<lparr>bm_ChildPeakBytes := b, bm_ChildPeakMeasured := True\<rparr>)\<rparr>) }) })) }"

text \<open>What \<open>release\<close> does once the session is released: the record is retained, or all is removed.\<close>

definition release_records ::
  "BrokerRequest \<Rightarrow> BrokerConfig \<Rightarrow> Paths \<Rightarrow> LeaseJournal \<Rightarrow> BrokerResponse bop \<Rightarrow> BrokerResponse bop"
where
  "release_records request c s journal k =
     (let child = jn_ChildPath journal;
          failed = (\<lambda>code operation path e. ret (broker_fail request code operation path (Some e))) in
      if bq_RetainChild request then
        check (Store_WriteLease s journal) (failed ''journal-write-failed'' ''release-complete'' child) (
        check (WriteRetained s journal) (failed ''retained-record-failed'' ''retain-child'' child) k)
      else
        check (cleanupOwnedWorkspace c journal)
          (\<lambda>e. quarantine_lease s journal
             (failed ''workspace-cleanup-failed'' ''release-complete'' (jn_WorkspacePath journal) e)) (
        check (RemoveLease s journal) (failed ''journal-remove-failed'' ''release-complete'' child) k))"

definition broker_release :: "broker Native \<Rightarrow> BrokerRequest \<Rightarrow> BrokerResponse bop" where
  "broker_release n request = do {
     c \<leftarrow> gets bk_config;
     s \<leftarrow> gets bk_store;
     let lease = bq_LeaseID request;
     active \<leftarrow> gets (\<lambda>w. map_of (bk_children w) lease);
     let failed = (\<lambda>code e. ret (broker_fail request code ''release'' lease (Some e)));
     (case active of None \<Rightarrow> failed ''lease-not-found'' ErrOwnershipMismatch | Some h \<Rightarrow>
     attempt (Store_ReadLease s lease) (failed ''lease-not-found'') (\<lambda>journal.
     let journal = journal\<lparr>jn_State := ''releasing'', jn_Retained := bq_RetainChild request\<rparr> in
     check (Store_WriteLease s journal) (failed ''journal-write-failed'') (
     attempt (nv_Release n h (\<not> bq_RetainChild request))
       (\<lambda>e. quarantine_lease s journal (ret (broker_fail request ''child-release-failed'' ''release''
          (jn_ChildPath journal) (Some e)))) (\<lambda>metrics.
     release_records request c s (journal\<lparr>jn_State := ''released''\<rparr>) (do {
     modify (\<lambda>w. w\<lparr>bk_children := AList.delete lease (bk_children w)\<rparr>);
     info \<leftarrow> gets (nv_Info n h);
     (capacity, _) \<leftarrow> ensureCapacity n 0 False;
     ret ((broker_ok request)\<lparr>
       bs_Lease := Some (info\<lparr>bl_State := ''released'', bl_Retained := bq_RetainChild request\<rparr>),
       bs_Metrics := Some (metrics\<lparr>bm_Capacity := capacity\<rparr>)\<rparr>) }))))) }"

text \<open>
  The journal of a retained record, when the two agree: the second result is the cause of the refusal.
\<close>

definition retained_lease :: "Paths \<Rightarrow> RetainedRecord \<Rightarrow> ('z world_scheme, err option + LeaseJournal) state" where
  "retained_lease s record = do {
     r \<leftarrow> Store_ReadLease s (rr_LeaseID record);
     ret (case r of Inl e \<Rightarrow> Inl (Some (Joined [e, ErrOwnershipMismatch]))
       | Inr journal \<Rightarrow>
           if \<not> jn_Retained journal \<or> jn_OwnershipToken journal \<noteq> rr_OwnershipToken record \<or>
              jn_ChildPath journal \<noteq> rr_ChildPath record
           then Inl (Some (Joined [ErrOwnershipMismatch])) else Inr journal) }"

text \<open>The parent of a retained record, found and verified, as both retained operations start.\<close>

definition retained_parent ::
  "broker Native \<Rightarrow> BrokerRequest \<Rightarrow> Paths \<Rightarrow> string \<Rightarrow> string \<Rightarrow>
   (ParentMetadata \<Rightarrow> BrokerResponse bop) \<Rightarrow> BrokerResponse bop"
where
  "retained_parent n request s operation digest k = do {
     resolved \<leftarrow> ResolveParent s (parent_key digest);
     (case valid_metadata resolved of
        None \<Rightarrow> ret (broker_fail request ''parent-unavailable'' operation digest
          (join_errs [error_of resolved, Some ErrOwnershipMismatch]))
      | Some metadata \<Rightarrow> check (nv_VerifyParent n metadata)
          (\<lambda>e. ret (broker_fail request ''parent-corrupt'' operation digest (Some e))) (k metadata)) }"

definition broker_attachRetained :: "broker Native \<Rightarrow> BrokerRequest \<Rightarrow> BrokerResponse bop" where
  "broker_attachRetained n request = do {
     c \<leftarrow> gets bk_config;
     s \<leftarrow> gets bk_store;
     let failed = (\<lambda>code operation path e. ret (broker_fail request code operation path e));
     attempt (ReadRetained s (bq_RunID request))
       (\<lambda>e. failed ''retained-not-found'' ''attach-retained'' (bq_RunID request) (Some e)) (\<lambda>record. do {
     found \<leftarrow> retained_lease s record;
     (case found of
        Inl e \<Rightarrow> failed ''retained-identity-mismatch'' ''validate-retained'' (rr_ChildPath record) e
      | Inr journal \<Rightarrow> do {
     active \<leftarrow> gets (\<lambda>w. map_of (bk_children w) (rr_LeaseID record));
     if active \<noteq> None
     then failed ''lease-conflict'' ''attach-retained'' (rr_LeaseID record) (Some ErrParentConflict)
     else retained_parent n request s ''attach-retained'' (rr_ParentKey record) (\<lambda>metadata.
     case workspaceMount c (bq_WorkspaceID request) of
       Inl e \<Rightarrow> failed ''invalid-workspace'' ''attach-retained'' (bq_WorkspaceID request) (Some e)
     | Inr (_, mount) \<Rightarrow>
     check (validateWorkspaceMount c (bq_WorkspaceID request) mount)
       (\<lambda>e. failed ''invalid-workspace'' ''validate-retained-mount'' mount (Some e)) (
     let journal = journal\<lparr>jn_MountPath := mount\<rparr> in
     attempt (nv_AttachChild n metadata journal)
       (\<lambda>e. failed ''retained-attach-failed'' ''attach-retained'' (rr_ChildPath record) (Some e))
       (\<lambda>(h, metrics).
     check (Store_WriteLease s (journal\<lparr>jn_State := ''ready''\<rparr>))
       (\<lambda>e. do {
          cleanupErr \<leftarrow> nv_Release n h False;
          failed ''journal-write-failed'' ''attach-retained'' (rr_ChildPath record)
            (join_errs [Some e, error_of cleanupErr]) }) (do {
     modify (\<lambda>w. w\<lparr>bk_children := AList.update (rr_LeaseID record) h (bk_children w)\<rparr>);
     info \<leftarrow> gets (nv_Info n h);
     ret ((broker_ok request)\<lparr>bs_Lease := Some info, bs_Metrics := Some metrics\<rparr>) })))) }) }) }"

text \<open>The session of a retained child: the one held, or a new one on its verified parent.\<close>

definition retained_session ::
  "broker Native \<Rightarrow> BrokerRequest \<Rightarrow> Paths \<Rightarrow> RetainedRecord \<Rightarrow> LeaseJournal \<Rightarrow>
   (session \<Rightarrow> BrokerResponse bop) \<Rightarrow> BrokerResponse bop"
where
  "retained_session n request s record journal k = do {
     active \<leftarrow> gets (\<lambda>w. map_of (bk_children w) (rr_LeaseID record));
     (case active of
        Some h \<Rightarrow> k h
      | None \<Rightarrow> retained_parent n request s ''remove-retained'' (rr_ParentKey record) (\<lambda>metadata.
          attempt (nv_AttachChild n metadata journal)
            (\<lambda>e. ret (broker_fail request ''retained-attach-failed'' ''remove-retained''
               (rr_ChildPath record) (Some e)))
            (\<lambda>(h, _). k h))) }"

definition broker_removeRetained :: "broker Native \<Rightarrow> BrokerRequest \<Rightarrow> BrokerResponse bop" where
  "broker_removeRetained n request = do {
     c \<leftarrow> gets bk_config;
     s \<leftarrow> gets bk_store;
     let failed = (\<lambda>code path e. ret (broker_fail request code ''remove-retained'' path (Some e)));
     attempt (ReadRetained s (bq_RunID request))
       (failed ''retained-not-found'' (bq_RunID request)) (\<lambda>record. do {
     found \<leftarrow> retained_lease s record;
     (case found of
        Inl e \<Rightarrow> ret (broker_fail request ''retained-identity-mismatch'' ''remove-retained'' (rr_ChildPath record) e)
      | Inr journal \<Rightarrow> retained_session n request s record journal (\<lambda>h.
     attempt (nv_Release n h True)
       (failed ''retained-release-failed'' (rr_ChildPath record)) (\<lambda>metrics.
     check (cleanupOwnedWorkspace c journal)
       (\<lambda>e. quarantine_lease s journal (failed ''workspace-cleanup-failed'' (jn_WorkspacePath journal) e)) (
     check (RemoveLease s journal) (failed ''journal-remove-failed'' (rr_ChildPath record)) (
     check (RemoveRetained s record) (failed ''retained-record-remove-failed'' (rr_ChildPath record)) (do {
     modify (\<lambda>w. w\<lparr>bk_children := AList.delete (rr_LeaseID record) (bk_children w)\<rparr>);
     info \<leftarrow> gets (nv_Info n h);
     ret ((broker_ok request)\<lparr>
       bs_Lease := Some (info\<lparr>bl_State := ''released'', bl_Retained := False\<rparr>),
       bs_Metrics := Some metrics\<rparr>) })))))) }) }"

section \<open>Recovery\<close>

definition or_else :: "('w, bool) state \<Rightarrow> ('w, bool) state \<Rightarrow> ('w, bool) state" where
  "or_else m n = do { b \<leftarrow> m; if b then ret True else n }"

definition summary_add :: "int \<Rightarrow> int \<Rightarrow> int \<Rightarrow> RecoverySummary \<Rightarrow> RecoverySummary" where
  "summary_add released preserved quarantined t =
     \<lparr>sm_Released = sm_Released t + released, sm_Preserved = sm_Preserved t + preserved,
      sm_Quarantined = sm_Quarantined t + quarantined\<rparr>"

text \<open>A lease of a client that may still be alive, or that was written within the grace period.\<close>

definition lease_live :: "broker Native \<Rightarrow> int \<Rightarrow> LeaseJournal \<Rightarrow> bool bop" where
  "lease_live n grace journal =
     (if jn_BootSessionID journal = '''' \<or> nv_BootSessionID n = '''' \<or>
         jn_BootSessionID journal = nv_BootSessionID n
      then or_else (nv_ProcessAlive n (jn_ClientPID journal))
        (or_else (nv_ProcessAlive n (jn_UnityPID journal))
          (do { now \<leftarrow> time_Now; ret (now - grace < jn_UpdatedAt journal) }))
      else ret False)"

type_synonym recovery = "RecoverySummary \<times> err + RecoverySummary"

definition recover_quarantine ::
  "Paths \<Rightarrow> RecoverySummary \<Rightarrow> LeaseJournal \<Rightarrow> ('z world_scheme, recovery) state"
where
  "recover_quarantine s t journal = quarantine_lease s journal (ret (Inr (summary_add 0 0 1 t)))"

definition recover_removed :: "Paths \<Rightarrow> RecoverySummary \<Rightarrow> LeaseJournal \<Rightarrow> recovery bop \<Rightarrow> recovery bop" where
  "recover_removed s t journal k = check (RemoveLease s journal) (\<lambda>e. ret (Inl (t, e))) k"

text \<open>The session of an abandoned lease: the one held, or a new one on its verified parent.\<close>

definition recover_session ::
  "broker Native \<Rightarrow> (err \<Rightarrow> string) \<Rightarrow> Paths \<Rightarrow> RecoverySummary \<Rightarrow> LeaseJournal \<Rightarrow> ParentMetadata \<Rightarrow>
   (LeaseJournal \<Rightarrow> session \<Rightarrow> recovery bop) \<Rightarrow> recovery bop"
where
  "recover_session n txt s t journal metadata k = do {
     active \<leftarrow> gets (\<lambda>w. map_of (bk_children w) (jn_LeaseID journal));
     (case active of
        Some h \<Rightarrow> k journal h
      | None \<Rightarrow> do {
     now \<leftarrow> time_Now;
     let journal = journal\<lparr>jn_State := ''recovering'', jn_RecoveryAt := Some now, jn_RecoveryError := ''''\<rparr>;
     check (Store_WriteLease s journal) (\<lambda>e. ret (Inl (t, e))) (
     attempt (nv_AttachChild n metadata journal)
       (\<lambda>e. recover_quarantine s t (journal\<lparr>jn_RecoveryError := txt e\<rparr>))
       (\<lambda>(h, _). k journal h)) }) }"

definition recover_lease ::
  "broker Native \<Rightarrow> (err \<Rightarrow> string) \<Rightarrow> int \<Rightarrow> RecoverySummary \<Rightarrow> LeaseJournal \<Rightarrow> recovery bop"
where
  "recover_lease n txt grace t journal =
     (if jn_Retained journal then ret (Inr (summary_add 0 1 0 t))
      else do {
     c \<leftarrow> gets bk_config;
     s \<leftarrow> gets bk_store;
     live \<leftarrow> lease_live n grace journal;
     if live then ret (Inr (summary_add 0 1 0 t))
     else do {
     child \<leftarrow> os_Lstat (jn_ChildPath journal);
     if (case child of Inl x \<Rightarrow> IsNotExist x | Inr _ \<Rightarrow> False)
     then check (cleanupOwnedWorkspace c journal) (\<lambda>_. recover_quarantine s t journal)
       (recover_removed s t journal (ret (Inr (summary_add 1 0 0 t))))
     else do {
     resolved \<leftarrow> ResolveParent s (parent_key (jn_ParentKey journal));
     (case valid_metadata resolved of
        None \<Rightarrow> recover_quarantine s t journal
      | Some metadata \<Rightarrow>
     check (nv_VerifyParent n metadata)
       (\<lambda>e. recover_quarantine s t (journal\<lparr>jn_RecoveryError := txt e\<rparr>)) (
     recover_session n txt s t journal metadata (\<lambda>journal h.
     attempt (nv_Release n h True)
       (\<lambda>e. recover_quarantine s t (journal\<lparr>jn_RecoveryError := txt e\<rparr>)) (\<lambda>_.
     check (cleanupOwnedWorkspace c journal)
       (\<lambda>e. recover_quarantine s t (journal\<lparr>jn_RecoveryError := txt e\<rparr>)) (
     recover_removed s t journal (do {
     modify (\<lambda>w. w\<lparr>bk_children := AList.delete (jn_LeaseID journal) (bk_children w)\<rparr>);
     ret (Inr (summary_add 1 0 0 t)) })))))) } } })"

fun recover_leases ::
  "broker Native \<Rightarrow> (err \<Rightarrow> string) \<Rightarrow> int \<Rightarrow> RecoverySummary \<Rightarrow> LeaseJournal list \<Rightarrow>
   (RecoverySummary \<times> err option) bop"
where
  "recover_leases n txt grace t [] = ret (t, None)"
| "recover_leases n txt grace t (journal # journals) = do {
     r \<leftarrow> recover_lease n txt grace t journal;
     (case r of Inl (t, e) \<Rightarrow> ret (t, Some e) | Inr t \<Rightarrow> recover_leases n txt grace t journals) }"

definition Recover :: "broker Native \<Rightarrow> (err \<Rightarrow> string) \<Rightarrow> int \<Rightarrow> (RecoverySummary \<times> err option) bop" where
  "Recover n txt grace = do {
     s \<leftarrow> gets bk_store;
     let zero = \<lparr>sm_Released = 0, sm_Preserved = 0, sm_Quarantined = 0\<rparr>;
     check (EnsureLayout s) (\<lambda>e. ret (zero, Some e)) (
     attempt (ListLeases s) (\<lambda>e. ret (zero, Some e)) (\<lambda>leasing. do {
     let grace = (if grace \<le> 0 then 30 * 1000000000 else grace);
     now \<leftarrow> time_Now;
     (preserved, quarantined, e) \<leftarrow> RecoverPending s now grace (Some (nv_ProcessAlive n));
     (case e of Some x \<Rightarrow> ret (zero, Some x)
      | None \<Rightarrow> recover_leases n txt grace (summary_add 0 preserved quarantined zero) leasing) })) }"

section \<open>Dispatch\<close>

definition dispatch :: "broker Native \<Rightarrow> (err \<Rightarrow> string) \<Rightarrow> BrokerRequest \<Rightarrow> BrokerResponse bop" where
  "dispatch n txt request = (let operation = bq_Operation request in
     if operation = OperationHello then do {
       c \<leftarrow> gets bk_config;
       ret ((broker_ok request)\<lparr>bs_BrokerVersion := ''v2'', bs_WorkspaceRoot := bc_WorkspaceRoot c,
         bs_StoreRoot := bc_StoreRoot c\<rparr>) }
     else if operation = OperationBeginParentBuild then broker_beginParent n request
     else if operation = OperationCommitParent then broker_commitParent n request
     else if operation = OperationAbortParent then broker_abortParent n request
     else if operation = BrokerOperationAcquire then broker_acquire n request
     else if operation = OperationHeartbeat then broker_heartbeat n request
     else if operation = BrokerOperationRelease then broker_release n request
     else if operation = OperationAttachRetained then broker_attachRetained n request
     else if operation = OperationRemoveRetained then broker_removeRetained n request
     else if operation = BrokerOperationStatus then broker_status n txt request
     else if operation = OperationAdmit then broker_admit n request
     else if operation = OperationGC then broker_gc n request
     else ret (broker_fail request ''unknown-operation'' ''dispatch'' operation (Some ErrInvalidInput)))"

definition broker_refusal :: "BrokerConfig \<Rightarrow> string \<Rightarrow> BrokerRequest \<Rightarrow> BrokerResponse option" where
  "broker_refusal c callerSID request =
     (if bq_SchemaVersion request \<noteq> ProtocolSchemaVersion then
        Some (broker_fail request ''unsupported-schema'' ''validate-request'' '''' (Some (Text ''schemaVersion'')))
      else if \<not> is_identifier (bq_RequestID request) then
        Some (broker_fail request ''invalid-request'' ''validate-request-id'' (bq_RequestID request)
          (Some ErrInvalidInput))
      else if \<not> EqualFold callerSID (bc_UserSID c) \<or>
          (bq_UserSID request \<noteq> '''' \<and> \<not> EqualFold (bq_UserSID request) callerSID) then
        Some (broker_fail request ''unauthorized-client'' ''authorize-client'' callerSID
          (Some ErrOwnershipMismatch))
      else if bq_WorkspaceRoot request \<noteq> '''' then
        Some (broker_fail request ''invalid-request'' ''validate-client-workspace-root''
          (bq_WorkspaceRoot request) (Some ErrInvalidInput))
      else if bq_WorkspaceID request \<noteq> '''' \<and> \<not> is_identifier (bq_WorkspaceID request) then
        Some (broker_fail request ''invalid-workspace'' ''validate-workspace-id'' (bq_WorkspaceID request)
          (Some ErrInvalidInput))
      else None)"

definition handleLocked :: "broker Native \<Rightarrow> (err \<Rightarrow> string) \<Rightarrow> string \<Rightarrow> BrokerRequest \<Rightarrow> BrokerResponse bop" where
  "handleLocked n txt callerSID request = do {
     c \<leftarrow> gets bk_config;
     s \<leftarrow> gets bk_store;
     (case broker_refusal c callerSID request of Some r \<Rightarrow> ret r | None \<Rightarrow>
       if bq_Operation request \<noteq> OperationHello then
         check (nv_Available n)
           (\<lambda>e. ret (broker_fail request ''broker-unavailable'' ''native-check'' (nv_Platform n) (Some e))) (
         check (EnsureLayout s)
           (\<lambda>e. ret (broker_fail request ''store-invalid'' ''ensure-layout'' (bc_StoreRoot c) (Some e)))
           (dispatch n txt request))
       else dispatch n txt request) }"

text \<open>
  \<open>Handle\<close> for requests that do not overlap: no request is in flight when one arrives.
\<close>

definition BrokerHandle :: "broker Native \<Rightarrow> (err \<Rightarrow> string) \<Rightarrow> string \<Rightarrow> BrokerRequest \<Rightarrow> BrokerResponse bop" where
  "BrokerHandle n txt callerSID request = do {
     cached \<leftarrow> gets (\<lambda>w. bk_requests w (bq_RequestID request));
     (case (if bq_RequestID request \<noteq> '''' then cached else None) of
        Some r \<Rightarrow> ret r
      | None \<Rightarrow> do {
          r \<leftarrow> handleLocked n txt callerSID request;
          (if bq_RequestID request \<noteq> ''''
           then modify (\<lambda>w. w\<lparr>bk_requests := (bk_requests w)(bq_RequestID request \<mapsto> r)\<rparr>) else skip);
          ret r }) }"

text \<open>\<open>DirectClient.Call\<close> of \<open>workspace/client.go\<close>.\<close>

definition DirectClientCall ::
  "(broker Native \<times> (err \<Rightarrow> string)) option \<Rightarrow> string \<Rightarrow> BrokerRequest \<Rightarrow>
   (BrokerResponse \<times> err option) bop"
where
  "DirectClientCall b callerSID request = (case b of
       None \<Rightarrow> ret (zero_broker_response, Some ErrBrokerUnavailable)
     | Some (n, txt) \<Rightarrow> do {
         r \<leftarrow> BrokerHandle n txt callerSID request;
         ret (r, if bs_OK r then None
           else case bs_Error r of
               Some e \<Rightarrow> Some (StorageError (be_Code e) (be_Operation e) (be_Path e) (be_Cause e))
             | None \<Rightarrow> Some (Text ''broker request failed'')) })"

end
