(* ===== verification/Broker_Requests.thy ===== *)
theory Broker_Requests
  imports Broker
begin

text \<open>
  Overlapping requests of the broker: \<open>Handle\<close> in \<open>workspace/broker.go\<close> as steps of threads. A
  thread is one call with its request ID and its phase. Under the mutex it returns the recorded
  response, waits for the request in flight, or puts its ID in flight and runs \<open>handleLocked\<close>; when
  that is done it records the response and wakes the waiters. A waiter may be cancelled. The
  empty ID is neither recorded nor shared.
\<close>

section \<open>Threads\<close>

datatype 'r phase = Arrived | Waiting | Running | Returned 'r | CancelledWait

record 'r requests =
  rs_recorded :: "string \<Rightarrow> 'r option"
  rs_inflight :: "string set"
  rs_threads :: "(string \<times> 'r phase) list"
  rs_runs :: "(string \<times> 'r) list"

abbreviation set_phase :: "nat \<Rightarrow> string \<Rightarrow> 'r phase \<Rightarrow> 'r requests \<Rightarrow> 'r requests" where
  "set_phase t i p q \<equiv> q\<lparr>rs_threads := (rs_threads q)[t := (i, p)]\<rparr>"

inductive handle_step :: "'r requests \<Rightarrow> 'r requests \<Rightarrow> bool" where
  Recorded: "t < length (rs_threads q) \<Longrightarrow> rs_threads q ! t = (i, Arrived) \<Longrightarrow> i \<noteq> '''' \<Longrightarrow>
    rs_recorded q i = Some r \<Longrightarrow> handle_step q (set_phase t i (Returned r) q)"
| Wait: "t < length (rs_threads q) \<Longrightarrow> rs_threads q ! t = (i, Arrived) \<Longrightarrow> i \<noteq> '''' \<Longrightarrow>
    rs_recorded q i = None \<Longrightarrow> i \<in> rs_inflight q \<Longrightarrow> handle_step q (set_phase t i Waiting q)"
| Begin: "t < length (rs_threads q) \<Longrightarrow> rs_threads q ! t = (i, Arrived) \<Longrightarrow> i \<noteq> '''' \<Longrightarrow>
    rs_recorded q i = None \<Longrightarrow> i \<notin> rs_inflight q \<Longrightarrow>
    handle_step q (set_phase t i Running (q\<lparr>rs_inflight := insert i (rs_inflight q)\<rparr>))"
| Begin_unnamed: "t < length (rs_threads q) \<Longrightarrow> rs_threads q ! t = ('''', Arrived) \<Longrightarrow>
    handle_step q (set_phase t '''' Running q)"
| Finish: "t < length (rs_threads q) \<Longrightarrow> rs_threads q ! t = (i, Running) \<Longrightarrow> i \<noteq> '''' \<Longrightarrow>
    handle_step q (set_phase t i (Returned r) (q\<lparr>rs_recorded := (rs_recorded q)(i \<mapsto> r),
      rs_inflight := rs_inflight q - {i}, rs_runs := (i, r) # rs_runs q\<rparr>))"
| Finish_unnamed: "t < length (rs_threads q) \<Longrightarrow> rs_threads q ! t = ('''', Running) \<Longrightarrow>
    handle_step q (set_phase t '''' (Returned r) (q\<lparr>rs_runs := ('''', r) # rs_runs q\<rparr>))"
| Wake: "t < length (rs_threads q) \<Longrightarrow> rs_threads q ! t = (i, Waiting) \<Longrightarrow> i \<notin> rs_inflight q \<Longrightarrow>
    rs_recorded q i = Some r \<Longrightarrow> handle_step q (set_phase t i (Returned r) q)"

text \<open>A waiter whose context ends.\<close>

inductive cancel_step :: "'r requests \<Rightarrow> 'r requests \<Rightarrow> bool" where
  Cancel: "t < length (rs_threads q) \<Longrightarrow> rs_threads q ! t = (i, Waiting) \<Longrightarrow>
    cancel_step q (set_phase t i CancelledWait q)"

definition requests_step :: "'r requests \<Rightarrow> 'r requests \<Rightarrow> bool" where
  "requests_step q q' \<longleftrightarrow> handle_step q q' \<or> cancel_step q q'"

text \<open>A broker that has just started, with the calls that will be made.\<close>

definition fresh_requests :: "string list \<Rightarrow> 'r requests" where
  "fresh_requests ids = \<lparr>rs_recorded = (\<lambda>_. None), rs_inflight = {},
     rs_threads = map (\<lambda>i. (i, Arrived)) ids, rs_runs = []\<rparr>"

section \<open>The invariant\<close>

definition in_phase :: "'r requests \<Rightarrow> nat \<Rightarrow> string \<Rightarrow> 'r phase \<Rightarrow> bool" where
  "in_phase q t i p \<longleftrightarrow> t < length (rs_threads q) \<and> rs_threads q ! t = (i, p)"

lemma in_phase_set:
  "t < length (rs_threads q) \<Longrightarrow>
   in_phase (set_phase t i p q) u j x \<longleftrightarrow> (if u = t then (j, x) = (i, p) else in_phase q u j x)"
  by (auto simp: in_phase_def nth_list_update)

definition runs_of :: "string \<Rightarrow> 'r requests \<Rightarrow> 'r list" where
  "runs_of i q = map snd (filter (\<lambda>x. fst x = i) (rs_runs q))"

definition requests_inv :: "'r requests \<Rightarrow> bool" where
  "requests_inv q \<longleftrightarrow>
     (\<forall>t u i. in_phase q t i Running \<and> in_phase q u i Running \<and> i \<noteq> '''' \<longrightarrow> t = u) \<and>
     (\<forall>i. i \<in> rs_inflight q \<longleftrightarrow> i \<noteq> '''' \<and> (\<exists>t. in_phase q t i Running)) \<and>
     (\<forall>i. i \<noteq> '''' \<longrightarrow> runs_of i q = (case rs_recorded q i of None \<Rightarrow> [] | Some r \<Rightarrow> [r])) \<and>
     (\<forall>i \<in> rs_inflight q. rs_recorded q i = None) \<and>
     (\<forall>t i. in_phase q t i Waiting \<longrightarrow> i \<noteq> '''' \<and> (i \<in> rs_inflight q \<or> rs_recorded q i \<noteq> None)) \<and>
     (\<forall>t i r. in_phase q t i (Returned r) \<and> i \<noteq> '''' \<longrightarrow> rs_recorded q i = Some r)"

lemma fresh_inv: "requests_inv (fresh_requests ids)"
  by (auto simp: requests_inv_def fresh_requests_def in_phase_def runs_of_def)

lemma thread_phase:
  "rs_threads q ! t = (i, p) \<Longrightarrow> t < length (rs_threads q) \<Longrightarrow> in_phase q t j x \<longleftrightarrow> (j, x) = (i, p)"
  by (auto simp: in_phase_def)

lemma invD:
  assumes "requests_inv q"
  shows running_unique: "in_phase q t i Running \<Longrightarrow> in_phase q u i Running \<Longrightarrow> i \<noteq> '''' \<Longrightarrow> t = u"
    and inflight_iff: "i \<in> rs_inflight q \<longleftrightarrow> i \<noteq> '''' \<and> (\<exists>t. in_phase q t i Running)"
    and runs_recorded: "i \<noteq> '''' \<Longrightarrow> runs_of i q = (case rs_recorded q i of None \<Rightarrow> [] | Some r \<Rightarrow> [r])"
    and inflight_new: "i \<in> rs_inflight q \<Longrightarrow> rs_recorded q i = None"
    and waiting_served: "in_phase q t i Waiting \<Longrightarrow> i \<noteq> '''' \<and> (i \<in> rs_inflight q \<or> rs_recorded q i \<noteq> None)"
    and returned_recorded: "in_phase q t i (Returned r) \<Longrightarrow> i \<noteq> '''' \<Longrightarrow> rs_recorded q i = Some r"
  using assms unfolding requests_inv_def by blast+

lemma invI:
  assumes "\<And>t u i. in_phase q t i Running \<Longrightarrow> in_phase q u i Running \<Longrightarrow> i \<noteq> '''' \<Longrightarrow> t = u"
    and "\<And>i. i \<in> rs_inflight q \<longleftrightarrow> i \<noteq> '''' \<and> (\<exists>t. in_phase q t i Running)"
    and "\<And>i. i \<noteq> '''' \<Longrightarrow> runs_of i q = (case rs_recorded q i of None \<Rightarrow> [] | Some r \<Rightarrow> [r])"
    and "\<And>i. i \<in> rs_inflight q \<Longrightarrow> rs_recorded q i = None"
    and "\<And>t i. in_phase q t i Waiting \<Longrightarrow> i \<noteq> '''' \<and> (i \<in> rs_inflight q \<or> rs_recorded q i \<noteq> None)"
    and "\<And>t i r. in_phase q t i (Returned r) \<Longrightarrow> i \<noteq> '''' \<Longrightarrow> rs_recorded q i = Some r"
  shows "requests_inv q"
proof -
  have "\<forall>t u i. in_phase q t i Running \<and> in_phase q u i Running \<and> i \<noteq> '''' \<longrightarrow> t = u"
    using assms(1) by blast
  moreover have "\<forall>i. i \<in> rs_inflight q \<longleftrightarrow> i \<noteq> '''' \<and> (\<exists>t. in_phase q t i Running)"
    using assms(2) by blast
  moreover have "\<forall>t i r. in_phase q t i (Returned r) \<and> i \<noteq> '''' \<longrightarrow> rs_recorded q i = Some r"
    using assms(6) by blast
  moreover have "\<forall>i. i \<noteq> '''' \<longrightarrow> runs_of i q = (case rs_recorded q i of None \<Rightarrow> [] | Some r \<Rightarrow> [r])"
    "\<forall>i \<in> rs_inflight q. rs_recorded q i = None"
    "\<forall>t i. in_phase q t i Waiting \<longrightarrow> i \<noteq> '''' \<and> (i \<in> rs_inflight q \<or> rs_recorded q i \<noteq> None)"
    using assms(3-5) by blast+
  ultimately show ?thesis
    unfolding requests_inv_def by (intro conjI) assumption+
qed

text \<open>What a step of thread \<open>t\<close> to phase \<open>p\<close> does to the phases of all threads.\<close>

definition moved :: "'r requests \<Rightarrow> nat \<Rightarrow> string \<Rightarrow> 'r phase \<Rightarrow> 'r requests \<Rightarrow> bool" where
  "moved q t i p q' \<longleftrightarrow> t < length (rs_threads q) \<and> rs_threads q' = (rs_threads q)[t := (i, p)]"

lemma moved_phase:
  "moved q t i p q' \<Longrightarrow> in_phase q' u j x \<longleftrightarrow> (if u = t then (j, x) = (i, p) else in_phase q u j x)"
  by (auto simp: moved_def in_phase_def nth_list_update)

lemma in_one_phase: "in_phase q t i p \<Longrightarrow> in_phase q t j x \<longleftrightarrow> (j, x) = (i, p)"
  by (auto simp: in_phase_def)

lemma inv_set_phase:
  assumes q: "requests_inv q" and t: "in_phase q t i p" "p \<noteq> Running" and p': "p' \<noteq> Running"
    and m: "moved q t i p' q'" and eq: "rs_inflight q' = rs_inflight q" "rs_recorded q' = rs_recorded q"
      "rs_runs q' = rs_runs q"
    and w: "p' = Waiting \<Longrightarrow> i \<noteq> '''' \<and> i \<in> rs_inflight q"
    and r: "\<And>r. p' = Returned r \<Longrightarrow> i \<noteq> '''' \<Longrightarrow> rs_recorded q i = Some r"
  shows "requests_inv q'"
proof -
  note ph = moved_phase [OF m]
  have run: "in_phase q' u j Running \<longleftrightarrow> in_phase q u j Running" for u j
    using t p' in_one_phase [OF t(1), of j Running] unfolding ph by auto
  show ?thesis
  proof (rule invI, goal_cases)
    case (5 u j)
    then show ?case using waiting_served [OF q, of u j] w by (simp add: ph eq split: if_splits)
  next
    case (6 u j s)
    then show ?case using returned_recorded [OF q, of u j s] r by (simp add: ph eq split: if_splits)
  qed (use running_unique [OF q] inflight_iff [OF q] runs_recorded [OF q] inflight_new [OF q]
      in \<open>simp_all add: runs_of_def run eq\<close>)
qed

text \<open>A thread that starts to run: with an ID not in flight, or with the empty one.\<close>

lemma inv_begin:
  assumes q: "requests_inv q" and t: "in_phase q t i Arrived" and m: "moved q t i Running q'"
    and new: "i \<noteq> '''' \<Longrightarrow> i \<notin> rs_inflight q \<and> rs_recorded q i = None"
    and eq: "rs_inflight q' = (if i = '''' then rs_inflight q else insert i (rs_inflight q))"
      "rs_recorded q' = rs_recorded q" "rs_runs q' = rs_runs q"
  shows "requests_inv q'"
proof -
  note ph = moved_phase [OF m] and at = in_one_phase [OF t]
  have no: "i \<noteq> '''' \<Longrightarrow> \<not> in_phase q u i Running" for u
    using inflight_iff [OF q, of i] new by blast
  have run: "in_phase q' u j Running \<longleftrightarrow> in_phase q u j Running \<or> u = t \<and> j = i" for u j
    using at unfolding ph by auto
  show ?thesis
  proof (rule invI, goal_cases)
    case (1 u v j)
    then show ?case using running_unique [OF q] no unfolding run by blast
  next
    case (2 j)
    then show ?case using inflight_iff [OF q, of j] unfolding run eq by auto
  next
    case (5 u j)
    then show ?case using waiting_served [OF q, of u j] by (simp add: ph eq split: if_splits)
  next
    case (6 u j r)
    then show ?case using returned_recorded [OF q, of u j r] by (simp add: ph eq split: if_splits)
  qed (use runs_recorded [OF q] inflight_new [OF q] new in \<open>auto simp: runs_of_def eq split: if_splits\<close>)
qed

text \<open>A thread that ends its run.\<close>

lemma inv_finish:
  assumes q: "requests_inv q" and t: "in_phase q t i Running" and m: "moved q t i (Returned r) q'"
    and eq: "rs_recorded q' = (if i = '''' then rs_recorded q else (rs_recorded q)(i \<mapsto> r))"
      "rs_inflight q' = rs_inflight q - {i}" "rs_runs q' = (i, r) # rs_runs q"
  shows "requests_inv q'"
proof -
  note ph = moved_phase [OF m] and at = in_one_phase [OF t]
  have new: "i \<noteq> '''' \<Longrightarrow> rs_recorded q i = None"
    using inflight_iff [OF q] inflight_new [OF q] t by blast
  have only: "in_phase q u i Running \<Longrightarrow> i \<noteq> '''' \<Longrightarrow> u = t" for u
    using running_unique [OF q] t by blast
  have run: "in_phase q' u j Running \<longleftrightarrow> in_phase q u j Running \<and> u \<noteq> t" for u j
    unfolding ph by auto
  show ?thesis
  proof (rule invI, goal_cases)
    case (1 u v j)
    then show ?case using running_unique [OF q] unfolding run by blast
  next
    case (2 j)
    show ?case
    proof (cases "j = i")
      case True
      then show ?thesis using only unfolding run eq by auto
    next
      case False
      then show ?thesis using inflight_iff [OF q, of j] at [of j Running] unfolding run eq by auto
    qed
  next
    case (3 j)
    then show ?case using runs_recorded [OF q, of j] new by (cases "j = i") (auto simp: runs_of_def eq)
  next
    case (5 u j)
    then show ?case using waiting_served [OF q, of u j] by (auto simp: ph eq split: if_splits)
  next
    case (6 u j s)
    then show ?case using returned_recorded [OF q, of u j s] new by (auto simp: ph eq split: if_splits)
  qed (use inflight_new [OF q] in \<open>auto simp: eq split: if_splits\<close>)
qed

lemma step_inv: "handle_step q q' \<Longrightarrow> requests_inv q \<Longrightarrow> requests_inv q'"
proof (induction rule: handle_step.induct)
  case (Recorded t q i r)
  then show ?case by - (rule inv_set_phase [of q t i Arrived "Returned r"], simp_all add: in_phase_def moved_def)
next
  case (Wait t q i)
  then show ?case by - (rule inv_set_phase [of q t i Arrived Waiting], simp_all add: in_phase_def moved_def)
next
  case (Begin t q i)
  then show ?case by - (rule inv_begin [of q t i], simp_all add: in_phase_def moved_def)
next
  case (Begin_unnamed t q)
  then show ?case by - (rule inv_begin [of q t "[]"], simp_all add: in_phase_def moved_def)
next
  case (Finish t q i r)
  then show ?case by - (rule inv_finish [of q t i r], simp_all add: in_phase_def moved_def)
next
  case (Finish_unnamed t q r)
  then show ?case
    using inflight_iff [of q "[]"] by - (rule inv_finish [of q t "[]" r], simp_all add: in_phase_def moved_def)
next
  case (Wake t q i r)
  then show ?case by - (rule inv_set_phase [of q t i Waiting "Returned r"], simp_all add: in_phase_def moved_def)
qed

lemma cancel_inv: "cancel_step q q' \<Longrightarrow> requests_inv q \<Longrightarrow> requests_inv q'"
proof (induction rule: cancel_step.induct)
  case (Cancel t q i)
  then show ?case by - (rule inv_set_phase [of q t i Waiting CancelledWait], simp_all add: in_phase_def moved_def)
qed

lemma reachable_inv: "requests_step\<^sup>*\<^sup>* (fresh_requests ids) q \<Longrightarrow> requests_inv q"
  by (induction rule: rtranclp_induct)
    (auto simp: requests_step_def fresh_inv intro: step_inv cancel_inv)

text \<open>So each ID is run at most once, and all its calls that return have the response of that run.\<close>

lemma reachable_once:
  assumes "requests_step\<^sup>*\<^sup>* (fresh_requests ids) q" and "i \<noteq> []"
  shows "length (runs_of i q) \<le> 1" and "in_phase q t i (Returned r) \<Longrightarrow> runs_of i q = [r]"
  using runs_recorded [OF reachable_inv [OF assms(1)] assms(2)]
    returned_recorded [OF reachable_inv [OF assms(1)], of t i r] assms(2)
  by (auto split: option.splits)

section \<open>Every call comes back\<close>

fun phase_weight :: "'r phase \<Rightarrow> nat" where
  "phase_weight Arrived = 2"
| "phase_weight Waiting = 1"
| "phase_weight Running = 1"
| "phase_weight _ = 0"

definition weight :: "'r requests \<Rightarrow> nat" where
  "weight q = sum_list (map (\<lambda>x. phase_weight (snd x)) (rs_threads q))"

lemma weight_update:
  assumes t: "t < length xs" and p: "phase_weight p < phase_weight (snd (xs ! t))"
  shows "sum_list (map (\<lambda>x. phase_weight (snd x)) (xs[t := (i, p)])) <
     sum_list (map (\<lambda>x. phase_weight (snd x)) xs)"
proof -
  let ?ws = "map (\<lambda>x. phase_weight (snd x)) xs"
  have "sum_list (?ws[t := phase_weight p]) = sum_list ?ws + phase_weight p - ?ws ! t"
    using t by (intro sum_list_update) simp
  then show ?thesis
    using t p elem_le_sum_list [of t ?ws] by (simp add: map_update)
qed

lemma handle_weight: "handle_step q q' \<Longrightarrow> weight q' < weight q"
  by (induction rule: handle_step.induct) (simp_all add: weight_def weight_update)

lemma cancel_weight: "cancel_step q q' \<Longrightarrow> weight q' < weight q"
  by (induction rule: cancel_step.induct) (simp add: weight_def weight_update)

lemma requests_wf: "wf {(q', q). requests_step q q'}"
  by (rule wf_subset [OF wf_measure [of weight]])
    (auto simp: requests_step_def intro: handle_weight cancel_weight)

text \<open>No call is stuck: until all have returned, one can go on without a cancellation.\<close>

lemma progress:
  assumes q: "requests_inv q" and t: "in_phase q t i p" and p: "\<And>r. p \<noteq> Returned r" "p \<noteq> CancelledWait"
  shows "\<exists>q'. handle_step q q'"
proof -
  have run: "\<exists>q'. handle_step q q'" if "in_phase q u j Running" for u j
    using that by (cases "j = []") (auto simp: in_phase_def intro: Finish Finish_unnamed)
  show ?thesis
  proof (cases p)
    case Arrived
    with t show ?thesis
      by (cases "i = []"; cases "rs_recorded q i"; cases "i \<in> rs_inflight q")
        (auto simp: in_phase_def intro: Recorded Wait Begin Begin_unnamed)
  next
    case Waiting
    with waiting_served [OF q] t have i: "i \<noteq> []" "i \<in> rs_inflight q \<or> rs_recorded q i \<noteq> None" by blast+
    show ?thesis
    proof (cases "i \<in> rs_inflight q")
      case True
      then show ?thesis using inflight_iff [OF q] run by blast
    next
      case False
      then show ?thesis using t Waiting i by (auto simp: in_phase_def intro: Wake)
    qed
  qed (use t p run in auto)
qed

text \<open>So every schedule can be completed without a cancellation, and then all calls are back.\<close>

definition came_back :: "'r phase \<Rightarrow> bool" where
  "came_back p \<longleftrightarrow> (case p of Returned r \<Rightarrow> True | CancelledWait \<Rightarrow> True | _ \<Rightarrow> False)"

definition all_back :: "'r requests \<Rightarrow> bool" where
  "all_back q \<longleftrightarrow> list_all (\<lambda>(i, p). came_back p) (rs_threads q)"

lemma not_all_back:
  "\<not> all_back q \<Longrightarrow> \<exists>t i p. in_phase q t i p \<and> (\<forall>r. p \<noteq> Returned r) \<and> p \<noteq> CancelledWait"
  by (force simp: all_back_def list_all_length in_phase_def came_back_def split: phase.splits)

lemma settles: "requests_inv q \<Longrightarrow> \<exists>q'. handle_step\<^sup>*\<^sup>* q q' \<and> all_back q'"
proof (induction "weight q" arbitrary: q rule: less_induct)
  case less
  show ?case
  proof (cases "all_back q")
    case False
    then obtain q1 where q1: "handle_step q q1"
      using not_all_back progress [OF less.prems] by blast
    from less.hyps [OF handle_weight [OF q1] step_inv [OF q1 less.prems]] obtain q' where
      "handle_step\<^sup>*\<^sup>* q1 q'" "all_back q'" by blast
    then show ?thesis using q1 by (meson converse_rtranclp_into_rtranclp)
  qed blast
qed

end
