(* ===== verification/Store_Laws.thy ===== *)
theory Store_Laws
  imports Store
begin

text \<open>
  What the broker's store guarantees: every record is kept under its own name inside the
  user's root and reads back as written; a committed parent resolves as valid; and a
  collection never removes a parent that a lease, a pending build or a retained child names.
\<close>

section \<open>The layout\<close>

definition placed :: "cpath \<Rightarrow> string \<Rightarrow> string \<Rightarrow> bool" where
  "placed u name d \<longleftrightarrow> IsAbs d \<and> comps d = u @ [name]"

definition well_placed :: "Paths \<Rightarrow> cpath \<Rightarrow> bool" where
  "well_placed s u \<longleftrightarrow> placed u ''parents'' (pt_Parents s) \<and> placed u ''pending'' (pt_Pending s) \<and>
     placed u ''children'' (pt_Children s) \<and> placed u ''leases'' (pt_Leases s) \<and>
     placed u ''retained'' (pt_Retained s) \<and> placed u ''quarantine'' (pt_Quarantine s) \<and>
     placed u ''receipts'' (pt_Receipts s)"

lemma TrimSpace_Nil [simp]: "TrimSpace '''' = ''''"
proof -
  have "find (\<lambda>p. p \<noteq> [] \<and> prefix p []) ps = None" for ps :: "string list"
    by (simp add: find_None_iff)
  then have "trim_front ps [] = []" for ps by (subst trim_front.simps) simp
  then show ?thesis by (simp add: TrimSpace_def)
qed

lemma NewPaths_layout:
  assumes "NewPaths root sid = Inr s" and "sid \<notin> {''.'', ''..''}"
  shows "well_placed s (comps root @ [sid])" and "proper sid"
proof -
  from assms(1) have root: "IsAbs root" and ts: "TrimSpace sid \<noteq> ''''"
    and sl: "\<not> list_ex (\<lambda>c. c = CHR ''/'' \<or> c = CHR 0x5C) sid"
    by (auto simp: NewPaths_def split: if_splits)
  have "sid \<noteq> ''''" using ts by auto
  with sl assms(2) show sid: "proper sid"
    by (auto simp: proper_def list_ex_iff)
  have u: "IsAbs (Join [Clean root, sid])" "comps (Join [Clean root, sid]) = comps root @ [sid]"
    using root sid by (simp_all add: IsAbs_Join comps_Join comps_Clean IsAbs_Clean)
  have n: "placed (comps root @ [sid]) x (Join [Join [Clean root, sid], x])" if "proper x" for x
    using u that by (simp add: placed_def IsAbs_Join comps_Join)
  have "s = \<lparr>pt_Root = Clean root, pt_UserRoot = Join [Clean root, sid],
     pt_Parents = Join [Join [Clean root, sid], ''parents''],
     pt_Pending = Join [Join [Clean root, sid], ''pending''],
     pt_Children = Join [Join [Clean root, sid], ''children''],
     pt_Leases = Join [Join [Clean root, sid], ''leases''],
     pt_Retained = Join [Join [Clean root, sid], ''retained''],
     pt_Quarantine = Join [Join [Clean root, sid], ''quarantine''],
     pt_Receipts = Join [Join [Clean root, sid], ''receipts'']\<rparr>"
    using assms(1) root ts sl by (simp add: NewPaths_def Let_def)
  then show "well_placed s (comps root @ [sid])"
    unfolding well_placed_def by (simp add: n) (intro conjI n; simp add: proper_def)
qed

section \<open>Reading records\<close>

definition read_as :: "(json \<Rightarrow> 'a option) \<Rightarrow> cpath \<Rightarrow> fsys \<Rightarrow> err + 'a" where
  "read_as dec p f = (case fs_read p f of Inl e \<Rightarrow> Inl e | Inr c \<Rightarrow> decode_first dec (stream c))"

lemma read_as_written:
  "holds_file p (json_content e b j) perm f \<Longrightarrow> dec j = Some a \<Longrightarrow> read_as dec p f = Inr a"
  by (simp add: read_as_def holds_file_read json_content_def)

lemma store_readJSON_spec:
  "wp (store_readJSON p dec) (\<lambda>r v. same w v \<and> (r = Inl EIO \<or> r = read_as dec (comps p) (w_fs w))) w"
  unfolding store_readJSON_def
  by (cases "fs_read (comps p) (w_fs w)"; rule wp_attemptI [OF os_read_specs(4)])
    (auto simp: wp_simps read_as_def)

definition lease_at :: "Paths \<Rightarrow> string \<Rightarrow> fsys \<Rightarrow> err + LeaseJournal" where
  "lease_at s i f = (case Paths_Lease s i of Inl e \<Rightarrow> Inl e
     | Inr p \<Rightarrow> (case read_as dec_lease (comps p) f of Inl e \<Rightarrow> Inl e
        | Inr j \<Rightarrow> if jn_LeaseID j \<noteq> i \<or> jn_SchemaVersion j \<noteq> ProtocolSchemaVersion
            then Inl ErrOwnershipMismatch else Inr j))"

lemma Store_ReadLease_spec:
  "wp (Store_ReadLease s i) (\<lambda>r v. same w v \<and> (r = Inl EIO \<or> r = lease_at s i (w_fs w))) w"
proof (cases "Paths_Lease s i")
  case (Inr p)
  then show ?thesis
    unfolding Store_ReadLease_def lease_at_def sum.case Inr
    by (intro wp_attemptI [OF store_readJSON_spec]) (auto simp: wp_simps split: sum.splits)
qed (simp add: Store_ReadLease_def lease_at_def wp_simps)

definition retained_at :: "Paths \<Rightarrow> string \<Rightarrow> fsys \<Rightarrow> err + RetainedRecord" where
  "retained_at s i f = (case Paths_RetainedRecord s i of Inl e \<Rightarrow> Inl e
     | Inr p \<Rightarrow> (case read_as dec_retained (comps p) f of Inl e \<Rightarrow> Inl e
        | Inr r \<Rightarrow> if rr_SchemaVersion r \<noteq> ProtocolSchemaVersion \<or> rr_RunID r \<noteq> i
            then Inl ErrOwnershipMismatch else Inr r))"

lemma ReadRetained_spec:
  "wp (ReadRetained s i) (\<lambda>r v. same w v \<and> (r = Inl EIO \<or> r = retained_at s i (w_fs w))) w"
proof (cases "Paths_RetainedRecord s i")
  case (Inr p)
  then show ?thesis
    unfolding ReadRetained_def retained_at_def sum.case Inr
    by (intro wp_attemptI [OF store_readJSON_spec]) (auto simp: wp_simps split: sum.splits)
qed (simp add: ReadRetained_def retained_at_def wp_simps)

definition pending_at :: "Paths \<Rightarrow> string \<Rightarrow> fsys \<Rightarrow> err + PendingParent" where
  "pending_at s k f = (if \<not> compatibility k then Inl ErrInvalidInput
     else case read_as dec_pending_parent (comps (Join [pt_Pending s, k, ''pending.json''])) f of
       Inl e \<Rightarrow> Inl e
     | Inr p \<Rightarrow> if ck_Digest (pp_Key p) \<noteq> k \<or>
           pp_StagingPath p \<noteq> Join [pt_Pending s, k, ''parent.staging.vhdx'']
         then Inl ErrOwnershipMismatch else Inr p)"

lemma ReadPending_spec:
  "wp (ReadPending s k) (\<lambda>r v. same w v \<and> (r = Inl EIO \<or> r = pending_at s k (w_fs w))) w"
proof (cases "compatibility k")
  case True
  then show ?thesis
    unfolding ReadPending_def pending_at_def
    by (simp, intro wp_attemptI [OF store_readJSON_spec]) (auto simp: wp_simps split: sum.splits)
qed (simp add: ReadPending_def pending_at_def wp_simps)

section \<open>Leases\<close>

definition stamped :: "int \<Rightarrow> LeaseJournal \<Rightarrow> LeaseJournal" where
  "stamped t j = j\<lparr>jn_SchemaVersion := ProtocolSchemaVersion, jn_UpdatedAt := t,
     jn_CreatedAt := (if jn_CreatedAt j = 0 then t else jn_CreatedAt j)\<rparr>"

lemma lease_path:
  assumes "well_placed s u" and "is_identifier i"
  shows "target (Join [pt_Leases s, i @ ''.json''])"
    and "comps (Join [pt_Leases s, i @ ''.json'']) = u @ [''leases'', i @ ''.json'']"
  using assms identifier_proper_suffix [of i "''.json''"]
  by (auto simp: well_placed_def placed_def comps_Join intro: target_Join)

lemma Store_WriteLease_success:
  assumes s: "well_placed s u"
  shows "wp (Store_WriteLease s j) (\<lambda>r v. r = None \<longrightarrow> is_identifier (jn_LeaseID j) \<and>
     (\<exists>t e. holds_file (comps (Join [pt_Leases s, jn_LeaseID j @ ''.json'']))
        (json_content e True (enc_lease (stamped t j))) 384 (w_fs v))) w"
proof (cases "is_identifier (jn_LeaseID j)")
  case True
  let ?p = "Join [pt_Leases s, jn_LeaseID j @ ''.json'']"
  have w: "wp (WriteDurable ?p (json_content e True (enc_lease (stamped t j))) 384)
      (\<lambda>r v. r = None \<longrightarrow> (\<exists>t e. holds_file (comps ?p)
        (json_content e True (enc_lease (stamped t j))) 384 (w_fs v))) v" for t e v
    by (rule wp_mono [OF WriteDurable_success [OF lease_path(1) [OF s True]]]) blast
  show ?thesis
    unfolding Store_WriteLease_def writeJSONDurable_def
    using True w [unfolded stamped_def]
    by (intro wp_skip(2)) (auto simp: Paths_Lease_def wp_simps env_get_def time_Now_def stamped_def)
next
  case False
  then show ?thesis
    unfolding Store_WriteLease_def by (intro wp_skip(2)) (simp_all add: Paths_Lease_def wp_simps)
qed

lemma WriteLease_ReadLease:
  assumes s: "well_placed s u" and j: "go_int (jn_ClientPID j)" "go_int (jn_UnityPID j)"
  shows "wp (do { a \<leftarrow> Store_WriteLease s j; b \<leftarrow> Store_ReadLease s (jn_LeaseID j); ret (a, b) })
     (\<lambda>(a, b) _. a = None \<longrightarrow> b = Inl EIO \<or> (\<exists>t. b = Inr (stamped t j))) w"
proof (rule wp_bindI [OF Store_WriteLease_success [OF s]], rule wp_bindI [OF Store_ReadLease_spec])
  fix a :: "err option" and v b and x :: "'a world_scheme"
  assume a: "a = None \<longrightarrow> is_identifier (jn_LeaseID j) \<and>
     (\<exists>t e. holds_file (comps (Join [pt_Leases s, jn_LeaseID j @ ''.json'']))
        (json_content e True (enc_lease (stamped t j))) 384 (w_fs v))"
    and b: "same v x \<and> (b = Inl EIO \<or> b = lease_at s (jn_LeaseID j) (w_fs v))"
  have "b = Inl EIO \<or> (\<exists>t. b = Inr (stamped t j))" if "a = None"
  proof -
    from a that obtain t e where i: "is_identifier (jn_LeaseID j)" and
      h: "holds_file (comps (Join [pt_Leases s, jn_LeaseID j @ ''.json'']))
        (json_content e True (enc_lease (stamped t j))) 384 (w_fs v)" by blast
    have "dec_lease (enc_lease (stamped t j)) = Some (stamped t j)"
      using j by (intro dec_enc_lease) (simp_all add: stamped_def ProtocolSchemaVersion_def go_int_def)
    from read_as_written [OF h, where dec = dec_lease, OF this] i have "lease_at s (jn_LeaseID j) (w_fs v) = Inr (stamped t j)"
      by (simp add: lease_at_def Paths_Lease_def stamped_def)
    with b show ?thesis by auto
  qed
  then show "wp (ret (a, b)) (\<lambda>(a, b) _. a = None \<longrightarrow> b = Inl EIO \<or> (\<exists>t. b = Inr (stamped t j))) x"
    by (simp add: wp_ret)
qed

text \<open>A lease file is removed only when it records the same token, child and parent.\<close>

lemma RemoveLease_guarded:
  "wp (RemoveLease s j) (\<lambda>r v. w_fs v = w_fs w \<or>
     (\<exists>a. lease_at s (jn_LeaseID j) (w_fs w) = Inr a \<and> jn_OwnershipToken a = jn_OwnershipToken j \<and>
        jn_ChildPath a = jn_ChildPath j \<and> jn_ParentKey a = jn_ParentKey j \<and>
        fs_remove (comps (Join [pt_Leases s, jn_LeaseID j @ ''.json''])) (w_fs w) = Inr (w_fs v))) w"
  unfolding RemoveLease_def
  by (rule wp_attemptI [OF Store_ReadLease_spec])
    (auto simp: wp_simps same_def os_Remove_def split: sum.splits)

section \<open>Garbage collection\<close>

definition listing :: "string \<Rightarrow> fsys \<Rightarrow> (string \<times> node) list" where
  "listing p f = (case fs_readdir (comps p) f of Inl _ \<Rightarrow> [] | Inr es \<Rightarrow> es)"

lemma entries_if_any_spec:
  "wp (entries_if_any p) (\<lambda>r v. same w v \<and> (\<forall>es. r = Inr es \<longrightarrow> es = listing p (w_fs w))) w"
  unfolding entries_if_any_def
  by (rule wp_bindI [OF os_read_specs(5)]) (auto simp: wp_simps listing_def split: sum.splits if_splits)

lemma protect_spec:
  assumes "\<And>x v. x \<in> set es \<Longrightarrow> w_fs v = f \<Longrightarrow> wp (g x) (\<lambda>r v'. same v v' \<and> (\<forall>k. r = Inr k \<longrightarrow> P x k)) v"
    and "w_fs w = f"
  shows "wp (protect g K es) (\<lambda>r v. same w v \<and>
     (\<forall>K'. r = Inr K' \<longrightarrow> K \<subseteq> K' \<and> (\<forall>x \<in> set es. \<exists>k \<in> K'. P x k))) w"
  using assms
proof (induction es arbitrary: K w)
  case Nil
  then show ?case by (simp add: wp_simps)
next
  case (Cons x es)
  note step = Cons.prems(1) [of x w, OF _ Cons.prems(2), simplified]
  show ?case
    unfolding protect.simps
  proof (rule wp_attemptI [OF step], goal_cases)
    case (2 k v)
    then have v: "w_fs v = f" "same w v" "P x k" using Cons.prems(2) by (auto simp: same_def)
    show ?case
      by (rule wp_mono [OF Cons.IH [of v "insert k K"]])
        (use v Cons.prems(1) in \<open>auto intro: same_trans\<close>)
  qed (simp add: wp_ret)
qed

definition stem :: "string \<Rightarrow> string" where
  "stem name = TrimSuffix name (Ext name)"

definition lease_names :: "Paths \<Rightarrow> fsys \<Rightarrow> string \<times> node \<Rightarrow> string \<Rightarrow> bool" where
  "lease_names s f x k \<longleftrightarrow> (\<exists>j. lease_at s (stem (fst x)) f = Inr j \<and> k = jn_ParentKey j)"

definition retained_names :: "Paths \<Rightarrow> fsys \<Rightarrow> string \<times> node \<Rightarrow> string \<Rightarrow> bool" where
  "retained_names s f x k \<longleftrightarrow> (\<exists>r. retained_at s (stem (fst x)) f = Inr r \<and> k = rr_ParentKey r)"

lemma lease_reference_spec:
  "wp (lease_reference s x) (\<lambda>r v. same w v \<and> (\<forall>k. r = Inr k \<longrightarrow> lease_names s (w_fs w) x k)) w"
proof -
  have "wp (attempt (Store_ReadLease s (stem (fst x)))
       (\<lambda>e. ret (Inl (Joined [e, unknown ''invalid lease parent reference '' (fst x)])))
       (\<lambda>journal. ret (if \<not> compatibility (jn_ParentKey journal)
          then Inl (Joined [unknown ''invalid lease parent reference '' (fst x)])
          else Inr (jn_ParentKey journal))))
     (\<lambda>r v. same w v \<and> (\<forall>k. r = Inr k \<longrightarrow> lease_names s (w_fs w) x k)) w"
    by (rule wp_attemptI [OF Store_ReadLease_spec])
      (auto simp: wp_ret lease_names_def split: if_splits intro: sym)
  then show ?thesis by (simp add: lease_reference_def stem_def wp_simps Let_def)
qed

lemma pending_reference_spec:
  "wp (pending_reference s x) (\<lambda>r v. same w v \<and> (\<forall>k. r = Inr k \<longrightarrow> k = fst x)) w"
proof -
  have "wp (attempt (ReadPending s (fst x))
       (\<lambda>e. ret (Inl (Joined [e, unknown ''invalid pending parent reference '' (fst x)])))
       (\<lambda>pending. ret (Inr (ck_Digest (pp_Key pending)))))
     (\<lambda>r v. same w v \<and> (\<forall>k. r = Inr k \<longrightarrow> k = fst x)) w"
    by (rule wp_attemptI [OF ReadPending_spec])
      (auto simp: wp_ret pending_at_def split: if_splits sum.splits)
  then show ?thesis by (simp add: pending_reference_def wp_simps Let_def)
qed

lemma retained_reference_spec:
  "wp (retained_reference s x) (\<lambda>r v. same w v \<and> (\<forall>k. r = Inr k \<longrightarrow> retained_names s (w_fs w) x k)) w"
proof -
  have "wp (attempt (ReadRetained s (stem (fst x)))
       (\<lambda>e. ret (Inl (Joined [e, unknown ''invalid retained parent reference '' (fst x)])))
       (\<lambda>r. ret (if \<not> compatibility (rr_ParentKey r)
          then Inl (Joined [unknown ''invalid retained parent reference '' (fst x)])
          else Inr (rr_ParentKey r))))
     (\<lambda>r v. same w v \<and> (\<forall>k. r = Inr k \<longrightarrow> retained_names s (w_fs w) x k)) w"
    by (rule wp_attemptI [OF ReadRetained_spec])
      (auto simp: wp_ret retained_names_def split: if_splits intro: sym)
  then show ?thesis by (simp add: retained_reference_def stem_def wp_simps Let_def)
qed

text \<open>Every parent that an entry of the three directories names.\<close>

definition references :: "Paths \<Rightarrow> fsys \<Rightarrow> string \<Rightarrow> bool" where
  "references s f k \<longleftrightarrow>
     (\<exists>x \<in> set (listing (pt_Leases s) f). lease_names s f x k) \<or>
     (\<exists>x \<in> set (listing (pt_Pending s) f). k = fst x) \<or>
     (\<exists>x \<in> set (listing (pt_Retained s) f). retained_names s f x k)"

lemma lease_names_unique: "lease_names s f x k \<Longrightarrow> lease_names s f x k' \<Longrightarrow> k = k'"
  and retained_names_unique: "retained_names s f x k \<Longrightarrow> retained_names s f x k' \<Longrightarrow> k = k'"
  by (auto simp: lease_names_def retained_names_def)

lemma ProtectedParentKeys_spec:
  "wp (ProtectedParentKeys s) (\<lambda>r v. same w v \<and> (\<forall>K. r = Inr K \<longrightarrow>
     (\<forall>k. references s (w_fs w) k \<longrightarrow> k \<in> K) \<and> listing (pt_Quarantine s) (w_fs w) = [])) w"
proof -
  let ?f = "w_fs w"
  have P: "wp (protect g K es) (\<lambda>r v'. same w v' \<and>
      (\<forall>K'. r = Inr K' \<longrightarrow> K \<subseteq> K' \<and> (\<forall>x \<in> set es. \<exists>k \<in> K'. P x k))) v"
    if "same w v" "\<And>x u. w_fs u = ?f \<Longrightarrow> wp (g x) (\<lambda>r v'. same u v' \<and> (\<forall>k. r = Inr k \<longrightarrow> P x k)) u"
    for g :: "string \<times> node \<Rightarrow> ('a world_scheme, err + string) state" and K es P v
    by (rule wp_mono [OF protect_spec [where f = ?f and P = P]])
      (use that in \<open>auto simp: same_def\<close>)
  have L: "wp (entries_if_any p) (\<lambda>r v'. same w v' \<and> (\<forall>es. r = Inr es \<longrightarrow> es = listing p ?f)) v"
    if "same w v" for p v
    by (rule wp_mono [OF entries_if_any_spec]) (use that in \<open>auto simp: same_def\<close>)
  let ?L = "\<lambda>x k. \<forall>k'. lease_names s ?f x k' \<longrightarrow> k' = k" and ?R = "\<lambda>x k. \<forall>k'. retained_names s ?f x k' \<longrightarrow> k' = k"
  have names: "wp (lease_reference s x) (\<lambda>r v'. same u v' \<and> (\<forall>k. r = Inr k \<longrightarrow> ?L x k)) u"
    "wp (retained_reference s x) (\<lambda>r v'. same u v' \<and> (\<forall>k. r = Inr k \<longrightarrow> ?R x k)) u"
    if "w_fs u = ?f" for x and u :: "'a world_scheme"
    by (rule wp_mono [OF lease_reference_spec] wp_mono [OF retained_reference_spec];
        use that in \<open>auto dest: lease_names_unique retained_names_unique\<close>)+
  show ?thesis
    unfolding ProtectedParentKeys_def
    apply (rule wp_attemptI [OF L], simp, simp add: wp_ret)
    apply (rule wp_attemptI [OF P [where P = ?L]], simp, erule names(1), simp add: wp_ret)
    apply (rule wp_attemptI [OF L], simp, simp add: wp_ret)
    apply (rule wp_attemptI [OF P [where P = "\<lambda>x k. k = fst x"]], simp, rule pending_reference_spec,
        simp add: wp_ret)
    apply (rule wp_attemptI [OF L], simp, simp add: wp_ret)
    apply (rule wp_attemptI [OF P [where P = ?R]], simp, erule names(2), simp add: wp_ret)
    apply (rule wp_attemptI [OF L], simp, simp add: wp_ret)
    apply (simp add: wp_simps references_def)
    apply blast
    done
qed

lemma reads_still [eff_intros]:
  "keeps same (store_readJSON p dec)" "keeps same (validateRegular p)"
  "keeps same (ResolveParent s key)"
  unfolding ResolveParent_def store_readJSON_def validateRegular_def Let_def
  by (intro eff_intros TrueI)+

lemma RemoveParentIfUnused_frame:
  assumes s: "well_placed s u"
  shows "wp (RemoveParentIfUnused s key K) (\<lambda>r v.
     if key \<in> K \<or> \<not> compatibility key then v = w \<and> r \<noteq> Inr x
     else writes (subtree (u @ [''parents'', key])) w v) w"
proof (cases "key \<in> K \<or> \<not> compatibility key")
  case True
  then show ?thesis by (auto simp: RemoveParentIfUnused_def Paths_Parent_def wp_simps)
next
  case False
  then have "comps (Join [pt_Parents s, key]) = u @ [''parents'', key]"
    using s compatibility_proper [of key] by (simp add: well_placed_def placed_def comps_Join)
  then have "keeps (writes (subtree (u @ [''parents'', key]))) (RemoveParentIfUnused s key K)"
    unfolding RemoveParentIfUnused_def Paths_Parent_def using False
    by (simp, intro eff_intros os_RemoveAll_keeps TrueI keeps_same_writes) simp_all
  then show ?thesis by (rule wp_keeps) (use False in simp)
qed

text \<open>A collection pass for one key, as the broker makes it.\<close>

lemma collect_keeps_references:
  assumes s: "well_placed s u" and k: "references s (w_fs w) k" and q: "q \<in> subtree (u @ [''parents'', k])"
  shows "wp (attempt (ProtectedParentKeys s) (\<lambda>e. ret (Inl e)) (RemoveParentIfUnused s key))
     (\<lambda>r v. lookup (w_fs v) q = lookup (w_fs w) q) w"
proof (rule wp_attemptI [OF ProtectedParentKeys_spec], goal_cases)
  case (2 K v)
  then have K: "k \<in> K" and v: "w_fs v = w_fs w" using k by (auto simp: same_def)
  show ?case
  proof (rule wp_mono [OF RemoveParentIfUnused_frame [OF s]])
    fix r v'
    assume "if key \<in> K \<or> \<not> compatibility key then v' = v \<and> r \<noteq> Inr 0
      else writes (subtree (u @ [''parents'', key])) v v'"
    then show "lookup (w_fs v') q = lookup (w_fs w) q"
    proof (cases "key \<in> K \<or> \<not> compatibility key")
      case False
      with K q have "q \<notin> subtree (u @ [''parents'', key])" by (auto simp: prefix_def)
      with False show ?thesis using writes_lookup \<open>if _ then _ else _\<close> v by metis
    qed (use v in simp)
  qed
qed (simp add: wp_ret same_def)

section \<open>Committed parents\<close>

definition valid_parent :: "Paths \<Rightarrow> string \<Rightarrow> ParentMetadata \<Rightarrow> fsys \<Rightarrow> bool" where
  "valid_parent s k m f \<longleftrightarrow> (let d = Join [pt_Parents s, k] in
     lookup f (comps d) \<noteq> None \<and>
     (\<exists>perm. holds_file (comps (Join [d, ''COMPLETE''])) (Content completeContents [None]) perm f) \<and>
     read_as dec_metadata (comps (Join [d, ''metadata.json''])) f = Inr m \<and>
     pm_SchemaVersion m = ParentSchemaVersion \<and> pm_Provider m = Provider \<and>
     ck_Digest (pm_CompatibilityKey m) = k \<and> pm_Immutable m \<and>
     Clean (pm_VHDXPath m) = Clean (Join [d, ''parent.vhdx'']) \<and>
     (\<exists>n. lookup f (comps (Join [d, ''parent.vhdx''])) = Some n \<and> is_regular n))"

text \<open>A reader whose own calls do not fail resolves it as valid.\<close>

lemma ResolveParent_valid:
  assumes "valid_parent s (ck_Digest key) m (w_fs w)"
    and "ck_SchemaVersion key = ParentSchemaVersion" and "compatibility (ck_Digest key)"
    and "\<forall>t. \<not> e_fault (w_env w) t"
  shows "fst (run_state (ResolveParent s key) w) =
    Inr \<lparr>res_Status = ''valid'', res_Path = Join [Join [pt_Parents s, ck_Digest key], ''parent.vhdx''],
         res_Metadata = Some m, res_Reason = None\<rparr>"
proof -
  let ?d = "Join [pt_Parents s, ck_Digest key]"
  from assms(1) obtain dn cn perm pn where
    look: "lookup (w_fs w) (comps ?d) = Some dn"
      "lookup (w_fs w) (comps (Join [?d, ''COMPLETE''])) = Some cn"
      "n_kind cn = KFile (Content completeContents [None])"
      "lookup (w_fs w) (comps (Join [?d, ''parent.vhdx''])) = Some pn" "is_regular pn"
    and m: "read_as dec_metadata (comps (Join [?d, ''metadata.json''])) (w_fs w) = Inr m"
      "pm_SchemaVersion m = ParentSchemaVersion" "pm_Provider m = Provider"
      "ck_Digest (pm_CompatibilityKey m) = ck_Digest key" "pm_Immutable m"
      "Clean (pm_VHDXPath m) = Clean (Join [?d, ''parent.vhdx''])"
    by (auto simp: valid_parent_def Let_def holds_file_def)
  have c: "is_regular cn" "fs_read (comps (Join [?d, ''COMPLETE''])) (w_fs w) = Inr (Content completeContents [None])"
    using look(2,3) by (auto simp: is_regular_def fs_read_def follow_def)
  obtain mc where mc: "fs_read (comps (Join [?d, ''metadata.json''])) (w_fs w) = Inr mc"
    "decode_first dec_metadata (stream mc) = Inr m"
    using m(1) by (auto simp: read_as_def split: sum.splits)
  have "wp (ResolveParent s key) (\<lambda>r _. r =
    Inr \<lparr>res_Status = ''valid'', res_Path = Join [?d, ''parent.vhdx''],
         res_Metadata = Some m, res_Reason = None\<rparr>) w"
    using assms(2-4) look c mc m(2-6)
    by (simp add: ResolveParent_def Let_def validateRegular_def store_readJSON_def os_Lstat_def
        os_ReadFile_def wp_simps fs_lstat_def)
  then show ?thesis by (simp add: wp_def split: prod.splits)
qed

lemma pending_at_target:
  assumes "well_placed s u" and "pending_at s k f = Inr p"
  shows "compatibility k" "pp_StagingPath p = Join [pt_Pending s, k, ''parent.staging.vhdx'']"
    "target (pp_StagingPath p)" "comps (pp_StagingPath p) = u @ [''pending'', k, ''parent.staging.vhdx'']"
    "ck_Digest (pp_Key p) = k"
proof -
  from assms(2) show k: "compatibility k" and
    st: "pp_StagingPath p = Join [pt_Pending s, k, ''parent.staging.vhdx'']" and
    "ck_Digest (pp_Key p) = k"
    by (auto simp: pending_at_def split: if_splits sum.splits)
  have "proper ''parent.staging.vhdx''" by (simp add: proper_def)
  with k assms(1) show "target (pp_StagingPath p)"
    "comps (pp_StagingPath p) = u @ [''pending'', k, ''parent.staging.vhdx'']"
    unfolding st by (auto simp: well_placed_def placed_def comps_Join intro!: target_Join)
qed

definition published :: "cpath \<Rightarrow> fsys \<Rightarrow> bool" where
  "published d f \<longleftrightarrow> lookup f d \<noteq> None \<and> (\<exists>n. lookup f (d @ [''parent.vhdx'']) = Some n \<and> is_regular n)"

lemma published_frame:
  assumes "writes S v w" and "published d (w_fs v)" and "d \<notin> S" and "d @ [''parent.vhdx''] \<notin> S"
  shows "published d (w_fs w)"
  using assms writes_lookup [OF assms(1)] by (simp add: published_def)

lemma holds_file_frame: "writes S v w \<Longrightarrow> holds_file p c m (w_fs v) \<Longrightarrow> p \<notin> S \<Longrightarrow> holds_file p c m (w_fs w)"
  using writes_lookup by (fastforce simp: holds_file_def)

lemma metadata_scope:
  "d \<notin> durable_scope (d @ [''metadata.json''])"
  "x \<noteq> ''metadata.json'' \<Longrightarrow> hd x \<noteq> CHR ''.'' \<Longrightarrow> d @ [x] \<notin> durable_scope (d @ [''metadata.json''])"
proof -
  have "\<not> prefix (d @ [t]) d" for t using prefix_length_le [of "d @ [t]" d] by auto
  then show "d \<notin> durable_scope (d @ [''metadata.json''])"
    by (auto simp: durable_scope_def temp_paths_def)
  show "d @ [x] \<notin> durable_scope (d @ [''metadata.json''])" if "x \<noteq> ''metadata.json''" "hd x \<noteq> CHR ''.''"
    using that by (auto simp: durable_scope_def temp_paths_def temp_pattern_def)
qed

text \<open>The three steps of the publication: the rename, the metadata, the marker.\<close>

lemma publish_rename:
  assumes a: "lookup (w_fs w) (comps a) = Some n" "is_regular n" and d: "lookup (w_fs w) d \<noteq> None"
    and b: "comps b = d @ [''parent.vhdx'']" and "\<not> prefix (comps a) d" and "\<not> prefix (comps a) (comps b)"
  shows "wp (Rename a b) (\<lambda>r v. r = None \<longrightarrow> published d (w_fs v)) w"
proof -
  have "keeps (writes (subtree (comps a) \<union> subtree (comps b))) (Rename a b)"
    by (rule Rename_frame) simp
  from achieves_wp [OF this] have fr: "wp (Rename a b)
      (\<lambda>r v. writes (subtree (comps a) \<union> subtree (comps b)) w v) w"
    by (rule wp_mono) simp
  have nb: "d \<notin> subtree (comps a) \<union> subtree (comps b)"
    using assms(5) b prefix_length_le [of "comps b" d] by auto
  have mv: "published d g" if "fs_rename (comps a) (comps b) (w_fs w) = Inr g" "lookup g d = lookup (w_fs w) d" for g
  proof -
    from that(1) a have "g = fs_move (comps a) (comps b) (w_fs w)"
      using assms(6) by (auto simp: fs_rename_def split: if_splits option.splits)
    with lookup_move_dst [OF assms(6), of "w_fs w" "[]"] a b d that(2) show ?thesis
      by (simp add: published_def)
  qed
  show ?thesis
    unfolding Rename_def
    by (rule wp_mono [OF wp_conj [OF rename_loop_spec fr [unfolded Rename_def]]])
      (use nb in \<open>auto intro: mv dest!: writes_lookup simp: renameAttempts_def\<close>)
qed

lemma publish_mkdir:
  "lookup (w_fs w) q = Some n \<Longrightarrow> q \<noteq> comps x \<Longrightarrow>
   wp (os_Mkdir x perm) (\<lambda>r v. r = None \<longrightarrow> lookup (w_fs v) (comps x) \<noteq> None \<and> lookup (w_fs v) q = Some n) w"
  by (auto simp: os_Mkdir_def fs_create_def wp_simps)

lemma publish_chmod:
  assumes "published d (w_fs w)" and "comps p = d @ [''parent.vhdx'']"
  shows "wp (os_Chmod p perm) (\<lambda>r v. published d (w_fs v)) w"
proof -
  from assms(1) obtain n where n: "lookup (w_fs w) (d @ [''parent.vhdx'']) = Some n" "is_regular n"
    and d: "lookup (w_fs w) d \<noteq> None" by (auto simp: published_def)
  then have "follow (w_fs w) (d @ [''parent.vhdx'']) = d @ [''parent.vhdx'']"
    by (auto simp: follow_def is_regular_def split: kind.splits)
  with n d assms show ?thesis
    by (simp add: os_Chmod_def wp_simps fs_chmod_def published_def is_regular_def)
qed

lemma publish_metadata:
  assumes "published d (w_fs w)" and t: "target p" and p: "comps p = d @ [''metadata.json'']"
  shows "wp (writeJSONDurable p j)
    (\<lambda>r v. r = None \<longrightarrow> published d (w_fs v) \<and>
       (\<exists>e. holds_file (d @ [''metadata.json'']) (json_content e True j) 384 (w_fs v))) w"
proof -
  have sc: "d \<notin> durable_scope (comps p)" "d @ [''parent.vhdx''] \<notin> durable_scope (comps p)"
    using metadata_scope(1) [of d] metadata_scope(2) [of "''parent.vhdx''" d] by (simp_all add: p)
  have "wp (WriteDurable p (json_content e True j) 384) (\<lambda>r v. r = None \<longrightarrow> published d (w_fs v) \<and>
       (\<exists>e. holds_file (d @ [''metadata.json'']) (json_content e True j) 384 (w_fs v))) w" for e
  proof (rule wp_mono [OF wp_conj [OF WriteDurable_success [OF t] achieves_wp [OF WriteDurable_frame [OF t]]]],
      intro impI conjI; elim conjE)
    fix r v
    assume fr: "writes (durable_scope (comps p)) w v" and r: "r = None"
      and h: "r = None \<longrightarrow> holds_file (comps p) (json_content e True j) 384 (w_fs v)"
    show "published d (w_fs v)" by (rule published_frame [OF fr assms(1) sc])
    show "\<exists>e. holds_file (d @ [''metadata.json'']) (json_content e True j) 384 (w_fs v)"
      using h r p by auto
  qed
  then show ?thesis by (simp add: writeJSONDurable_def wp_simps env_get_def)
qed

lemma publish_complete:
  assumes "published d (w_fs w)" and "holds_file (d @ [''metadata.json'']) c 384 (w_fs w)"
    and p: "comps p = d @ [''COMPLETE'']"
  shows "wp (WriteExclusiveDurable p x 384) (\<lambda>r v. r = None \<longrightarrow> published d (w_fs v) \<and>
     holds_file (d @ [''metadata.json'']) c 384 (w_fs v) \<and> holds_file (d @ [''COMPLETE'']) x 384 (w_fs v)) w"
proof -
  have "keeps (writes {comps p}) (WriteExclusiveDurable p x 384)"
    by (rule WriteExclusiveDurable_frame) simp
  from wp_conj [OF WriteExclusiveDurable_success achieves_wp [OF this]] show ?thesis
    by (rule wp_mono) (use assms in \<open>auto intro: published_frame holds_file_frame\<close>)
qed

definition committed :: "cpath \<Rightarrow> ParentMetadata \<Rightarrow> fsys \<Rightarrow> bool" where
  "committed d m f \<longleftrightarrow> published d f \<and>
     (\<exists>e. holds_file (d @ [''metadata.json'']) (json_content e True (enc_metadata m)) 384 f) \<and>
     holds_file (d @ [''COMPLETE'']) (Content completeContents [None]) 384 f"

lemma committed_remove:
  assumes "committed d m (w_fs v)" and "comps x \<noteq> d" and "\<And>y. comps x \<noteq> d @ [y]"
  shows "wp (os_Remove x) (\<lambda>r w. committed d m (w_fs w)) v"
proof -
  have "keeps (writes {comps x}) (os_Remove x)" by (rule keeps_updates) simp
  then show ?thesis
  proof (rule wp_keeps)
    fix w assume w: "writes {comps x} v w"
    have ne: "d \<notin> {comps x}" "\<And>y. d @ [y] \<notin> {comps x}" using assms(2) assms(3) [symmetric] by auto
    from assms(1) show "committed d m (w_fs w)"
      unfolding committed_def
      using published_frame [OF w _ ne] holds_file_frame [OF w _ ne(2)] by blast
  qed
qed

lemma committed_valid:
  assumes s: "well_placed s u" and k: "compatibility k" and c: "committed (comps (Join [pt_Parents s, k])) m f"
    and m: "pm_SchemaVersion m = ParentSchemaVersion" "pm_Provider m = Provider"
      "ck_Digest (pm_CompatibilityKey m) = k" "pm_Immutable m"
      "pm_VHDXPath m = Join [Join [pt_Parents s, k], ''parent.vhdx'']"
      "go_int (ck_SchemaVersion (pm_CompatibilityKey m))"
  shows "valid_parent s k m f"
proof -
  let ?dir = "Join [pt_Parents s, k]"
  have dir: "IsAbs ?dir"
    using s k by (simp add: well_placed_def placed_def IsAbs_Join)
  have files: "comps (Join [?dir, ''parent.vhdx'']) = comps ?dir @ [''parent.vhdx'']"
    "comps (Join [?dir, ''metadata.json'']) = comps ?dir @ [''metadata.json'']"
    "comps (Join [?dir, ''COMPLETE'']) = comps ?dir @ [''COMPLETE'']"
    by (rule comps_Join [OF dir], simp add: proper_def)+
  obtain e where e: "holds_file (comps ?dir @ [''metadata.json'']) (json_content e True (enc_metadata m)) 384 f"
    using c by (auto simp: committed_def)
  have "dec_metadata (enc_metadata m) = Some m"
    using m by (intro dec_enc_metadata) (simp_all add: ParentSchemaVersion_def go_int_def)
  from read_as_written [OF e, where dec = dec_metadata, OF this] show ?thesis
    using c m unfolding valid_parent_def Let_def files committed_def published_def by auto
qed

lemma publish_tail:
  fixes v :: "'z world_scheme" and undo :: "err \<Rightarrow> ('z world_scheme, err) state"
  assumes pub: "published d (w_fs v)"
    and md: "\<exists>e. holds_file (d @ [''metadata.json'']) (json_content e True (enc_metadata m)) 384 (w_fs v)"
    and c: "comps c = d @ [''COMPLETE'']"
    and pj: "comps pj \<noteq> d" "\<And>y. comps pj \<noteq> d @ [y]" and pd: "comps pd \<noteq> d" "\<And>y. comps pd \<noteq> d @ [y]"
  shows "wp (check (WriteExclusiveDurable c (Content completeContents [None]) 384)
        (\<lambda>e. State_Monad.bind (undo e) (\<lambda>x. ret (Inl x)))
        (ignore (os_Remove pj) (ignore (os_Remove pd) (ret (Inr m)))))
     (\<lambda>r w. \<forall>m'. r = Inr m' \<longrightarrow> m' = m \<and> committed d m (w_fs w)) v" (is "wp _ ?Q v")
proof -
  from md obtain e where
    e: "holds_file (d @ [''metadata.json'']) (json_content e True (enc_metadata m)) 384 (w_fs v)" by blast
  show ?thesis
  proof (rule wp_checkI [OF publish_complete [OF pub e c]], goal_cases)
    case (1 x v')
    show ?case by (rule wp_skip(1)) (simp add: wp_ret)
  next
    case (2 v')
    then have "committed d m (w_fs v')" by (auto simp: committed_def)
    from committed_remove [OF this pj] show ?case
    proof (rule wp_ignoreI)
      fix x and u :: "'z world_scheme"
      assume "committed d m (w_fs u)"
      from committed_remove [OF this pd]
      show "wp (ignore (os_Remove pd) (ret (Inr m))) ?Q u" by (rule wp_ignoreI) (simp add: wp_ret)
    qed
  qed
qed

lemma publish_steps:
  fixes w :: "'z world_scheme" and undo :: "err \<Rightarrow> ('z world_scheme, err) state"
  assumes a: "lookup (w_fs w) (comps a) = Some n" "is_regular n" and d: "lookup (w_fs w) d \<noteq> None"
    and b: "comps b = d @ [''parent.vhdx'']" and ap: "\<not> prefix (comps a) d" "\<not> prefix (comps a) (comps b)"
    and mp: "target mp" "comps mp = d @ [''metadata.json'']" and c: "comps c = d @ [''COMPLETE'']"
    and pj: "comps pj \<noteq> d" "\<And>y. comps pj \<noteq> d @ [y]" and pd: "comps pd \<noteq> d" "\<And>y. comps pd \<noteq> d @ [y]"
  shows "wp (check (Rename a b) (\<lambda>e. ret (Inl e)) (
        check (os_Chmod b 256) (\<lambda>e. State_Monad.bind (undo e) (\<lambda>x. ret (Inl x))) (
        State_Monad.bind time_Now (\<lambda>now.
        check (writeJSONDurable mp (enc_metadata (m now)))
          (\<lambda>e. State_Monad.bind (undo e) (\<lambda>x. ret (Inl x))) (
        check (WriteExclusiveDurable c (Content completeContents [None]) 384)
          (\<lambda>e. State_Monad.bind (undo e) (\<lambda>x. ret (Inl x)))
          (ignore (os_Remove pj) (ignore (os_Remove pd) (ret (Inr (m now))))))))))
     (\<lambda>r v. \<forall>m'. r = Inr m' \<longrightarrow> (\<exists>now. m' = m now) \<and> committed d m' (w_fs v)) w" (is "wp _ ?Q w")
proof (rule wp_checkI [OF publish_rename [OF a d b ap]])
  have roll: "wp (State_Monad.bind (undo e) (\<lambda>x. ret (Inl x))) ?Q v" for e v
    by (rule wp_skip(1)) (simp add: wp_ret)
  fix v :: "'z world_scheme"
  assume "None = None \<longrightarrow> published d (w_fs v)"
  then have v: "published d (w_fs v)" by simp
  show "wp (check (os_Chmod b 256) (\<lambda>e. State_Monad.bind (undo e) (\<lambda>x. ret (Inl x))) (
        State_Monad.bind time_Now (\<lambda>now.
        check (writeJSONDurable mp (enc_metadata (m now)))
          (\<lambda>e. State_Monad.bind (undo e) (\<lambda>x. ret (Inl x))) (
        check (WriteExclusiveDurable c (Content completeContents [None]) 384)
          (\<lambda>e. State_Monad.bind (undo e) (\<lambda>x. ret (Inl x)))
          (ignore (os_Remove pj) (ignore (os_Remove pd) (ret (Inr (m now))))))))) ?Q v"
  proof (rule wp_checkI [OF publish_chmod [OF v b] roll], rule wp_bindI)
    fix u :: "'z world_scheme"
    assume "published d (w_fs u)"
    then show "wp time_Now (\<lambda>_ x. published d (w_fs x)) u" by (simp add: time_Now_def wp_tick_read)
  next
    fix now and u :: "'z world_scheme"
    assume "published d (w_fs u)"
    from publish_metadata [OF this mp]
    show "wp (check (writeJSONDurable mp (enc_metadata (m now)))
          (\<lambda>e. State_Monad.bind (undo e) (\<lambda>x. ret (Inl x))) (
        check (WriteExclusiveDurable c (Content completeContents [None]) 384)
          (\<lambda>e. State_Monad.bind (undo e) (\<lambda>x. ret (Inl x)))
          (ignore (os_Remove pj) (ignore (os_Remove pd) (ret (Inr (m now))))))) ?Q u"
      by (rule wp_checkI [OF _ roll]) (rule wp_mono [OF publish_tail [OF _ _ c pj pd]], auto)
  qed
qed (simp add: wp_ret)

lemma CommitParent_success:
  assumes s: "well_placed s u" and p: "pending_at s k (w_fs w) = Inr p"
    and st: "lookup (w_fs w) (comps (pp_StagingPath p)) = Some n" "is_regular n"
    and go: "go_int (ck_SchemaVersion (pm_CompatibilityKey m))"
  shows "wp (CommitParent s (Some p) m) (\<lambda>r v. \<forall>m'. r = Inr m' \<longrightarrow> valid_parent s k m' (w_fs v)) w"
    (is "wp _ ?Q w")
proof -
  note pt = pending_at_target [OF s p]
  let ?dir = "Join [pt_Parents s, k]"
  obtain d where d: "comps ?dir = d" by simp
  have dir: "IsAbs ?dir" and du: "d = u @ [''parents'', k]"
    using s pt(1) d by (auto simp: well_placed_def placed_def IsAbs_Join comps_Join)
  have files: "comps (Join [?dir, ''parent.vhdx'']) = d @ [''parent.vhdx'']"
    "comps (Join [?dir, ''metadata.json'']) = d @ [''metadata.json'']"
    "comps (Join [?dir, ''COMPLETE'']) = d @ [''COMPLETE'']" "target (Join [?dir, ''metadata.json''])"
    using comps_Join [OF dir] target_Join [OF dir] d by (simp_all add: proper_def)
  have sdir: "IsAbs (Dir (pp_StagingPath p))" "comps (Dir (pp_StagingPath p)) = u @ [''pending'', k]"
    using Dir_target [OF pt(3)] pt(4) by (simp_all add: butlast_append)
  have away: "comps (Dir (pp_StagingPath p)) \<noteq> d" "comps (Dir (pp_StagingPath p)) \<noteq> d @ [y]"
    "comps (Join [Dir (pp_StagingPath p), ''pending.json'']) \<noteq> d"
    "comps (Join [Dir (pp_StagingPath p), ''pending.json'']) \<noteq> d @ [y]" for y
    using comps_Join [OF sdir(1), of "[''pending.json'']"] sdir(2) du by (simp_all add: proper_def)
  have apart: "\<not> prefix (comps (pp_StagingPath p)) d" "comps (pp_StagingPath p) \<noteq> d"
    "\<not> prefix (comps (pp_StagingPath p)) (comps (Join [?dir, ''parent.vhdx'']))"
    unfolding files using pt(4) du by simp_all
  note steps = publish_steps [where d = d, OF _ st(2) _ files(1) apart(1,3) files(4,2,3) away(3,4,1,2)]
  show ?thesis
    unfolding CommitParent_def option.case Let_def pt(5)
    apply (split if_split, intro conjI impI, simp add: wp_ret)
    apply (rule wp_attemptI [OF ReadPending_spec], simp add: wp_ret)
    apply (split if_split, intro conjI impI, simp add: wp_ret)
    apply (rule wp_checkI [OF publish_mkdir [where q = "comps (pp_StagingPath p)" and n = n]])
        apply (use p st(1) in \<open>auto simp: same_def\<close>) [1]
       apply (use apart(2) d in simp)
      apply (simp add: wp_ret)
    apply (rule wp_attemptI [OF os_read_specs(1)])
     apply (split if_split, intro conjI impI, simp add: wp_ret)
     apply (rule wp_mono [OF steps])
       apply (simp add: same_def)
      apply (simp add: same_def d)
     apply (use d pt(1) in \<open>auto intro!: committed_valid [OF s] simp: go\<close>) [1]
    apply (simp add: wp_ret)
    done
qed

end
