(* ===== verification/Broker_Laws.thy ===== *)
theory Broker_Laws
  imports Broker_Requests Store_Laws
begin

text \<open>
  What every broker operation keeps: the environment, the configuration, the paths and the recorded
  responses; and which operations only read. The provider is known by the locale \<open>provider\<close>, which
  \<open>unsupportedNative\<close> (\<open>workspace/native_unsupported.go\<close>) interprets.
\<close>

section \<open>The store beside the broker's memory\<close>

text \<open>No operation of the store touches the memory of its caller: it keeps \<open>writes UNIV\<close>.\<close>

abbreviation calm :: "'z world_scheme \<Rightarrow> 'z world_scheme \<Rightarrow> bool" where
  "calm \<equiv> writes UNIV"

lemmas calm_intros = TrueI UNIV_I subset_UNIV

lemma chmod_calm: "keeps calm (os_Chmod p m)"
  unfolding os_Chmod_def by (rule update_frame) simp

lemma rename_calm: "keeps calm (Rename a b)"
proof -
  have "keeps calm (rename_loop n e a b)" for n e
    by (induction n arbitrary: e) (auto intro!: eff_intros)
  then show ?thesis by (simp add: Rename_def)
qed

lemma create_temp_calm: "keeps calm (os_CreateTemp d p)"
proof -
  have "keeps calm (create_temp n d p)" for n
    by (induction n) (simp_all add: Let_def, (intro eff_intros calm_intros)+)
  then show ?thesis by (auto simp: os_CreateTemp_def intro: eff_intros)
qed

lemma write_exit_calm: "keeps calm (write_exit b p e)"
  unfolding write_exit_def by (intro eff_intros calm_intros)

lemma durable_calm: "keeps calm (WriteDurable p c m)" "keeps calm (WriteExclusiveDurable p c m)"
  unfolding WriteDurable_def WriteExclusiveDurable_def
  by (intro eff_intros calm_intros create_temp_calm write_exit_calm rename_calm)+

lemma json_calm:
  "keeps calm (writeJSONDurable p j)" "keeps calm (store_writeJSONExclusive p j)"
  unfolding writeJSONDurable_def store_writeJSONExclusive_def
  by (intro eff_intros calm_intros durable_calm)+

lemma layout_calm: "keeps calm (ensureRealDirectory p)" "keeps calm (EnsureLayout s)"
proof -
  have d: "keeps calm (ensureRealDirectory p)" for p
    unfolding ensureRealDirectory_def by (intro eff_intros calm_intros)
  have "keeps calm (ensure_all ps)" for ps
    by (induction ps) (simp_all, (intro eff_intros calm_intros d)+)
  then show "keeps calm (ensureRealDirectory p)" "keeps calm (EnsureLayout s)"
    unfolding EnsureLayout_def using d by blast+
qed

lemma records_same [eff_intros]:
  "keeps same (Store_ReadLease s i)" "keeps same (ReadRetained s r)" "keeps same (ReadPending s k)"
  "keeps same (entries_if_any p)" "keeps same (entries_or_none p)" "keeps same (countDirectories p)"
  "keeps same (countEntries p)" "keeps same (store_randomID x)" "keeps same (fileAllocatedBytes p)"
  unfolding Store_ReadLease_def ReadRetained_def ReadPending_def entries_if_any_def entries_or_none_def
    countDirectories_def countEntries_def store_randomID_def fileAllocatedBytes_def
  by (intro eff_intros TrueI)+

lemma lists_same [eff_intros]:
  "keeps same (ListLeases s)" "keeps same (ListParents s)" "keeps same (ProtectedParentKeys s)"
proof -
  have l: "keeps same (read_leases s js es)" for js es
    by (induction es arbitrary: js) (auto intro!: eff_intros)
  have p: "keeps same (read_parents s ms es)" for ms es
    by (induction es arbitrary: ms) (auto intro!: eff_intros)
  show "keeps same (ListLeases s)" "keeps same (ListParents s)"
    unfolding ListLeases_def ListParents_def by (intro eff_intros l p TrueI)+
  have r: "keeps same (lease_reference s e)" "keeps same (pending_reference s e)"
    "keeps same (retained_reference s e)" for e
    unfolding lease_reference_def pending_reference_def retained_reference_def by (intro eff_intros TrueI)+
  have p: "keeps same (protect g K es)" if "\<And>e. keeps same (g e)" for g K es
    by (induction es arbitrary: K) (auto intro!: eff_intros that)
  show "keeps same (ProtectedParentKeys s)"
    unfolding ProtectedParentKeys_def by (intro eff_intros r p TrueI)
qed

lemma totals_same [eff_intros]:
  "keeps same (allocatedVHDXBytes p)" "keeps same (logicalVHDXBytes p)"
proof -
  have w: "keeps same (walk_total cb acc qs)" if "\<And>q n a. keeps same (cb q n a)" for cb acc qs
    by (induction qs arbitrary: acc) (auto intro!: eff_intros that)
  show "keeps same (allocatedVHDXBytes p)" "keeps same (logicalVHDXBytes p)"
    unfolding allocatedVHDXBytes_def logicalVHDXBytes_def WalkDirTotal_def by (intro eff_intros w TrueI)+
qed

lemma Store_Status_same [eff_intros]: "keeps same (Store_Status s a b c)"
proof -
  have f: "keeps same (add_file g h p st)" for g h p st
    unfolding add_file_def by (intro eff_intros TrueI)
  have p: "keeps same (status_parents ps st)" for ps st
    by (induction ps arbitrary: st) (auto intro!: eff_intros f)
  have r: "keeps same (status_lease r st)" for r st
    unfolding status_lease_def by (intro eff_intros f TrueI)
  have l: "keeps same (status_leases s es st)" for es st
    by (induction es arbitrary: st) (auto intro!: eff_intros r)
  show ?thesis
    unfolding Store_Status_def by (intro eff_intros p l TrueI)
qed

lemma parents_calm:
  "keeps calm (BeginParent s sid key src m pid)" "keeps calm (CommitParent s pend md)"
  "keeps calm (AbortParent s pend)" "keeps calm (TouchParent s md)" "keeps calm (RemoveParentIfUnused s k K)"
proof -
  note intros = eff_intros calm_intros chmod_calm layout_calm json_calm durable_calm rename_calm keeps_same_writes
  have rb: "keeps calm (commit_rollback a b c e)" for a b c e
    unfolding commit_rollback_def by (intro eff_intros calm_intros chmod_calm)
  show "keeps calm (BeginParent s sid key src m pid)"
    unfolding BeginParent_def Let_def by (intro intros)
  show "keeps calm (CommitParent s pend md)"
    unfolding CommitParent_def Let_def by (intro rb intros)
  show "keeps calm (AbortParent s pend)"
    unfolding AbortParent_def Let_def by (intro intros)
  show "keeps calm (TouchParent s md)"
    unfolding TouchParent_def by (intro intros)
  show "keeps calm (RemoveParentIfUnused s k K)"
    unfolding RemoveParentIfUnused_def by (intro intros)
qed

lemma leases_calm:
  "keeps calm (Store_WriteLease s j)" "keeps calm (RemoveLease s j)" "keeps calm (WriteRetained s j)"
  "keeps calm (RemoveRetained s r)"
  unfolding Store_WriteLease_def RemoveLease_def WriteRetained_def RemoveRetained_def
  by (intro eff_intros calm_intros layout_calm json_calm keeps_same_writes)+

lemma RecoverPending_calm:
  assumes "\<And>f pid. alive = Some f \<Longrightarrow> keeps calm (f pid)"
  shows "keeps calm (RecoverPending s now grace alive)"
proof -
  have e: "keeps calm (recover_pending_entry s now grace alive entry counts)" for entry counts
    unfolding recover_pending_entry_def Let_def by (intro eff_intros calm_intros assms keeps_same_writes)
  have "keeps calm (recover_pending_entries (recover_pending_entry s now grace alive) es c)" for es c
  proof (induction es arbitrary: c)
    case Nil
    then show ?case by (cases c) (auto intro: eff_intros)
  qed (auto intro!: eff_intros e)
  then show ?thesis
    unfolding RecoverPending_def by (intro eff_intros calm_intros)
qed

section \<open>Workspaces\<close>

lemma workspaces_same [eff_intros]:
  "keeps same (real_directories k ps)" "keeps same (validateWorkspaceMount c i m)"
  "keeps same (readWorkspaceOwner c j)"
proof -
  have r: "keeps same (real_directories k ps)" for k ps
    by (induction ps) (auto intro!: eff_intros)
  show "keeps same (real_directories k ps)" "keeps same (validateWorkspaceMount c i m)"
    "keeps same (readWorkspaceOwner c j)"
    unfolding validateWorkspaceMount_def readWorkspaceOwner_def Let_def by (intro eff_intros r TrueI)+
qed

lemma workspaces_calm:
  "keeps calm (writeWorkspaceOwner c j)" "keeps calm (broker_removeWorkspaceOwner c j)"
  "keeps calm (cleanupOwnedWorkspace c j)"
  unfolding writeWorkspaceOwner_def broker_removeWorkspaceOwner_def cleanupOwnedWorkspace_def
  by (intro eff_intros calm_intros json_calm keeps_same_writes)+

section \<open>The provider\<close>

text \<open>
  \<open>remembers\<close>: the memory of the broker is the same, but for the journal that \<open>acquire\<close> shares with
  the provider; \<open>serving\<close>: what no operation changes.
\<close>

definition remembers :: "broker \<Rightarrow> broker \<Rightarrow> bool" where
  "remembers w v \<longleftrightarrow> w_env v = w_env w \<and> bk_config v = bk_config w \<and> bk_store v = bk_store w \<and>
     bk_parents v = bk_parents w \<and> bk_pending v = bk_pending w \<and> bk_children v = bk_children w \<and>
     bk_requests v = bk_requests w"

definition serving :: "broker \<Rightarrow> broker \<Rightarrow> bool" where
  "serving w v \<longleftrightarrow> w_env v = w_env w \<and> bk_config v = bk_config w \<and> bk_store v = bk_store w \<and>
     bk_requests v = bk_requests w"

interpretation remembering: effect remembers
  by unfold_locales (simp_all add: remembers_def)

interpretation service: effect serving
  by unfold_locales (simp_all add: serving_def)

lemma calm_remembers: "calm w v \<Longrightarrow> remembers w v"
  by (cases w, cases v) (simp add: writes_def remembers_def)

lemma remembers_serving: "remembers w v \<Longrightarrow> serving w v"
  by (simp add: remembers_def serving_def)

lemma keeps_remembers: "achieves calm Q m \<Longrightarrow> achieves remembers Q m"
  by (erule achieves_rel_mono) (rule calm_remembers)

lemma remembers_keeps: "achieves remembers Q m \<Longrightarrow> achieves serving Q m"
  by (erule achieves_rel_mono) (rule remembers_serving)

lemma calm_serving: "achieves calm Q m \<Longrightarrow> achieves serving Q m"
  by (intro remembers_keeps keeps_remembers)

lemma same_serving: "achieves same Q m \<Longrightarrow> achieves serving Q m"
  by (intro calm_serving keeps_same_writes)

text \<open>
  What the broker relies on: a call of the provider changes the files, never the broker's memory, which
  it reaches only through the transitions it is given (so it keeps whatever they keep).
\<close>

locale provider =
  fixes n :: "broker Native"
  assumes native_calm: "keeps calm (nv_Available n)" "keeps calm (nv_BeginParent n p)"
      "keeps calm (nv_VerifyParent n m)" "keeps calm (nv_AttachChild n m j)"
      "keeps calm (nv_ProcessAlive n pid)" "keeps calm (nv_HostFreeBytes n path)"
      "keeps calm (nv_Finalize n h)" "keeps calm (nv_Abort n h)" "keeps calm (nv_Usage n h)"
      "keeps calm (nv_Release n h d)"
    and native_acquire: "effect R \<Longrightarrow> (\<And>w v. calm w v \<Longrightarrow> R w v) \<Longrightarrow> (\<And>a b c. keeps R (tr a b c)) \<Longrightarrow>
      keeps R (nv_AcquireChild n m j tr)"
begin

lemmas native_serving = native_calm [THEN calm_serving]

lemma transition_remembers: "keeps remembers (acquire_transition a b c)"
  unfolding acquire_transition_def
  by (intro remembering.on_control keeps_remembers [OF leases_calm(1)]) (auto simp: remembers_def)

lemma acquire_native_remembers: "keeps remembers (nv_AcquireChild n m j acquire_transition)"
  by (intro native_acquire remembering.effect_axioms calm_remembers transition_remembers)

lemma acquire_native_serving: "keeps serving (nv_AcquireChild n m j acquire_transition)"
  by (intro remembers_keeps acquire_native_remembers)

lemmas store_serving = leases_calm [THEN calm_serving] parents_calm [THEN calm_serving]
  layout_calm [THEN calm_serving] workspaces_calm [THEN calm_serving]
  records_same [THEN same_serving] lists_same [THEN same_serving] workspaces_same [THEN same_serving]
  Store_Status_same [THEN same_serving] reads_still [THEN same_serving] reads_same [THEN same_serving]

lemmas serving_intros = native_serving acquire_native_serving store_serving
  service.on_ret service.on_gets service.then_bind service.then_attempt service.then_check
  service.then_ignore achieves_if achieves_case_option achieves_case_sum achieves_case_prod TrueI

lemma modify_serving: "(\<And>w. serving w (f w)) \<Longrightarrow> keeps serving (modify f)"
  by (rule service.on_modify)

end

context provider
begin

lemma reclaim_calm: "keeps calm (reclaim s ttl d active ps c b)"
  by (induction ps arbitrary: c b) (auto intro!: eff_intros parents_calm simp: Let_def)

lemma reclaimable_serving: "keeps serving (reclaimable ttl active ps st)"
  by (induction ps arbitrary: st) (auto intro!: serving_intros)

lemma ensureCapacity_calm:
  "keeps calm (ensureCapacityWithLimits n k d q f)" "keeps calm (ensureCapacity n k d)"
  unfolding ensureCapacity_def ensureCapacityWithLimits_def activeParents_def Let_def
  by (intro eff_intros calm_intros native_calm reclaim_calm keeps_same_writes)+

lemmas ensureCapacity_serving = ensureCapacity_calm [THEN calm_serving]

lemma reports_serving:
  "keeps serving (broker_gc n rq)" "keeps serving (broker_admit n rq)" "keeps serving (broker_status n txt rq)"
  unfolding broker_gc_def broker_admit_def broker_status_def activeParents_def Let_def
  by (intro serving_intros ensureCapacity_serving reclaimable_serving)+

lemma forget_serving: "keeps serving (forget_transaction i)"
  unfolding forget_transaction_def by (rule modify_serving) (simp add: serving_def)

lemma parents_serving:
  "keeps serving (broker_beginParent n rq)" "keeps serving (broker_commitParent n rq)"
  "keeps serving (broker_abortParent n rq)"
  unfolding broker_beginParent_def broker_commitParent_def broker_abortParent_def Let_def since_ms_def
  by (intro serving_intros forget_serving modify_serving; simp add: serving_def)+

end

context provider
begin

lemma quarantine_serving: "keeps serving k \<Longrightarrow> keeps serving (quarantine_lease s j k)"
  unfolding quarantine_lease_def by (intro serving_intros)

lemma acquire_serving: "keeps serving (broker_acquire n rq)"
proof -
  have c: "keeps serving (acquire_child n rq c s m j)" for c s m j
    unfolding acquire_child_def Let_def
    by (intro serving_intros quarantine_serving ensureCapacity_serving modify_serving; simp add: serving_def)
  show ?thesis
    unfolding broker_acquire_def Let_def by (intro serving_intros ensureCapacity_serving c)
qed

lemma retained_serving:
  "keeps serving (retained_lease s r)"
  "(\<And>m. keeps serving (k m)) \<Longrightarrow> keeps serving (retained_parent n rq s op d k)"
  "(\<And>h. keeps serving (k' h)) \<Longrightarrow> keeps serving (retained_session n rq s r j k')"
proof -
  have p: "(\<And>m. keeps serving (k m)) \<Longrightarrow> keeps serving (retained_parent n rq s op d k)" for op d k
    unfolding retained_parent_def by (intro serving_intros) simp
  show "keeps serving (retained_lease s r)"
    unfolding retained_lease_def by (intro serving_intros)
  show "(\<And>m. keeps serving (k m)) \<Longrightarrow> keeps serving (retained_parent n rq s op d k)"
    by (rule p)
  show "(\<And>h. keeps serving (k' h)) \<Longrightarrow> keeps serving (retained_session n rq s r j k')"
    unfolding retained_session_def by (intro serving_intros p) simp_all
qed

lemma leases_serving:
  "keeps serving (broker_heartbeat n rq)" "keeps serving (broker_release n rq)"
  "keeps serving (broker_attachRetained n rq)" "keeps serving (broker_removeRetained n rq)"
proof -
  have r: "keeps serving k \<Longrightarrow> keeps serving (release_records rq c s j k)" for c s j k
    unfolding release_records_def Let_def by (intro serving_intros quarantine_serving)
  note intros = serving_intros quarantine_serving ensureCapacity_serving modify_serving
  show "keeps serving (broker_heartbeat n rq)"
    unfolding broker_heartbeat_def Let_def by (intro intros)
  show "keeps serving (broker_release n rq)"
    unfolding broker_release_def Let_def by (intro r intros; simp add: serving_def)
  show "keeps serving (broker_attachRetained n rq)"
    unfolding broker_attachRetained_def Let_def by (intro retained_serving intros; simp add: serving_def)
  show "keeps serving (broker_removeRetained n rq)"
    unfolding broker_removeRetained_def Let_def by (intro retained_serving intros; simp add: serving_def)
qed

lemma handleLocked_serving: "keeps serving (handleLocked n txt caller rq)"
  unfolding handleLocked_def dispatch_def Let_def
  by (intro reports_serving parents_serving acquire_serving leases_serving serving_intros)

text \<open>One call of \<open>Handle\<close> records at most its own response.\<close>

lemma BrokerHandle_records:
  "wp (BrokerHandle n txt caller rq) (\<lambda>r v. bk_config v = bk_config w \<and> bk_store v = bk_store w \<and>
     bk_requests v = (if bq_RequestID rq = '''' then bk_requests w
       else (bk_requests w)(bq_RequestID rq \<mapsto> r))) w"
proof -
  have "wp (handleLocked n txt caller rq) (\<lambda>_ v. serving w v) w"
    using achieves_wp [OF handleLocked_serving] by simp
  then have "wp (handleLocked n txt caller rq) (\<lambda>r v. bk_config v = bk_config w \<and>
      bk_store v = bk_store w \<and> bk_requests v = bk_requests w) w"
    by (rule wp_mono) (simp add: serving_def)
  then show ?thesis
    by (auto simp: BrokerHandle_def wp_simps fun_upd_idem split: option.splits elim!: wp_mono)
qed

end

interpretation unsupported: provider unsupportedNative
  by unfold_locales (simp_all add: unsupportedNative_def frame.on_ret effect.on_ret)

section \<open>One call after another is a run of the overlapping calls\<close>

text \<open>The memory of the broker as a state of \<open>Broker_Requests\<close> in which nothing is in flight.\<close>

definition settled :: "BrokerResponse requests \<Rightarrow> broker \<Rightarrow> bool" where
  "settled q w \<longleftrightarrow> rs_recorded q = bk_requests w \<and> rs_inflight q = {}"

lemma cached_step:
  assumes "settled q w" and "in_phase q t (bq_RequestID rq) Arrived"
    and "bq_RequestID rq \<noteq> ''''" and "bk_requests w (bq_RequestID rq) = Some r"
  shows "handle_step\<^sup>*\<^sup>* q (set_phase t (bq_RequestID rq) (Returned r) q)"
  using assms by (intro r_into_rtranclp Recorded) (auto simp: settled_def in_phase_def)

lemma served_step:
  assumes "settled q w" and "in_phase q t i Arrived" and "i \<noteq> '''' \<Longrightarrow> bk_requests w i = None"
  shows "\<exists>q'. handle_step\<^sup>*\<^sup>* q q' \<and> rs_threads q' = (rs_threads q)[t := (i, Returned r)] \<and>
    rs_recorded q' = (if i = '''' then rs_recorded q else (rs_recorded q)(i \<mapsto> r)) \<and> rs_inflight q' = {}"
proof (cases "i = ''''")
  case True
  let ?b = "set_phase t '''' Running q"
  let ?e = "set_phase t '''' (Returned r) (?b\<lparr>rs_runs := ('''', r) # rs_runs ?b\<rparr>)"
  have "handle_step q ?b"
    using assms(2) True by - (rule Begin_unnamed, simp_all add: in_phase_def)
  moreover have "handle_step ?b ?e"
    using assms(2) by - (rule Finish_unnamed, simp_all add: in_phase_def)
  ultimately have "handle_step\<^sup>*\<^sup>* q ?e" by (rule converse_rtranclp_into_rtranclp [OF _ r_into_rtranclp])
  then show ?thesis by (rule exI [of _ ?e, OF conjI]) (use True assms(1) in \<open>simp add: settled_def\<close>)
next
  case False
  let ?b = "set_phase t i Running (q\<lparr>rs_inflight := insert i (rs_inflight q)\<rparr>)"
  let ?e = "set_phase t i (Returned r) (?b\<lparr>rs_recorded := (rs_recorded ?b)(i \<mapsto> r),
      rs_inflight := rs_inflight ?b - {i}, rs_runs := (i, r) # rs_runs ?b\<rparr>)"
  have "handle_step q ?b"
    using assms False by - (rule Begin, simp_all add: in_phase_def settled_def)
  moreover have "handle_step ?b ?e"
    using assms(2) False by - (rule Finish, simp_all add: in_phase_def)
  ultimately have "handle_step\<^sup>*\<^sup>* q ?e" by (rule converse_rtranclp_into_rtranclp [OF _ r_into_rtranclp])
  then show ?thesis by (rule exI [of _ ?e, OF conjI]) (use False assms(1) in \<open>simp add: settled_def\<close>)
qed

fun serve :: "broker Native \<Rightarrow> (err \<Rightarrow> string) \<Rightarrow> string \<Rightarrow> BrokerRequest list \<Rightarrow> BrokerResponse list bop" where
  "serve n txt caller [] = ret []"
| "serve n txt caller (rq # rqs) = do {
     r \<leftarrow> BrokerHandle n txt caller rq;
     rs \<leftarrow> serve n txt caller rqs;
     ret (r # rs) }"

context provider
begin

lemma handle_simulated:
  assumes q: "settled q w" and t: "in_phase q t (bq_RequestID rq) Arrived"
  shows "wp (BrokerHandle n txt caller rq) (\<lambda>r v. \<exists>q'. handle_step\<^sup>*\<^sup>* q q' \<and> settled q' v \<and>
     rs_threads q' = (rs_threads q)[t := (bq_RequestID rq, Returned r)]) w"
proof (cases "bq_RequestID rq \<noteq> '''' \<and> bk_requests w (bq_RequestID rq) \<noteq> None")
  case True
  then obtain r where "bk_requests w (bq_RequestID rq) = Some r" by blast
  with True cached_step [OF q t] q show ?thesis
    by (auto simp: BrokerHandle_def wp_simps settled_def intro!: exI [of _ "set_phase t _ _ q"])
next
  case False
  show ?thesis
  proof (rule wp_mono [OF BrokerHandle_records])
    fix r and v :: broker
    assume v: "bk_config v = bk_config w \<and> bk_store v = bk_store w \<and> bk_requests v =
      (if bq_RequestID rq = '''' then bk_requests w else (bk_requests w)(bq_RequestID rq \<mapsto> r))"
    with served_step [OF q t, of r] False obtain q' where
      "handle_step\<^sup>*\<^sup>* q q'" "rs_threads q' = (rs_threads q)[t := (bq_RequestID rq, Returned r)]"
      "rs_recorded q' = bk_requests v" "rs_inflight q' = {}" using q by (auto simp: settled_def)
    then show "\<exists>q'. handle_step\<^sup>*\<^sup>* q q' \<and> settled q' v \<and>
        rs_threads q' = (rs_threads q)[t := (bq_RequestID rq, Returned r)]"
      by (auto simp: settled_def)
  qed
qed

lemma serve_simulated:
  assumes "settled q w" and "rs_threads q = past @ map (\<lambda>rq. (bq_RequestID rq, Arrived)) rqs"
  shows "wp (serve n txt caller rqs) (\<lambda>rs v. \<exists>q'. handle_step\<^sup>*\<^sup>* q q' \<and> settled q' v \<and>
     rs_threads q' = past @ map2 (\<lambda>rq r. (bq_RequestID rq, Returned r)) rqs rs) w"
  using assms
proof (induction rqs arbitrary: past q w)
  case Nil
  then show ?case by (auto simp: wp_ret)
next
  case (Cons rq rqs)
  let ?t = "length past"
  have t: "in_phase q ?t (bq_RequestID rq) Arrived"
    using Cons.prems(2) by (simp add: in_phase_def)
  show ?case
    unfolding serve.simps
  proof (rule wp_bindI [OF handle_simulated [OF Cons.prems(1) t]])
    fix r and v :: broker
    assume "\<exists>q'. handle_step\<^sup>*\<^sup>* q q' \<and> settled q' v \<and>
      rs_threads q' = (rs_threads q)[?t := (bq_RequestID rq, Returned r)]"
    then obtain q' where s: "handle_step\<^sup>*\<^sup>* q q'" "settled q' v"
      and th: "rs_threads q' = (past @ [(bq_RequestID rq, Returned r)]) @ map (\<lambda>rq. (bq_RequestID rq, Arrived)) rqs"
      using Cons.prems(2) by auto
    show "wp (do { rs \<leftarrow> serve n txt caller rqs; ret (r # rs) }) (\<lambda>rs v. \<exists>q'. handle_step\<^sup>*\<^sup>* q q' \<and>
        settled q' v \<and> rs_threads q' = past @ map2 (\<lambda>rq r. (bq_RequestID rq, Returned r)) (rq # rqs) rs) v"
      unfolding wp_bind wp_ret
      by (rule wp_mono [OF Cons.IH [OF s(2) th]]) (use s(1) in \<open>auto intro: rtranclp_trans\<close>)
  qed
qed

end

section \<open>The response cache\<close>

text \<open>
  A request ID that was answered gets the same answer again, whoever asks and whatever the request
  says: neither the caller nor the payload is compared.
\<close>

lemma cached_reply:
  assumes "bk_requests w (bq_RequestID rq) = Some r" and "bq_RequestID rq \<noteq> ''''"
  shows "run_state (BrokerHandle n txt caller rq) w = (r, w)"
  using assms by (simp add: BrokerHandle_def)

text \<open>Without a provider, only \<open>hello\<close> succeeds, and no request touches a file or the broker's sessions.\<close>

lemma unsupported_spec:
  "wp (BrokerHandle unsupportedNative txt caller rq) (\<lambda>r v. w_fs v = w_fs w \<and> bk_children v = bk_children w \<and>
     bk_pending v = bk_pending w \<and>
     (bk_requests w (bq_RequestID rq) = None \<and> bq_Operation rq \<noteq> OperationHello \<longrightarrow> \<not> bs_OK r)) w"
proof -
  have r: "broker_refusal c caller rq = Some r \<Longrightarrow> \<not> bs_OK r" for c r
    by (auto simp: broker_refusal_def broker_fail_def zero_broker_response_def split: if_splits)
  have "wp (handleLocked unsupportedNative txt caller rq) (\<lambda>r v. v = w \<and>
      (bq_Operation rq \<noteq> OperationHello \<longrightarrow> \<not> bs_OK r)) w"
    by (cases "broker_refusal (bk_config w) caller rq")
      (auto simp: handleLocked_def dispatch_def Let_def wp_simps unsupportedNative_def r
        broker_fail_def zero_broker_response_def)
  then have *: "wp (handleLocked unsupportedNative txt caller rq) (\<lambda>r v. w_fs v = w_fs w \<and> bk_children v = bk_children w \<and>
      bk_pending v = bk_pending w \<and> (bq_Operation rq \<noteq> OperationHello \<longrightarrow> \<not> bs_OK r)) w"
    by (rule wp_mono) simp
  show ?thesis
    unfolding BrokerHandle_def wp_bind wp_gets
    by (cases "if bq_RequestID rq \<noteq> [] then bk_requests w (bq_RequestID rq) else None")
      (auto simp: wp_simps split: if_splits intro!: wp_mono [OF *])
qed

context provider
begin

lemma replay:
  assumes "bq_RequestID rq' = bq_RequestID rq" and "bq_RequestID rq \<noteq> ''''"
  shows "run_state (BrokerHandle n txt caller' rq') (snd (run_state (BrokerHandle n txt caller rq) w)) =
     run_state (BrokerHandle n txt caller rq) w"
proof (cases "bk_requests w (bq_RequestID rq)")
  case (Some r)
  then show ?thesis
    using cached_reply [of w rq r n] cached_reply [of w rq' r n] assms by simp
next
  case None
  obtain r v where run: "run_state (BrokerHandle n txt caller rq) w = (r, v)" by fastforce
  from wp_runD [OF BrokerHandle_records run] assms have "bk_requests v (bq_RequestID rq') = Some r" by simp
  then show ?thesis using cached_reply [of v rq' r n] assms run by simp
qed

end

end
