(* ===== verification/Broker_Collect.thy ===== *)
theory Broker_Collect
  imports Broker_Laws
begin

text \<open>
  Capacity and collection in \<open>workspace/broker.go\<close>: what admission and collection may remove, and what
  a successful admission guarantees.
\<close>

section \<open>A provider that measures\<close>

text \<open>Asking for the free space and for the life of a process changes nothing; a session knows its lease.\<close>

locale measuring = provider +
  assumes measure_same: "keeps same (nv_HostFreeBytes n path)" "keeps same (nv_ProcessAlive n pid)"
    and info_same: "same w v \<Longrightarrow> nv_Info n h v = nv_Info n h w"
begin

lemma reclaimable_same: "keeps same (reclaimable ttl active ps st)"
  by (induction ps arbitrary: st) (auto intro!: eff_intros)

lemma status_same: "keeps same (broker_status n txt rq)"
  unfolding broker_status_def activeParents_def Let_def
  by (intro eff_intros measure_same reclaimable_same TrueI)

end

interpretation unsupported: measuring unsupportedNative
  by unfold_locales (simp_all add: unsupportedNative_def still.on_ret)

section \<open>The collection loop\<close>

lemma reclaim_dry: "keeps same (reclaim s ttl True active ps c b)"
  by (induction ps arbitrary: c b) (auto intro!: eff_intros simp: Let_def)

text \<open>What may be collected: parents outside the set.\<close>

definition collectable :: "cpath \<Rightarrow> string set \<Rightarrow> cpath set" where
  "collectable u K = {q. \<exists>k. compatibility k \<and> k \<notin> K \<and> prefix (u @ [''parents'', k]) q}"

lemma RemoveParentIfUnused_collects:
  assumes "well_placed s u"
  shows "keeps (writes (collectable u K)) (RemoveParentIfUnused s key K)"
proof (rule achieves_if_wp, rule wp_mono [OF RemoveParentIfUnused_frame [OF assms, where x = 0]])
  fix w v :: "'a world_scheme" and r
  assume "if key \<in> K \<or> \<not> compatibility key then v = w \<and> r \<noteq> Inr 0
    else writes (subtree (u @ [''parents'', key])) w v"
  then show "writes (collectable u K) w v \<and> True"
    by (auto simp: collectable_def writes_refl split: if_splits elim!: writes_mono)
qed

lemma reclaim_collects:
  assumes "well_placed s u"
  shows "keeps (writes (collectable u K)) (reclaim s ttl d K ps c b)"
  by (induction ps arbitrary: c b)
    (auto intro!: eff_intros RemoveParentIfUnused_collects [OF assms] simp: Let_def)

text \<open>
  The free bytes are host_measured once, before the collection: when they are below the floor, no
  collection makes the test succeed.
\<close>

lemma reclaim_floor:
  assumes "\<not> cp_HostFloorBytes c \<le>s cp_HostFreeBytes c - cp_ReserveBytes c"
  shows "wp (reclaim s ttl False K ps c b) (\<lambda>r _. snd r \<noteq> None) w"
  using assms
proof (induction ps arbitrary: c b w)
  case (Cons p ps)
  then show ?case
    by (auto simp: Let_def wp_simps fits_def intro!: wp_mono [OF wp_True] split: sum.splits)
qed (simp add: wp_simps)

text \<open>The collection changes the sizes in the report only, never the limits.\<close>

definition same_limits :: "Capacity \<Rightarrow> Capacity \<Rightarrow> bool" where
  "same_limits c c' \<longleftrightarrow> cp_QuotaBytes c' = cp_QuotaBytes c \<and> cp_HostFreeBytes c' = cp_HostFreeBytes c \<and>
     cp_HostFloorBytes c' = cp_HostFloorBytes c \<and> cp_ReserveBytes c' = cp_ReserveBytes c"

lemma same_limits_trans: "same_limits a b \<Longrightarrow> same_limits b c \<Longrightarrow> same_limits a c"
  by (simp add: same_limits_def)

lemma reclaim_limits: "achieves (calm :: 'z world_scheme \<Rightarrow> _) (\<lambda>r. same_limits c (fst r)) (reclaim s ttl d K ps c b)"
proof (induction ps arbitrary: c b)
  case Nil
  then show ?case by (auto intro: eff_intros simp: same_limits_def)
next
  case (Cons p ps)
  have step: "achieves (calm :: 'z world_scheme \<Rightarrow> _) (\<lambda>r. same_limits c (fst r)) (reclaim s ttl d K ps c' b')"
    if "same_limits c c'" for c' b'
    by (rule achieves_weaken [OF Cons.IH]) (rule same_limits_trans [OF that])
  show ?case
    unfolding reclaim.simps Let_def
    by (intro eff_intros step parents_calm TrueI) (simp_all add: same_limits_def)
qed

section \<open>Admission\<close>

text \<open>What is never collected: the parents records refer to, and those of the children held.\<close>

definition used_keys :: "broker Native \<Rightarrow> broker \<Rightarrow> string set" where
  "used_keys n w = Collect (references (bk_store w) (w_fs w)) \<union>
     set (map (\<lambda>(_, h). bl_ParentKey (nv_Info n h w)) (bk_children w))"

text \<open>What admission tested: the limits that count, and the floor on the free bytes.\<close>

definition host_measured :: "broker Native \<Rightarrow> broker \<Rightarrow> i64 \<Rightarrow> bool" where
  "host_measured n w free \<longleftrightarrow> fst (run_state (nv_HostFreeBytes n (bc_StoreRoot (bk_config w))) w) = Inr free"

definition limited :: "BrokerConfig \<Rightarrow> nat \<Rightarrow> i64 \<Rightarrow> i64 \<Rightarrow> Capacity \<Rightarrow> bool" where
  "limited c workers requestedQuota requestedFloor capacity \<longleftrightarrow>
     cp_QuotaBytes capacity = (if 0 <s requestedQuota \<and> requestedQuota <s bc_QuotaBytes c
       then requestedQuota else bc_QuotaBytes c) \<and>
     cp_HostFloorBytes capacity = (if bc_HostFloorBytes c <s requestedFloor then requestedFloor
       else bc_HostFloorBytes c) \<and>
     cp_ReserveBytes capacity = of_nat workers * bc_ChildReserveBytes c"

lemma limited_same: "limited c k q f x \<Longrightarrow> same_limits x y \<Longrightarrow> limited c k q f y"
  by (simp add: limited_def same_limits_def)

lemma wp_result: "wp m (\<lambda>r _. fst (run_state m w) = r) w"
  by (simp add: wp_def split: prod.splits)

lemma wp_prodI: "(\<And>a b. wp (k a b) Q w) \<Longrightarrow> wp (case x of (a, b) \<Rightarrow> k a b) Q w"
  by (cases x) simp

lemma Store_Status_spec:
  "wp (Store_Status s free quota floor) (\<lambda>(st, e) v. same w v \<and> (e = None \<longrightarrow>
     (\<exists>used. ws_Capacity st = \<lparr>cp_QuotaBytes = quota, cp_AllocatedBytes = used, cp_ReclaimableBytes = 0,
        cp_HostFreeBytes = free, cp_HostFloorBytes = floor, cp_ReserveBytes = 0\<rparr>))) w"
proof (rule wp_mono [OF wp_conj])
  show "wp (Store_Status s free quota floor) (\<lambda>_ v. same w v) w"
    using achieves_wp [OF Store_Status_same] by simp
  show "wp (Store_Status s free quota floor) (\<lambda>(st, e) v. e = None \<longrightarrow>
     (\<exists>used. ws_Capacity st = \<lparr>cp_QuotaBytes = quota, cp_AllocatedBytes = used, cp_ReclaimableBytes = 0,
        cp_HostFreeBytes = free, cp_HostFloorBytes = floor, cp_ReserveBytes = 0\<rparr>)) w"
    unfolding Store_Status_def Let_def
    by (intro wp_skip(1) wp_prodI) (auto simp: wp_simps)
qed auto

context measuring
begin

lemma same_step:
  fixes m :: "'a bop"
  shows "keeps same m \<Longrightarrow> same w v \<Longrightarrow> wp m (\<lambda>_ x. same w x) v"
  by (rule wp_mono [OF achieves_wp]) (auto intro: same_trans)

lemma ensure_spec:
  assumes u: "well_placed (bk_store w) u"
  shows "wp (ensureCapacityWithLimits n k d q f) (\<lambda>(c', e) v.
     writes (collectable u (used_keys n w)) w v \<and> (d \<longrightarrow> same w v) \<and>
     (e = None \<longrightarrow> limited (bk_config w) k q f c' \<and> host_measured n w (cp_HostFreeBytes c') \<and>
        (\<not> d \<longrightarrow> cp_HostFloorBytes c' \<le>s cp_HostFreeBytes c' - cp_ReserveBytes c'))) w"
proof -
  let ?Q = "\<lambda>r v. writes (collectable u (used_keys n w)) w v \<and> (d \<longrightarrow> same w v) \<and>
     (snd r = None \<longrightarrow> limited (bk_config w) k q f (fst r) \<and> host_measured n w (cp_HostFreeBytes (fst r)) \<and>
        (\<not> d \<longrightarrow> cp_HostFloorBytes (fst r) \<le>s cp_HostFreeBytes (fst r) - cp_ReserveBytes (fst r)))"
  have stop: "wp (ret (x, Some e)) ?Q v" if "same w v" for x e v
    using that by (simp add: wp_ret writes_same)
  have collect: "wp (reclaim (bk_store w) ttl d K ps c' b) ?Q v"
    if v: "same w v" and K: "used_keys n w \<subseteq> K" and c': "limited (bk_config w) k q f c'" "host_measured n w (cp_HostFreeBytes c')" for ttl K ps c' b v
  proof -
    have "wp (reclaim (bk_store w) ttl d K ps c' b) (\<lambda>r x. writes (collectable u K) v x \<and> same_limits c' (fst r)) v"
      by (rule wp_conj [OF achieves_wp [OF reclaim_collects [OF u], THEN wp_mono]
          achieves_wp [OF reclaim_limits, THEN wp_mono]]) auto
    moreover have "wp (reclaim (bk_store w) ttl d K ps c' b) (\<lambda>r x. (d \<longrightarrow> same v x) \<and>
        (\<not> d \<and> \<not> cp_HostFloorBytes c' \<le>s cp_HostFreeBytes c' - cp_ReserveBytes c' \<longrightarrow> snd r \<noteq> None)) v"
      using reclaim_floor [of c'] achieves_wp [OF reclaim_dry]
      by (cases d; cases "cp_HostFloorBytes c' \<le>s cp_HostFreeBytes c' - cp_ReserveBytes c'") (auto elim: wp_mono)
    ultimately show ?thesis
      by (rule wp_mono [OF wp_conj])
        (use v K c' in \<open>auto 0 3 intro: same_trans limited_same simp: same_limits_def collectable_def
           writes_def same_def\<close>)
  qed
  have tail: "wp (do {
      active \<leftarrow> activeParents n;
      attempt (ProtectedParentKeys (bk_store w)) (\<lambda>e. ret (c', Some e)) (\<lambda>protected.
      attempt (ListParents (bk_store w)) (\<lambda>e. ret (c', Some e)) (\<lambda>parents.
        reclaim (bk_store w) ttl d (active \<union> protected) parents c' b)) }) ?Q v"
    if v: "same w v" and c': "limited (bk_config w) k q f c'" "host_measured n w (cp_HostFreeBytes c')" for ttl c' b v
  proof -
    have a: "set (map (\<lambda>(_, h). bl_ParentKey (nv_Info n h v)) (bk_children v)) =
        set (map (\<lambda>(_, h). bl_ParentKey (nv_Info n h w)) (bk_children w))"
      using info_same [OF v] calm_remembers [OF writes_same [OF v]] by (simp add: remembers_def)
    show ?thesis
      unfolding activeParents_def wp_bind wp_gets a
    proof (rule wp_attemptI [OF ProtectedParentKeys_spec], goal_cases)
      case (2 K x)
      then have x: "same w x" "used_keys n w \<subseteq> set (map (\<lambda>(_, h). bl_ParentKey (nv_Info n h w)) (bk_children w)) \<union> K"
        using v same_trans [OF v] by (auto simp: used_keys_def same_def)
      show ?case
        by (rule wp_attemptI [OF same_step [OF lists_same(2) x(1)]]) (rule stop collect [OF _ x(2) c'], assumption)+
    next
      case (1 e x)
      then show ?case by (intro stop same_trans [OF v]) simp
    qed
  qed
  have "wp (ensureCapacityWithLimits n k d q f) ?Q w"
    unfolding ensureCapacityWithLimits_def Let_def wp_bind wp_gets
  proof (rule wp_attemptI [OF wp_conj [OF same_step [OF measure_same(1) same_refl] wp_result]], goal_cases)
    case (2 free v)
    then have free: "host_measured n w free" and v: "same w v" by (simp_all add: host_measured_def)
    show ?case
      unfolding wp_bind
    proof (rule wp_mono [OF Store_Status_spec], goal_cases)
      case (1 r v')
      obtain st e where r: "r = (st, e)" by (cases r)
      show ?case
      proof (cases e)
        case None
        with 1 r obtain used where st: "ws_Capacity st = \<lparr>cp_QuotaBytes =
            if 0 <s q \<and> q <s bc_QuotaBytes (bk_config w) then q else bc_QuotaBytes (bk_config w),
            cp_AllocatedBytes = used, cp_ReclaimableBytes = 0, cp_HostFreeBytes = free, cp_HostFloorBytes =
            if bc_HostFloorBytes (bk_config w) <s f then f else bc_HostFloorBytes (bk_config w), cp_ReserveBytes = 0\<rparr>"
          and v': "same w v'" using same_trans [OF v] by auto
        then show ?thesis
          using None free tail [OF v'] by (auto simp: r wp_if wp_ret fits_def limited_def writes_same)
      next
        case (Some a)
        with 1 r have "same w v'" using same_trans [OF v] by simp
        then show ?thesis using r Some by (simp add: stop)
      qed
    qed
  qed (rule stop, simp)
  then show ?thesis by (simp add: case_prod_beta')
qed

text \<open>The two requests that only ask for it.\<close>

lemma admit_spec:
  assumes "well_placed (bk_store w) u"
  shows "wp (broker_admit n rq) (\<lambda>r v. writes (collectable u (used_keys n w)) w v \<and> (bs_OK r \<longrightarrow>
     (\<exists>m. bs_Metrics r = Some m \<and> limited (bk_config w) 1 (bq_StoreMaxAllocatedBytes rq)
        (bq_MinimumHostFreeBytes rq) (bm_Capacity m) \<and> host_measured n w (cp_HostFreeBytes (bm_Capacity m)) \<and>
        cp_HostFloorBytes (bm_Capacity m) \<le>s cp_HostFreeBytes (bm_Capacity m) - cp_ReserveBytes (bm_Capacity m)))) w"
  unfolding broker_admit_def wp_bind wp_gets
  by (rule wp_mono [OF ensure_spec [OF assms]])
    (auto simp: wp_ret broker_fail_def zero_broker_response_def split: option.splits prod.splits)

lemma gc_spec:
  assumes "well_placed (bk_store w) u"
  shows "wp (broker_gc n rq) (\<lambda>r v. writes (collectable u (used_keys n w)) w v \<and>
     (bq_DryRun rq \<longrightarrow> same w v)) w"
  unfolding broker_gc_def ensureCapacity_def wp_bind wp_gets
  by (rule wp_mono [OF ensure_spec [OF assms]]) (auto simp: wp_ret split: prod.splits)

end

end
