(* ===== verification/Broker_Leases.thy ===== *)
theory Broker_Leases
  imports Broker_Collect
begin

text \<open>
  The leases of the broker: the owner file of a workspace, the guarded removal of a workspace, what a
  granted, a released and a recovered lease leave behind.
\<close>

lemma fail_not_ok [simp]: "\<not> bs_OK (broker_fail rq code operation path e)"
  by (simp add: broker_fail_def zero_broker_response_def)

lemma wp_ifI: "(b \<Longrightarrow> wp m Q w) \<Longrightarrow> (\<not> b \<Longrightarrow> wp k Q w) \<Longrightarrow> wp (if b then m else k) Q w"
  by simp

lemma wp_case_sum:
  "(\<And>e. x = Inl e \<Longrightarrow> wp (h e) Q w) \<Longrightarrow> (\<And>y. x = Inr y \<Longrightarrow> wp (k y) Q w) \<Longrightarrow>
   wp (case x of Inl e \<Rightarrow> h e | Inr y \<Rightarrow> k y) Q w"
  by (cases x) simp_all

lemma wp_case_option:
  "(x = None \<Longrightarrow> wp m Q w) \<Longrightarrow> (\<And>y. x = Some y \<Longrightarrow> wp (k y) Q w) \<Longrightarrow>
   wp (case x of None \<Rightarrow> m | Some y \<Rightarrow> k y) Q w"
  by (cases x) simp_all

lemma wp_case_prod: "(\<And>a b. x = (a, b) \<Longrightarrow> wp (k a b) Q w) \<Longrightarrow> wp (case x of (a, b) \<Rightarrow> k a b) Q w"
  by (cases x) simp

section \<open>Workspaces\<close>

lemma workspaceMount_Inr:
  "workspaceMount c i = Inr (w, m) \<Longrightarrow> is_identifier i \<and> w = Join [bc_WorkspaceRoot c, i] \<and> m = Join [w, ''Library'']"
  by (auto simp: workspaceMount_def Let_def split: if_splits option.splits)

lemma workspaceMount_comps:
  assumes "workspaceMount c i = Inr (w, m)" and "IsAbs (bc_WorkspaceRoot c)"
  shows "comps w = comps (bc_WorkspaceRoot c) @ [i]" and "comps m = comps (bc_WorkspaceRoot c) @ [i, ''Library'']"
    and "proper i"
proof -
  note m = workspaceMount_Inr [OF assms(1)]
  then show i: "proper i" by simp
  have l: "proper ''Library''" by (simp add: proper_def)
  show "comps w = comps (bc_WorkspaceRoot c) @ [i]" "comps m = comps (bc_WorkspaceRoot c) @ [i, ''Library'']"
    using m assms(2) i l by (simp_all add: comps_Join IsAbs_Join)
qed

text \<open>The workspace of a journal is the broker's own: its owner file names the lease.\<close>

definition owned :: "BrokerConfig \<Rightarrow> LeaseJournal \<Rightarrow> fsys \<Rightarrow> bool" where
  "owned c j f \<longleftrightarrow> (\<exists>workspace mount owner.
     workspaceMount c (jn_WorkspaceID j) = Inr (workspace, mount) \<and>
     samePath workspace (jn_WorkspacePath j) \<and> samePath mount (jn_MountPath j) \<and>
     read_as dec_broker_owner (comps (Join [workspace, broker_workspaceOwnerFile])) f = Inr owner \<and>
     owner_matches owner j workspace mount)"

abbreviation no_workspace :: "LeaseJournal \<Rightarrow> bool" where
  "no_workspace j \<equiv> jn_WorkspaceID j = '''' \<or> jn_WorkspacePath j = ''''"

text \<open>Stepping over a call that only reads.\<close>

lemma wp_stillI:
  assumes "keeps same m"
  shows "same u w \<Longrightarrow> wp m (\<lambda>_ v. same u v) w"
  by (rule wp_mono [OF achieves_wp [OF assms]]) (auto intro: same_trans)

lemma readWorkspaceOwner_spec:
  "wp (readWorkspaceOwner c j) (\<lambda>r v. same w v \<and> (\<forall>m. r = Inr m \<longrightarrow> no_workspace j \<or> owned c j (w_fs w))) w"
proof (cases "workspaceMount c (jn_WorkspaceID j)")
  case (Inr p)
  obtain ws mt where p: "p = (ws, mt)" by (cases p)
  let ?Q = "\<lambda>r v. same w v \<and> (\<forall>m. r = Inr m \<longrightarrow> no_workspace j \<or> owned c j (w_fs w))"
  have "wp (do {
      check (real_directories ErrOwnershipMismatch [bc_WorkspaceRoot c, ws]) (\<lambda>e. ret (Inl e)) (
      check (validateRegular (Join [ws, broker_workspaceOwnerFile])) (\<lambda>e. ret (Inl e)) (
      attempt (store_readJSON (Join [ws, broker_workspaceOwnerFile]) dec_broker_owner) (\<lambda>e. ret (Inl e)) (\<lambda>owner.
      if \<not> owner_matches owner j ws mt then ret (Inl ErrOwnershipMismatch)
      else ret (Inr (Join [ws, broker_workspaceOwnerFile]))))) }) ?Q w"
    if "samePath ws (jn_WorkspacePath j)" "samePath mt (jn_MountPath j)"
  proof (rule wp_checkI [OF wp_stillI [OF workspaces_same(1) same_refl]], goal_cases)
    case (2 v)
    show ?case
    proof (rule wp_checkI [OF wp_stillI [OF reads_still(2) 2]], goal_cases)
      case v': (2 v')
      show ?case
        by (rule wp_attemptI [OF store_readJSON_spec])
          (use v' Inr p that in \<open>auto simp: wp_simps owned_def same_def\<close>)
    qed (simp add: wp_ret)
  qed (simp add: wp_ret)
  then show ?thesis
    unfolding readWorkspaceOwner_def Let_def Inr p by (auto simp: wp_if wp_ret)
qed (auto simp: readWorkspaceOwner_def wp_simps)

text \<open>
  The removal of a workspace: nothing happens unless the workspace is the broker's own and holds no
  link, and then only at and below the recorded path, which is gone when it reports success.
\<close>

lemma cleanup_spec:
  "wp (cleanupOwnedWorkspace c j) (\<lambda>r v.
     (w_fs v = w_fs w \<or> owned c j (w_fs w) \<and> writes (subtree (comps (jn_WorkspacePath j))) w v \<and>
        (\<forall>q n. prefix (comps (jn_WorkspacePath j)) q \<longrightarrow> list_all proper q \<longrightarrow>
           lookup (w_fs w) q = Some n \<longrightarrow> \<not> is_link n)) \<and>
     (r = None \<longrightarrow> no_workspace j \<or> lookup (w_fs v) (comps (jn_WorkspacePath j)) = None)) w"
  (is "wp _ ?Q w")
proof (cases "no_workspace j")
  case False
  let ?p = "comps (jn_WorkspacePath j)"
  let ?safe = "\<lambda>f. \<forall>q n. prefix ?p q \<longrightarrow> list_all proper q \<longrightarrow> lookup f q = Some n \<longrightarrow> \<not> is_link n"
  have walk: "wp (WalkCheck (jn_WorkspacePath j) cleanup_visit)
      (\<lambda>r x. same w x \<and> (r = None \<longrightarrow> ?safe (w_fs w))) v" if v: "same w v" for v
  proof -
    have "wp (WalkCheck (jn_WorkspacePath j) cleanup_visit) (\<lambda>r x. r = None \<longrightarrow> ?safe (w_fs v)) v"
      by (rule wp_mono [OF WalkCheck_checked]) (auto simp: cleanup_visit_def split: if_splits)
    then show ?thesis
      using v by (auto simp: same_def intro: wp_mono [OF wp_conj [OF wp_stillI [OF WalkCheck_same v]]])
  qed
  have remove: "wp (os_RemoveAll (jn_WorkspacePath j)) (\<lambda>_ x. writes (subtree ?p) w x) v" if v: "same w v" for v
    by (rule wp_keeps [OF os_RemoveAll_keeps]) (use v in \<open>auto simp: writes_def same_def\<close>)
  have last: "wp (attempt (os_Lstat (jn_WorkspacePath j))
        (\<lambda>e. ret (if IsNotExist e then None else join_errs [Some e, Some ErrOwnershipMismatch]))
        (\<lambda>_. ret (join_errs [None, Some ErrOwnershipMismatch]))) ?Q v"
    if "writes (subtree ?p) w v" "owned c j (w_fs w)" "?safe (w_fs w)" for v
    by (rule wp_attemptI [OF os_read_specs(1)])
      (use that in \<open>auto simp: wp_ret same_def writes_def fs_lstat_def IsNotExist_def join_errs_def
         split: option.splits\<close>)
  have stop: "wp (ret (Some e)) ?Q v" if "w_fs v = w_fs w" for e v
    using that by (simp add: wp_ret)
  have "wp (attempt (os_Lstat (jn_WorkspacePath j)) (\<lambda>e. ret (if IsNotExist e then None else Some e)) (\<lambda>_.
      attempt (readWorkspaceOwner c j) (\<lambda>e. ret (Some e)) (\<lambda>_.
      check (WalkCheck (jn_WorkspacePath j) cleanup_visit) (\<lambda>e. ret (Some e)) (
      check (os_RemoveAll (jn_WorkspacePath j)) (\<lambda>e. ret (Some e)) (
      attempt (os_Lstat (jn_WorkspacePath j))
        (\<lambda>e. ret (if IsNotExist e then None else join_errs [Some e, Some ErrOwnershipMismatch]))
        (\<lambda>_. ret (join_errs [None, Some ErrOwnershipMismatch]))))))) ?Q w"
  proof (rule wp_attemptI [OF os_read_specs(1)], goal_cases)
    case (1 e v)
    then show ?case by (auto simp: wp_ret same_def fs_lstat_def IsNotExist_def split: option.splits)
  next
    case (2 n v)
    show ?case
    proof (rule wp_attemptI [OF readWorkspaceOwner_spec], goal_cases)
      case (1 e x)
      with 2 show ?case by (intro stop) (simp add: same_def)
    next
      case (2 m x)
      with \<open>same w v \<and> _\<close> False have x: "same w x" "owned c j (w_fs w)" by (auto simp: same_def)
      show ?case
      proof (rule wp_checkI [OF walk [OF x(1)]], goal_cases)
        case (1 e y)
        then show ?case by (intro stop) (simp add: same_def)
      next
        case (2 y)
        then have y: "same w y" "?safe (w_fs w)" by blast+
        show ?case
        proof (rule wp_checkI [OF remove [OF y(1)]], goal_cases)
          case (1 e z)
          then show ?case using x(2) y(2) by (simp add: wp_ret)
        qed (rule last [OF _ x(2) y(2)])
      qed
    qed
  qed
  then show ?thesis using False by (simp add: cleanupOwnedWorkspace_def)
qed (simp add: cleanupOwnedWorkspace_def wp_ret)

section \<open>Operations that only remove\<close>

definition shrinks :: "'z world_scheme \<Rightarrow> 'z world_scheme \<Rightarrow> bool" where
  "shrinks w v \<longleftrightarrow> (\<forall>p. lookup (w_fs w) p = None \<longrightarrow> lookup (w_fs v) p = None)"

interpretation shrinking: effect shrinks
  by unfold_locales (simp_all add: shrinks_def)

lemma same_shrinks: "achieves same Q m \<Longrightarrow> achieves shrinks Q m"
  by (erule achieves_rel_mono) (simp add: same_def shrinks_def)

lemma removals_shrink: "keeps shrinks (os_Remove p)" "keeps shrinks (os_RemoveAll p)"
proof -
  show "keeps shrinks (os_Remove p)"
    by (rule achieves_if_wp)
      (auto simp: os_Remove_def wp_simps shrinks_def fs_remove_def lookup_del split: sum.splits option.splits if_splits)
  show "keeps shrinks (os_RemoveAll p)"
    unfolding os_RemoveAll_def
    by (rule achieves_if_wp, simp add: wp_bind wp_gets, rule wp_mono [OF remove_list_success]) (auto simp: shrinks_def)
qed

lemma RemoveParentIfUnused_shrinks: "keeps shrinks (RemoveParentIfUnused s k K)"
  unfolding RemoveParentIfUnused_def
  by (intro shrinking.on_control removals_shrink same_shrinks [OF reads_still(3)] eff_intros TrueI)

lemma reclaim_shrinks: "keeps shrinks (reclaim s ttl d K ps c b)"
  by (induction ps arbitrary: c b)
    (auto simp: Let_def intro!: shrinking.on_control RemoveParentIfUnused_shrinks same_shrinks [OF reads_same(7)] eff_intros)

lemma RemoveLease_removes:
  "wp (RemoveLease s j) (\<lambda>r v. shrinks w v \<and> (r = None \<longrightarrow> is_identifier (jn_LeaseID j) \<and>
     lookup (w_fs v) (comps (Join [pt_Leases s, jn_LeaseID j @ ''.json''])) = None)) w"
  unfolding RemoveLease_def
  by (rule wp_attemptI [OF Store_ReadLease_spec])
    (auto simp: wp_simps os_Remove_def same_def shrinks_def fs_remove_def lookup_del lease_at_def Paths_Lease_def
      split: sum.splits option.splits if_splits)

context measuring
begin

lemma ensure_shrinks:
  "keeps shrinks (ensureCapacityWithLimits n k d q f)" "keeps shrinks (ensureCapacity n k d)"
  unfolding ensureCapacity_def ensureCapacityWithLimits_def activeParents_def Let_def
  by (intro shrinking.on_control reclaim_shrinks same_shrinks [OF measure_same(1)]
      same_shrinks [OF Store_Status_same] same_shrinks [OF lists_same(2)] same_shrinks [OF lists_same(3)] eff_intros TrueI)+

end

section \<open>Release\<close>

lemma retained_path:
  assumes "well_placed s u" and "is_identifier i"
  shows "comps (Join [pt_Retained s, i @ ''.json'']) = u @ [''retained'', i @ ''.json'']"
  using assms identifier_proper_suffix [of i "''.json''"]
  by (auto simp: well_placed_def placed_def comps_Join)

definition retained_record :: "LeaseJournal \<Rightarrow> int \<Rightarrow> RetainedRecord" where
  "retained_record j now = \<lparr>rr_SchemaVersion = ProtocolSchemaVersion, rr_RunID = jn_RunID j,
     rr_LeaseID = jn_LeaseID j, rr_OwnershipToken = jn_OwnershipToken j, rr_ParentKey = jn_ParentKey j,
     rr_ChildPath = jn_ChildPath j, rr_CreatedAt = now\<rparr>"

abbreviation stores :: "cpath \<Rightarrow> json \<Rightarrow> fsys \<Rightarrow> bool" where
  "stores p j f \<equiv> \<exists>e. holds_file p (json_content e True j) 384 f"

lemma WriteRetained_success:
  assumes s: "well_placed s u"
  shows "wp (WriteRetained s j) (\<lambda>r v. r = None \<longrightarrow> is_identifier (jn_RunID j) \<and>
     writes {u @ [''retained'', jn_RunID j @ ''.json'']} w v \<and>
     (\<exists>t. stores (u @ [''retained'', jn_RunID j @ ''.json'']) (enc_retained (retained_record j t)) (w_fs v))) w"
proof (cases "is_identifier (jn_RunID j)")
  case True
  note p = retained_path [OF s True]
  have x: "wp (WriteExclusiveDurable (Join [pt_Retained s, jn_RunID j @ ''.json'']) (json_content e True (enc_retained (retained_record j t))) 384)
     (\<lambda>r v. r = None \<longrightarrow> writes {u @ [''retained'', jn_RunID j @ ''.json'']} x v \<and>
       stores (u @ [''retained'', jn_RunID j @ ''.json'']) (enc_retained (retained_record j t)) (w_fs v)) x" for e t x
    unfolding p [symmetric]
    by (rule wp_mono [OF wp_conj [OF WriteExclusiveDurable_success
          achieves_wp [OF WriteExclusiveDurable_frame [OF singletonI]]]]) auto
  have y: "writes S (tick w) v \<Longrightarrow> writes S w v" for S and v :: "'a world_scheme"
    by (simp add: writes_def)
  show ?thesis
    unfolding WriteRetained_def store_writeJSONExclusive_def
    using True by (auto simp: Paths_RetainedRecord_def wp_simps env_get_def time_Now_def
        retained_record_def [symmetric] intro!: wp_mono [OF x] dest: y)
qed (simp add: WriteRetained_def Paths_RetainedRecord_def wp_simps)

text \<open>What a release leaves on disk: the records of a retained child, or nothing of the lease.\<close>

definition lease_file :: "cpath \<Rightarrow> string \<Rightarrow> cpath" where
  "lease_file u i = u @ [''leases'', i @ ''.json'']"

definition released :: "cpath \<Rightarrow> bool \<Rightarrow> LeaseJournal \<Rightarrow> fsys \<Rightarrow> bool" where
  "released u retain j f \<longleftrightarrow>
     (if retain then
        (\<exists>t. stores (lease_file u (jn_LeaseID j))
           (enc_lease (stamped t (j\<lparr>jn_State := ''released'', jn_Retained := True\<rparr>))) f) \<and>
        (\<exists>t. stores (u @ [''retained'', jn_RunID j @ ''.json'']) (enc_retained (retained_record j t)) f)
      else lookup f (lease_file u (jn_LeaseID j)) = None \<and>
        (no_workspace j \<or> lookup f (comps (jn_WorkspacePath j)) = None))"

lemma released_stable:
  assumes "writes (collectable u K) v x" and "shrinks v x" and "released u retain j (w_fs v)"
  shows "released u retain j (w_fs x)"
proof -
  have p: "lease_file u (jn_LeaseID j) \<notin> collectable u K" "u @ [''retained'', jn_RunID j @ ''.json''] \<notin> collectable u K"
    by (auto simp: collectable_def lease_file_def)
  have "stores p y (w_fs x)" if "p \<notin> collectable u K" "stores p y (w_fs v)" for p y
    using that holds_file_frame [OF assms(1)] by blast
  note keep = this [OF p(1)] this [OF p(2)]
  show ?thesis
  proof (cases retain)
    case True
    with assms(3) obtain t t' where
      "stores (lease_file u (jn_LeaseID j))
         (enc_lease (stamped t (j\<lparr>jn_State := ''released'', jn_Retained := True\<rparr>))) (w_fs v)"
      "stores (u @ [''retained'', jn_RunID j @ ''.json'']) (enc_retained (retained_record j t')) (w_fs v)"
      by (auto simp: released_def)
    then show ?thesis using True keep unfolding released_def by simp blast
  next
    case False
    then show ?thesis using assms(2,3) by (auto simp: released_def shrinks_def)
  qed
qed

context measuring
begin

lemma wp_remembers:
  "keeps remembers m \<Longrightarrow> remembers w v \<Longrightarrow> wp m (\<lambda>_ x. remembers w x) v"
  by (rule wp_mono [OF achieves_wp]) (auto intro: remembering.eff_trans)

text \<open>The end of \<open>release\<close>: the session is forgotten and the store is collected.\<close>

lemma release_end:
  assumes u: "well_placed (bk_store w) u" and v: "remembers w v" and r: "released u retain j (w_fs v)"
  shows "wp (do {
     modify (\<lambda>w. w\<lparr>bk_children := AList.delete lease (bk_children w)\<rparr>);
     info \<leftarrow> gets (nv_Info n h);
     (capacity, _) \<leftarrow> ensureCapacity n 0 False;
     ret (k info capacity) })
    (\<lambda>_ x. map_of (bk_children x) lease = None \<and> released u retain j (w_fs x)) v"
proof -
  let ?v = "v\<lparr>bk_children := AList.delete lease (bk_children v)\<rparr>"
  have s: "bk_store ?v = bk_store w" using v by (simp add: remembers_def)
  have "wp (ensureCapacity n 0 False) (\<lambda>_ x. writes (collectable u (used_keys n ?v)) ?v x \<and> shrinks ?v x) ?v"
    unfolding ensureCapacity_def
    by (rule wp_mono [OF wp_conj [OF ensure_spec achieves_wp [OF ensure_shrinks(1)]]])
      (use u s in \<open>auto split: prod.splits\<close>)
  then have "wp (ensureCapacity n 0 False)
      (\<lambda>_ x. map_of (bk_children x) lease = None \<and> released u retain j (w_fs x)) ?v"
  proof (rule wp_mono)
    fix c x
    assume x: "writes (collectable u (used_keys n ?v)) ?v x \<and> shrinks ?v x"
    then have "bk_children x = bk_children ?v"
      using calm_remembers [OF writes_mono] by (auto simp: remembers_def)
    moreover have "released u retain j (w_fs x)"
      using released_stable [OF conjunct1 [OF x] conjunct2 [OF x]] r by simp
    ultimately show "map_of (bk_children x) lease = None \<and> released u retain j (w_fs x)"
      by (simp add: delete_conv')
  qed
  then show ?thesis
    unfolding wp_bind wp_modify wp_gets by (rule wp_mono) (auto simp: wp_ret split: prod.splits)
qed

lemma release_records_spec:
  assumes u: "well_placed (bk_store w) u" and v: "remembers w v" and j: "is_identifier (jn_LeaseID j)"
    and st: "jn_State j = ''released''" "jn_Retained j = bq_RetainChild rq"
    and k: "\<And>x. remembers w x \<Longrightarrow> released u (bq_RetainChild rq) j (w_fs x) \<Longrightarrow> wp k (\<lambda>r x. bs_OK r \<longrightarrow> P r x) x"
  shows "wp (release_records rq c (bk_store w) j k) (\<lambda>r x. bs_OK r \<longrightarrow> P r x) v"
proof -
  have fail: "wp (ret (broker_fail rq a b c' e)) (\<lambda>r x. bs_OK r \<longrightarrow> P r x) x" for a b c' e x
    by (simp add: wp_ret)
  note lp = lease_path(2) [OF u j]
  show ?thesis
  proof (cases "bq_RetainChild rq")
    case True
    have jj: "j\<lparr>jn_State := ''released'', jn_Retained := True\<rparr> = j" using st True by simp
    have "wp (do {
      check (Store_WriteLease (bk_store w) j) (\<lambda>e. ret (broker_fail rq a b d (Some e))) (
      check (WriteRetained (bk_store w) j) (\<lambda>e. ret (broker_fail rq a' b' d (Some e))) k) })
      (\<lambda>r x. bs_OK r \<longrightarrow> P r x) v" for a b d a' b'
    proof (rule wp_checkI [OF wp_conj [OF Store_WriteLease_success [OF u]
          wp_remembers [OF keeps_remembers [OF leases_calm(1)] v]]], rule fail)
      fix x
      assume "(None = None \<longrightarrow> is_identifier (jn_LeaseID j) \<and> (\<exists>t e. holds_file
         (comps (Join [pt_Leases (bk_store w), jn_LeaseID j @ ''.json'']))
         (json_content e True (enc_lease (stamped t j))) 384 (w_fs x))) \<and> remembers w x"
      then obtain t e where x: "remembers w x"
        and h: "holds_file (lease_file u (jn_LeaseID j)) (json_content e True (enc_lease (stamped t j))) 384 (w_fs x)"
        unfolding lp lease_file_def by blast
      show "wp (check (WriteRetained (bk_store w) j) (\<lambda>e. ret (broker_fail rq a' b' d (Some e))) k)
          (\<lambda>r x. bs_OK r \<longrightarrow> P r x) x"
      proof (rule wp_checkI [OF wp_conj [OF WriteRetained_success [OF u]
            wp_remembers [OF keeps_remembers [OF leases_calm(3)] x]]], rule fail)
        fix y
        let ?rf = "u @ [''retained'', jn_RunID j @ ''.json'']"
        assume "(None = None \<longrightarrow> is_identifier (jn_RunID j) \<and> writes {?rf} x y \<and>
           (\<exists>t. stores ?rf (enc_retained (retained_record j t)) (w_fs y))) \<and> remembers w y"
        then have y: "remembers w y" "writes {?rf} x y"
          "\<exists>t. stores ?rf (enc_retained (retained_record j t)) (w_fs y)" by blast+
        have "holds_file (lease_file u (jn_LeaseID j)) (json_content e True (enc_lease (stamped t j))) 384 (w_fs y)"
          by (rule holds_file_frame [OF y(2) h]) (simp add: lease_file_def)
        then have "released u (bq_RetainChild rq) j (w_fs y)"
          using y(3) True unfolding released_def jj by auto
        with y(1) show "wp k (\<lambda>r x. bs_OK r \<longrightarrow> P r x) y" by (rule k)
      qed
    qed
    then show ?thesis using True by (simp add: release_records_def Let_def)
  next
    case False
    have "wp (do {
      check (cleanupOwnedWorkspace c j)
        (\<lambda>e. quarantine_lease (bk_store w) j (ret (broker_fail rq a b d (Some e)))) (
      check (RemoveLease (bk_store w) j) (\<lambda>e. ret (broker_fail rq a' b' d' (Some e))) k) })
      (\<lambda>r x. bs_OK r \<longrightarrow> P r x) v" for a b d a' b' d'
    proof (rule wp_checkI [OF wp_conj [OF cleanup_spec wp_remembers [OF keeps_remembers [OF workspaces_calm(3)] v]]],
        goal_cases)
      case (1 e x)
      show ?case
        unfolding quarantine_lease_def by (rule wp_ignoreI [OF wp_True]) (rule fail)
    next
      case (2 x)
      then have x: "remembers w x" and g: "no_workspace j \<or> lookup (w_fs x) (comps (jn_WorkspacePath j)) = None"
        by simp_all
      show ?case
      proof (rule wp_checkI [OF wp_conj [OF RemoveLease_removes wp_remembers [OF keeps_remembers [OF leases_calm(2)] x]]],
          rule fail, rule k, blast)
        fix y
        assume "(shrinks x y \<and> (None = None \<longrightarrow> is_identifier (jn_LeaseID j) \<and>
          lookup (w_fs y) (comps (Join [pt_Leases (bk_store w), jn_LeaseID j @ ''.json''])) = None)) \<and> remembers w y"
        then show "released u (bq_RetainChild rq) j (w_fs y)"
          using False g unfolding lp by (auto simp: released_def lease_file_def shrinks_def)
      qed
    qed
    then show ?thesis using False by (simp add: release_records_def Let_def)
  qed
qed

lemma lease_at_Inr: "lease_at s i f = Inr j \<Longrightarrow> is_identifier i \<and> jn_LeaseID j = i"
  by (auto simp: lease_at_def Paths_Lease_def split: sum.splits if_splits)

lemma released_states [simp]:
  "released u retain (j\<lparr>jn_Retained := b, jn_State := st\<rparr>) f \<longleftrightarrow> released u retain j f"
  by (simp add: released_def retained_record_def)

lemma broker_release_spec:
  assumes u: "well_placed (bk_store w) u"
  shows "wp (broker_release n rq) (\<lambda>r v. bs_OK r \<longrightarrow> (\<exists>h j.
     map_of (bk_children w) (bq_LeaseID rq) = Some h \<and>
     lease_at (bk_store w) (bq_LeaseID rq) (w_fs w) = Inr j \<and>
     map_of (bk_children v) (bq_LeaseID rq) = None \<and> released u (bq_RetainChild rq) j (w_fs v))) w"
proof (cases "map_of (bk_children w) (bq_LeaseID rq)")
  case None
  then show ?thesis
    by (simp add: broker_release_def Let_def wp_simps)
next
  case (Some h)
  let ?P = "\<lambda>r v. \<exists>j. lease_at (bk_store w) (bq_LeaseID rq) (w_fs w) = Inr j \<and>
     map_of (bk_children v) (bq_LeaseID rq) = None \<and> released u (bq_RetainChild rq) j (w_fs v)"
  have fail: "wp (ret (broker_fail rq a b c' e)) (\<lambda>r x. bs_OK r \<longrightarrow> ?P r x) x" for a b c' e x
    by (simp add: wp_ret)
  have "wp (broker_release n rq) (\<lambda>r x. bs_OK r \<longrightarrow> ?P r x) w"
    unfolding broker_release_def Let_def wp_bind wp_gets Some option.case
  proof (rule wp_attemptI [OF Store_ReadLease_spec], rule fail, goal_cases)
    case (1 j v)
    then have v: "remembers w v" and j: "lease_at (bk_store w) (bq_LeaseID rq) (w_fs w) = Inr j"
      using calm_remembers [OF writes_same] by auto
    show ?case
    proof (rule wp_checkI [OF wp_remembers [OF keeps_remembers [OF leases_calm(1)] v]], rule fail)
      fix x assume x: "remembers w x"
      let ?j = "j\<lparr>jn_State := ''releasing'', jn_Retained := bq_RetainChild rq\<rparr>"
      show "wp (attempt (nv_Release n h (\<not> bq_RetainChild rq))
         (\<lambda>e. quarantine_lease (bk_store w) ?j (ret (broker_fail rq ''child-release-failed'' ''release'' (jn_ChildPath ?j) (Some e))))
         (\<lambda>metrics. release_records rq (bk_config w) (bk_store w) (?j\<lparr>jn_State := ''released''\<rparr>) (do {
           modify (\<lambda>w. w\<lparr>bk_children := AList.delete (bq_LeaseID rq) (bk_children w)\<rparr>);
           info \<leftarrow> gets (nv_Info n h);
           (capacity, _) \<leftarrow> ensureCapacity n 0 False;
           ret ((broker_ok rq)\<lparr>bs_Lease := Some (info\<lparr>bl_State := ''released'', bl_Retained := bq_RetainChild rq\<rparr>),
             bs_Metrics := Some (metrics\<lparr>bm_Capacity := capacity\<rparr>)\<rparr>) }))) (\<lambda>r x. bs_OK r \<longrightarrow> ?P r x) x"
      proof (rule wp_attemptI [OF wp_remembers [OF keeps_remembers [OF native_calm(10)] x]], goal_cases)
        case (1 e y)
        show ?case unfolding quarantine_lease_def by (rule wp_ignoreI [OF wp_True]) (rule fail)
      next
        case (2 metrics y)
        show ?case
        proof (rule release_records_spec [OF u 2], goal_cases)
          case (4 z)
          have r: "released u (bq_RetainChild rq) j (w_fs z)" using 4(2) by simp
          show ?case
            by (rule wp_mono [OF release_end [OF u 4(1) r]]) (use j in simp)
        qed (use lease_at_Inr [OF j] in simp_all)
      qed
    qed
  qed
  then show ?thesis by (rule wp_mono) (use Some in auto)
qed

end

section \<open>Acquisition\<close>

text \<open>What resolving a key as valid has seen.\<close>

definition usable_parent :: "Paths \<Rightarrow> string \<Rightarrow> ParentMetadata \<Rightarrow> fsys \<Rightarrow> bool" where
  "usable_parent s k m f \<longleftrightarrow> (let d = Join [pt_Parents s, k] in
     compatibility k \<and> lookup f (comps d) \<noteq> None \<and>
     (\<exists>c. fs_read (comps (Join [d, ''COMPLETE''])) f = Inr c \<and> bytes c = completeContents) \<and>
     read_as dec_metadata (comps (Join [d, ''metadata.json''])) f = Inr m \<and>
     pm_SchemaVersion m = ParentSchemaVersion \<and> pm_Provider m = Provider \<and>
     ck_Digest (pm_CompatibilityKey m) = k \<and> pm_Immutable m \<and>
     Clean (pm_VHDXPath m) = Clean (Join [d, ''parent.vhdx'']) \<and>
     (\<exists>n. lookup f (comps (Join [d, ''parent.vhdx''])) = Some n \<and> is_regular n))"

lemma validateRegular_spec:
  "wp (validateRegular p) (\<lambda>r v. same w v \<and> (r = None \<longrightarrow>
     (\<exists>n. lookup (w_fs w) (comps p) = Some n \<and> is_regular n))) w"
  unfolding validateRegular_def
  by (rule wp_attemptI [OF os_read_specs(1)]) (auto simp: wp_simps fs_lstat_def split: option.splits)

lemma ResolveParent_sound:
  "wp (ResolveParent s key) (\<lambda>r v. same w v \<and>
     (\<forall>m. valid_metadata r = Some m \<longrightarrow> usable_parent s (ck_Digest key) m (w_fs w))) w"
proof (cases "ck_SchemaVersion key \<noteq> ParentSchemaVersion \<or> \<not> compatibility (ck_Digest key)")
  case True
  then show ?thesis by (auto simp: ResolveParent_def wp_simps valid_metadata_def)
next
  case False
  let ?Q = "\<lambda>r v. same w v \<and> (\<forall>m. valid_metadata r = Some m \<longrightarrow> usable_parent s (ck_Digest key) m (w_fs w))"
  have bad: "wp (ret (Inr \<lparr>res_Status = ''corrupt'', res_Path = p, res_Metadata = m, res_Reason = e\<rparr>)) ?Q v"
    if "same w v" for p m e v
    using that by (simp add: wp_ret valid_metadata_def)
  note [simp] = wp_ret valid_metadata_def
  have sf: "same w v \<Longrightarrow> w_fs v = w_fs w" for v by (simp add: same_def)
  show ?thesis
    unfolding ResolveParent_def Let_def if_not_P [OF False]
    apply (rule wp_attemptI [OF os_read_specs(1)], simp)
    apply (rule wp_checkI [OF validateRegular_spec], rule bad, blast intro: same_trans)
    apply (rule wp_attemptI [OF os_read_specs(4)], rule bad, blast intro: same_trans)
    apply (rule wp_ifI, rule bad, blast intro: same_trans)
    apply (rule wp_attemptI [OF store_readJSON_spec], rule bad, blast intro: same_trans)
    apply (rule wp_ifI, rule bad, blast intro: same_trans)
    apply (rule wp_checkI [OF validateRegular_spec], rule bad, blast intro: same_trans)
    subgoal using False
      by (auto simp: usable_parent_def Let_def same_def fs_lstat_def split: option.splits)
        (rule exI, rule conjI, erule sym, assumption)
    done
qed

text \<open>The journal of the requested lease, but for what the provider and the states add.\<close>

definition requested :: "BrokerConfig \<Rightarrow> Paths \<Rightarrow> BrokerRequest \<Rightarrow> LeaseJournal \<Rightarrow> bool" where
  "requested c s rq j \<longleftrightarrow> jn_RunID j = bq_RunID rq \<and> jn_UserSID j = bc_UserSID c \<and>
     (\<exists>key. bq_ParentKey rq = Some key \<and> jn_ParentKey j = ck_Digest key) \<and>
     jn_WorkspaceID j = bq_WorkspaceID rq \<and>
     workspaceMount c (bq_WorkspaceID rq) = Inr (jn_WorkspacePath j, jn_MountPath j) \<and>
     (is_identifier (jn_LeaseID j) \<longrightarrow> Paths_Child s (jn_LeaseID j) = Inr (jn_ChildPath j))"

definition lease_core :: "LeaseJournal \<Rightarrow> LeaseJournal" where
  "lease_core j = j\<lparr>jn_State := [], jn_PhysicalPath := [], jn_VolumeGUID := [],
     jn_FileIdentity := jn_FileIdentity zero_journal\<rparr>"

definition same_lease :: "LeaseJournal \<Rightarrow> LeaseJournal \<Rightarrow> bool" where
  "same_lease j j' \<longleftrightarrow> lease_core j' = lease_core j"

lemma core_fields:
  "jn_LeaseID (lease_core j) = jn_LeaseID j" "requested c s rq (lease_core j) \<longleftrightarrow> requested c s rq j"
  by (simp_all add: lease_core_def requested_def)

lemma same_leaseD:
  assumes "same_lease j j'"
  shows "jn_LeaseID j' = jn_LeaseID j" and "requested c s rq j \<Longrightarrow> requested c s rq j'"
  using assms core_fields unfolding same_lease_def by metis+

interpretation lease_kept: effect "\<lambda>w v. same_lease (bk_journal w) (bk_journal v)"
  by unfold_locales (simp_all add: same_lease_def)

lemma calm_journal: "calm w v \<Longrightarrow> bk_journal v = bk_journal w"
  by (cases w, cases v) (simp add: writes_def)

lemma keeps_journal: "achieves calm Q m \<Longrightarrow> achieves (\<lambda>w v. same_lease (bk_journal w) (bk_journal v)) Q m"
  by (erule achieves_rel_mono) (simp add: calm_journal same_lease_def)

text \<open>What a granted lease is: held, with its ready journal on disk.\<close>

definition lease_granted :: "cpath \<Rightarrow> BrokerRequest \<Rightarrow> broker \<Rightarrow> broker \<Rightarrow> bool" where
  "lease_granted u rq w v \<longleftrightarrow> (\<exists>j h t. requested (bk_config w) (bk_store w) rq j \<and>
     is_identifier (jn_LeaseID j) \<and> jn_State j = ''ready'' \<and>
     map_of (bk_children v) (jn_LeaseID j) = Some h \<and>
     stores (lease_file u (jn_LeaseID j)) (enc_lease (stamped t j)) (w_fs v))"

context measuring
begin

lemma native_lease_kept:
  "keeps (\<lambda>w v. same_lease (bk_journal w) (bk_journal v)) (nv_AcquireChild n m j acquire_transition)"
proof (rule native_acquire [OF lease_kept.effect_axioms], simp add: calm_journal same_lease_def)
  show "keeps (\<lambda>w v. same_lease (bk_journal w) (bk_journal v)) (acquire_transition a b c)" for a b c
    unfolding acquire_transition_def
    by (intro lease_kept.on_control keeps_journal [OF leases_calm(1)]) (simp_all add: same_lease_def lease_core_def)
qed

lemma acquire_end:
  assumes u: "well_placed (bk_store w) u" and v: "remembers w v"
    and j: "requested (bk_config w) (bk_store w) rq j" "is_identifier (jn_LeaseID j)" "jn_State j = ''ready''"
    and st: "stores (lease_file u (jn_LeaseID j)) (enc_lease (stamped t j)) (w_fs v)"
  shows "wp (do {
     modify (\<lambda>w. w\<lparr>bk_children := AList.update (jn_LeaseID j) h (bk_children w)\<rparr>);
     (capacity, _) \<leftarrow> ensureCapacity n 0 False;
     ret ((broker_ok rq)\<lparr>bs_Parent := Some m, bs_Lease := Some info,
       bs_Metrics := Some (metrics\<lparr>bm_Capacity := capacity\<rparr>)\<rparr>) })
    (\<lambda>r x. bs_Parent r = Some m \<and> lease_granted u rq w x) v"
proof -
  let ?v = "v\<lparr>bk_children := AList.update (jn_LeaseID j) h (bk_children v)\<rparr>"
  have s: "bk_store ?v = bk_store w" using v by (simp add: remembers_def)
  have "wp (ensureCapacity n 0 False) (\<lambda>_ x. writes (collectable u (used_keys n ?v)) ?v x) ?v"
    unfolding ensureCapacity_def by (rule wp_mono [OF ensure_spec]) (use u s in \<open>auto split: prod.splits\<close>)
  then have "wp (ensureCapacity n 0 False) (\<lambda>_ x. lease_granted u rq w x) ?v"
  proof (rule wp_mono)
    fix c x
    assume x: "writes (collectable u (used_keys n ?v)) ?v x"
    then have "map_of (bk_children x) (jn_LeaseID j) = Some h"
      using calm_remembers [OF writes_mono [OF x]] by (simp add: remembers_def update_conv')
    moreover have "stores (lease_file u (jn_LeaseID j)) (enc_lease (stamped t j)) (w_fs x)"
    proof -
      have "lease_file u (jn_LeaseID j) \<notin> collectable u (used_keys n ?v)"
        by (auto simp: lease_file_def collectable_def)
      then show ?thesis using st holds_file_frame [OF x] by auto
    qed
    ultimately show "lease_granted u rq w x" using j unfolding lease_granted_def by blast
  qed
  then show ?thesis
    unfolding wp_bind wp_modify by (rule wp_mono) (auto simp: wp_ret split: prod.splits)
qed

end

context measuring
begin

lemma acquire_child_spec:
  assumes u: "well_placed (bk_store w) u" and v: "remembers w v"
    and j: "requested (bk_config w) (bk_store w) rq j" "is_identifier (jn_LeaseID j)"
  shows "wp (acquire_child n rq c (bk_store w) m j)
     (\<lambda>r x. bs_OK r \<longrightarrow> bs_Parent r = Some m \<and> lease_granted u rq w x) v"
proof -
  let ?Q = "\<lambda>r x. bs_OK r \<longrightarrow> bs_Parent r = Some m \<and> lease_granted u rq w x"
  have fail: "wp (ret (broker_fail rq a b c' e)) ?Q x" for a b c' e x
    by (simp add: wp_ret)
  let ?v = "v\<lparr>bk_journal := j\<rparr>"
  have "remembers w ?v" using v by (simp add: remembers_def)
  then have call: "wp (nv_AcquireChild n m j acquire_transition)
      (\<lambda>_ x. remembers w x \<and> same_lease j (bk_journal x)) ?v"
    by (rule wp_mono [OF wp_conj [OF wp_remembers [OF acquire_native_remembers]
        achieves_wp [OF native_lease_kept]]]) auto
  show ?thesis
    unfolding acquire_child_def Let_def wp_bind wp_modify
  proof (rule wp_mono [OF call], goal_cases)
    case (1 r x)
    let ?j = "bk_journal x"
    have x: "remembers w x" and j': "requested (bk_config w) (bk_store w) rq ?j" "is_identifier (jn_LeaseID ?j)"
      using 1 j same_leaseD by auto
    show ?case
    proof (cases r)
      case (Inl e)
      show ?thesis
        unfolding Inl sum.case wp_gets quarantine_lease_def
        by (rule wp_skip(1), rule wp_ifI) (rule wp_ignoreI [OF wp_True] fail)+
    next
      case (Inr p)
      obtain h metrics where p: "p = (h, metrics)" by (cases p)
      show ?thesis
        unfolding Inr p sum.case prod.case wp_gets wp_bind
      proof (rule wp_checkI [OF wp_conj [OF Store_WriteLease_success [OF u]
            wp_remembers [OF keeps_remembers [OF leases_calm(1)] x]]], goal_cases)
        case (1 e y)
        show ?case by (intro wp_skip(1) fail)
      next
        case (2 y)
        let ?r = "?j\<lparr>jn_State := ''ready'', jn_FileIdentity := nv_FileIdentity n h x,
          jn_PhysicalPath := bl_PhysicalPath (nv_Info n h x), jn_VolumeGUID := bl_VolumeGUID (nv_Info n h x)\<rparr>"
        have r: "requested (bk_config w) (bk_store w) rq ?r" "is_identifier (jn_LeaseID ?r)" "jn_State ?r = ''ready''"
          using j' by (simp_all add: requested_def)
        from 2 obtain t where y: "remembers w y"
          and st: "stores (lease_file u (jn_LeaseID ?r)) (enc_lease (stamped t ?r)) (w_fs y)"
          unfolding lease_path(2) [OF u r(2)] lease_file_def by blast
        show ?case
          by (rule wp_mono [OF acquire_end [OF u y r st]]) simp
      qed
    qed
  qed
qed

end

context measuring
begin

text \<open>A successful acquisition: a usable parent, and a lease that is held and recorded.\<close>

lemma broker_acquire_spec:
  assumes u: "well_placed (bk_store w) u"
  shows "wp (broker_acquire n rq) (\<lambda>r v. bs_OK r \<longrightarrow> (\<exists>key m. bq_ParentKey rq = Some key \<and>
     usable_parent (bk_store w) (ck_Digest key) m (w_fs w) \<and> bs_Parent r = Some m \<and>
     lease_granted u rq w v)) w"
proof (cases "if is_identifier (bq_RunID rq) then bq_ParentKey rq else None")
  case None
  then show ?thesis by (simp add: broker_acquire_def wp_simps)
next
  case (Some key)
  then have key: "bq_ParentKey rq = Some key" by (simp split: if_splits)
  let ?P = "\<lambda>r v. \<exists>m. usable_parent (bk_store w) (ck_Digest key) m (w_fs w) \<and> bs_Parent r = Some m \<and>
     lease_granted u rq w v"
  have fail: "wp (ret (broker_fail rq a b c' e)) (\<lambda>r x. bs_OK r \<longrightarrow> ?P r x) x" for a b c' e x
    by (simp add: wp_ret)
  have step: "keeps calm m \<Longrightarrow> remembers w v \<Longrightarrow> wp m (\<lambda>_ x. remembers w x) v" for m :: "'b bop" and v
    by (rule wp_remembers [OF keeps_remembers])
  have still: "keeps same m \<Longrightarrow> remembers w v \<Longrightarrow> wp m (\<lambda>_ x. remembers w x) v" for m :: "'b bop" and v
    by (rule wp_remembers [OF keeps_remembers [OF keeps_same_writes]])
  have "wp (broker_acquire n rq) (\<lambda>r x. bs_OK r \<longrightarrow> ?P r x) w"
    unfolding broker_acquire_def Let_def wp_bind wp_gets Some option.case
  proof (rule wp_mono [OF ResolveParent_sound], goal_cases)
    case (1 resolved v)
    then have v: "remembers w v" using calm_remembers [OF writes_same] by blast
    show ?case
    proof (cases "valid_metadata resolved")
      case (Some m)
      with 1 have m: "usable_parent (bk_store w) (ck_Digest key) m (w_fs w)" by blast
      show ?thesis
        unfolding Some option.case
        apply (rule wp_checkI [OF step [OF native_calm(3) v]], rule fail)
        apply (rule wp_ignoreI [OF step [OF parents_calm(4)]], assumption)
        apply (rule wp_bindI [OF step [OF ensureCapacity_calm(1)]], assumption, rule wp_prodI)
        apply (rule wp_checkI [where P = "\<lambda>_ x. remembers w x"], simp add: wp_ret, rule fail)
        apply (rule wp_attemptI [OF still [OF records_same(8)]], assumption, rule fail)
        apply (rule wp_case_sum, rule fail, rule wp_case_prod)
        apply (rule wp_checkI [OF still [OF workspaces_same(2)]], assumption, rule fail)
        apply (rule wp_bindI [OF still [OF records_same(8)]], assumption)
        apply (rule wp_bindI [OF still [OF reads_same(7)]], assumption)
        apply (rule wp_bindI [OF still [OF reads_same(7)]], assumption)
        apply (rule wp_checkI [OF wp_conj [OF Store_WriteLease_success [OF u] step [OF leases_calm(1)]]],
            assumption, rule fail, elim conjE)
        apply (rule wp_checkI [OF step [OF workspaces_calm(1)]], assumption, rule wp_ignoreI [OF wp_True], rule fail)
        apply (rule wp_mono [OF acquire_child_spec [OF u]], assumption)
        subgoal using key by (auto simp: requested_def acquire_journal_def Paths_Child_def split: if_splits)
        subgoal by simp
        subgoal using m by blast
        done
    qed (simp add: fail)
  qed
  then show ?thesis by (rule wp_mono) (use key in auto)
qed

end

section \<open>Recovery\<close>

text \<open>What \<open>Recover\<close> does with a lease: it is preserved as it is, released with its records, or
  quarantined; a retained lease is preserved.\<close>

definition recovered :: "cpath \<Rightarrow> LeaseJournal \<Rightarrow> RecoverySummary \<Rightarrow> RecoverySummary \<Rightarrow> broker \<Rightarrow> broker \<Rightarrow> bool" where
  "recovered u j t t' w v \<longleftrightarrow>
     t' = summary_add 0 1 0 t \<and> same w v \<or>
     t' = summary_add 1 0 0 t \<and> \<not> jn_Retained j \<and> lookup (w_fs v) (lease_file u (jn_LeaseID j)) = None \<and>
       (no_workspace j \<or> lookup (w_fs v) (comps (jn_WorkspacePath j)) = None) \<or>
     t' = summary_add 0 0 1 t \<and> \<not> jn_Retained j"

context measuring
begin

lemma lease_live_same: "keeps same (lease_live n grace j)"
  unfolding lease_live_def or_else_def by (intro eff_intros measure_same TrueI)

lemma recover_end:
  assumes u: "well_placed (bk_store w) u" and v: "remembers w v" and j: "\<not> jn_Retained j"
    and k: "\<And>x. wp k (\<lambda>r y. w_fs y = w_fs x \<and> r = Inr (summary_add 1 0 0 t)) x"
    and g: "jn_LeaseID g = jn_LeaseID j" "jn_WorkspaceID g = jn_WorkspaceID j" "jn_WorkspacePath g = jn_WorkspacePath j"
  shows "wp (check (cleanupOwnedWorkspace c g) (\<lambda>e. recover_quarantine (bk_store w) t (q e))
       (recover_removed (bk_store w) t g k))
     (\<lambda>r x. \<forall>t'. r = Inr t' \<longrightarrow> recovered u j t t' w x) v"
proof (rule wp_checkI [OF wp_conj [OF cleanup_spec wp_remembers [OF keeps_remembers [OF workspaces_calm(3)] v]]],
    goal_cases)
  case (1 e x)
  then show ?case
    unfolding recover_quarantine_def quarantine_lease_def
    by (intro wp_ignoreI [OF wp_True]) (use j in \<open>simp add: wp_ret recovered_def\<close>)
next
  case (2 x)
  then have gone: "no_workspace j \<or> lookup (w_fs x) (comps (jn_WorkspacePath j)) = None"
    by (simp add: g)
  show ?case
    unfolding recover_removed_def
  proof (rule wp_checkI [OF RemoveLease_removes], simp add: wp_ret, rule wp_mono [OF k], clarify)
    fix y z :: broker
    assume y: "shrinks x y" "None = None \<longrightarrow> is_identifier (jn_LeaseID g) \<and>
        lookup (w_fs y) (comps (Join [pt_Leases (bk_store w), jn_LeaseID g @ ''.json''])) = None"
      and z: "w_fs z = w_fs y"
    then have "is_identifier (jn_LeaseID j)" by (simp add: g)
    from y lease_path(2) [OF u this] gone z j show "recovered u j t (summary_add 1 0 0 t) w z"
      by (auto simp: recovered_def lease_file_def g shrinks_def)
  qed
qed

lemma recover_lease_spec:
  assumes u: "well_placed (bk_store w) u"
  shows "wp (recover_lease n txt grace t j) (\<lambda>r v. \<forall>t'. r = Inr t' \<longrightarrow> recovered u j t t' w v) w"
proof (cases "jn_Retained j")
  case False
  let ?Q = "\<lambda>r v. \<forall>t'. r = Inr t' \<longrightarrow> recovered u j t t' w v"
  have q: "wp (recover_quarantine s t g) ?Q v" for s g v
    unfolding recover_quarantine_def quarantine_lease_def
    by (intro wp_ignoreI [OF wp_True]) (use False in \<open>simp add: wp_ret recovered_def\<close>)
  have rs: "same w v \<Longrightarrow> remembers w v" for v by (rule calm_remembers [OF writes_same])
  have still: "keeps same m \<Longrightarrow> remembers w v \<Longrightarrow> wp m (\<lambda>_ x. remembers w x) v" for m :: "'b bop" and v
    by (rule wp_remembers [OF keeps_remembers [OF keeps_same_writes]])
  have step: "keeps calm m \<Longrightarrow> remembers w v \<Longrightarrow> wp m (\<lambda>_ x. remembers w x) v" for m :: "'b bop" and v
    by (rule wp_remembers [OF keeps_remembers])
  have fin: "wp (attempt (nv_Release n h True)
       (\<lambda>e. recover_quarantine (bk_store w) t (g\<lparr>jn_RecoveryError := txt e\<rparr>)) (\<lambda>_.
     check (cleanupOwnedWorkspace (bk_config w) g)
       (\<lambda>e. recover_quarantine (bk_store w) t (g\<lparr>jn_RecoveryError := txt e\<rparr>)) (
     recover_removed (bk_store w) t g (do {
     modify (\<lambda>w. w\<lparr>bk_children := AList.delete (jn_LeaseID g) (bk_children w)\<rparr>);
     ret (Inr (summary_add 1 0 0 t)) })))) ?Q x"
    if "remembers w x" "jn_LeaseID g = jn_LeaseID j" "jn_WorkspaceID g = jn_WorkspaceID j"
      "jn_WorkspacePath g = jn_WorkspacePath j" for g h x
    by (rule wp_attemptI [OF step [OF native_calm(10) that(1)]], rule q, rule recover_end [OF u _ False])
      (use that in \<open>simp_all add: wp_simps\<close>)
  show ?thesis
    unfolding recover_lease_def if_not_P [OF False] wp_bind wp_gets
    apply (rule wp_mono [OF wp_stillI [OF lease_live_same same_refl]])
    apply (rule wp_ifI, simp add: wp_ret recovered_def, frule rs)
    apply (rule wp_bindI [OF still [OF reads_same(1)]], assumption)
    apply (rule wp_ifI, rule recover_end [OF u _ False], assumption, simp add: wp_ret, rule refl, rule refl, rule refl)
    apply (rule wp_bindI [OF still [OF reads_still(3)]], assumption)
    apply (rule wp_case_option, rule q)
    apply (rule wp_checkI [OF step [OF native_calm(3)]], assumption, rule q)
    apply (unfold recover_session_def Let_def wp_bind wp_gets, rule wp_case_option)
     apply (rule wp_bindI [OF still [OF reads_same(7)]], assumption)
     apply (rule wp_checkI [OF step [OF leases_calm(1)]], assumption, simp add: wp_ret)
     apply (rule wp_attemptI [OF step [OF native_calm(4)]], assumption, rule q)
     apply (rule wp_case_prod, rule fin, assumption, simp_all)
    apply (rule fin, assumption, simp_all)
    done
qed (simp add: recover_lease_def wp_ret recovered_def)

end

text \<open>The whole recovery: every lease is counted once.\<close>

definition counted :: "RecoverySummary \<Rightarrow> int" where
  "counted t = sm_Released t + sm_Preserved t + sm_Quarantined t"

lemma counted_add [simp]: "counted (summary_add a b c t) = counted t + a + b + c"
  by (simp add: counted_def summary_add_def)

context measuring
begin

lemma recover_lease_serving: "keeps serving (recover_lease n txt grace t j)"
  unfolding recover_lease_def lease_live_def or_else_def recover_session_def recover_removed_def
    recover_quarantine_def Let_def
  by (intro serving_intros quarantine_serving modify_serving; simp add: serving_def)

lemma recover_leases_count:
  assumes "well_placed (bk_store w) u"
  shows "wp (recover_leases n txt grace t js) (\<lambda>(t', e) _. e = None \<longrightarrow> counted t' = counted t + int (length js)) w"
  using assms
proof (induction js arbitrary: t w)
  case (Cons j js)
  show ?case
    unfolding recover_leases.simps
  proof (rule wp_bindI [OF wp_conj [OF recover_lease_spec [OF Cons.prems] achieves_wp [OF recover_lease_serving]]])
    fix r :: recovery and v :: broker
    assume r: "(\<forall>t'. r = Inr t' \<longrightarrow> recovered u j t t' w v) \<and> serving w v \<and> True"
    then have v: "well_placed (bk_store v) u" using Cons.prems by (simp add: serving_def)
    show "wp (case r of Inl (t, e) \<Rightarrow> ret (t, Some e) | Inr t \<Rightarrow> recover_leases n txt grace t js)
       (\<lambda>(t', e) _. e = None \<longrightarrow> counted t' = counted t + int (length (j # js))) v"
    proof (cases r)
      case (Inr t')
      with r have "counted t' = counted t + 1" by (auto simp: recovered_def)
      with Inr show ?thesis by (auto intro: wp_mono [OF Cons.IH [OF v]])
    qed (auto simp: wp_ret split: prod.splits)
  qed
qed (simp add: wp_ret)

end

section \<open>The owner file\<close>

lemma samePath_refl [simp]: "samePath p p"
  by (simp add: samePath_def EqualFold_def)

text \<open>The owner file that was written is recognised: the read may only fail.\<close>

definition owner_of :: "LeaseJournal \<Rightarrow> string \<Rightarrow> string \<Rightarrow> WorkspaceOwner" where
  "owner_of j workspace mount = \<lparr>ow_SchemaVersion = WorkspaceOwnerSchemaVersion, ow_Provider = Provider,
     ow_LeaseID = jn_LeaseID j, ow_RunID = jn_RunID j, ow_WorkspaceID = jn_WorkspaceID j,
     ow_WorkspacePath = workspace, ow_MountPath = mount, ow_OwnershipToken = jn_OwnershipToken j,
     ow_CreatedAt = jn_CreatedAt j\<rparr>"

lemma owner_of_matches: "owner_matches (owner_of j workspace mount) j workspace mount"
  by (simp add: owner_matches_def owner_of_def)

lemma dec_owner_of:
  "dec_broker_owner (enc_broker_owner (owner_of j workspace mount)) = Some (owner_of j workspace mount)"
  by (rule dec_enc_broker_owner) (simp add: owner_of_def WorkspaceOwnerSchemaVersion_def go_int_def)

lemma writeWorkspaceOwner_owned:
  "wp (writeWorkspaceOwner c j) (\<lambda>r v. r = None \<longrightarrow> owned c j (w_fs v)) w"
proof (cases "workspaceMount c (jn_WorkspaceID j)")
  case (Inr p)
  obtain workspace mount where p: "p = (workspace, mount)" by (cases p)
  let ?m = "Join [workspace, broker_workspaceOwnerFile]"
  have "wp (store_writeJSONExclusive ?m (enc_broker_owner (owner_of j workspace mount)))
      (\<lambda>r v. r = None \<longrightarrow> owned c j (w_fs v)) v"
    if "samePath workspace (jn_WorkspacePath j)" "samePath mount (jn_MountPath j)" for v :: "'z world_scheme"
    unfolding store_writeJSONExclusive_def env_get_def wp_bind wp_gets
    by (rule wp_mono [OF WriteExclusiveDurable_success])
      (use that Inr p read_as_written [where dec = dec_broker_owner, OF _ dec_owner_of] owner_of_matches in \<open>auto simp: owned_def\<close>)
  then show ?thesis
    unfolding writeWorkspaceOwner_def Inr p sum.case prod.case owner_of_def [symmetric]
    by (intro wp_ifI) (auto simp: wp_ret intro!: wp_skip(2))
qed (simp add: writeWorkspaceOwner_def wp_ret)

lemma real_directories_spec:
  "wp (real_directories k ps) (\<lambda>r v. same w v \<and> (r = None \<longrightarrow>
     (\<forall>p \<in> set ps. \<exists>n. lookup (w_fs w) (comps p) = Some n \<and> is_dir n \<and> \<not> is_link n))) w"
proof (induction ps arbitrary: w)
  case (Cons p ps)
  show ?case
    unfolding real_directories.simps
  proof (rule wp_attemptI [OF os_read_specs(1)], simp add: wp_ret, goal_cases)
    case (1 n v)
    then have v: "same w v" "lookup (w_fs w) (comps p) = Some n"
      by (auto simp: fs_lstat_def split: option.splits)
    show ?case
      by (rule wp_ifI, simp add: wp_ret v, rule wp_mono [OF Cons])
        (use v in \<open>auto simp: same_def\<close>)
  qed
qed (simp add: wp_ret)

lemma validateWorkspaceMount_spec:
  "wp (validateWorkspaceMount c i m) (\<lambda>r v. same w v \<and> (\<forall>workspace mount. r = None \<longrightarrow>
     workspaceMount c i = Inr (workspace, mount) \<longrightarrow>
     (\<forall>p \<in> {bc_WorkspaceRoot c, workspace}. \<exists>n. lookup (w_fs w) (comps p) = Some n \<and> is_dir n \<and> \<not> is_link n))) w"
proof (cases "workspaceMount c i")
  case (Inr p)
  obtain ws mt where p: "p = (ws, mt)" by (cases p)
  show ?thesis
    unfolding validateWorkspaceMount_def Inr p sum.case prod.case
    apply (rule wp_ifI, simp add: wp_ret)
    apply (rule wp_checkI [OF real_directories_spec], simp add: wp_ret)
    apply (rule wp_attemptI [OF os_read_specs(1)]; auto simp: wp_ret intro: same_trans)
    done
qed (simp add: validateWorkspaceMount_def wp_ret)

text \<open>
  Where no call fails, a lease whose owner file was written can be cleaned up later: the file is
  recognised.
\<close>

lemma owner_round_trip:
  assumes root: "IsAbs (bc_WorkspaceRoot c)" and j: "\<not> no_workspace j" and ok: "\<forall>t. \<not> e_fault (w_env w) t"
  shows "wp (do { a \<leftarrow> writeWorkspaceOwner c j; b \<leftarrow> readWorkspaceOwner c j; ret (a, b) })
     (\<lambda>(a, b) _. a = None \<longrightarrow>
        b = Inr (Join [Join [bc_WorkspaceRoot c, jn_WorkspaceID j], broker_workspaceOwnerFile])) w"
proof (cases "workspaceMount c (jn_WorkspaceID j)")
  case (Inr p)
  obtain workspace mount where p: "p = (workspace, mount)" by (cases p)
  note ws = workspaceMount_Inr [OF Inr [unfolded p]] and wc = workspaceMount_comps [OF Inr [unfolded p] root]
  let ?m = "Join [workspace, broker_workspaceOwnerFile]"
  let ?dirs = "\<lambda>f. \<forall>p \<in> {bc_WorkspaceRoot c, workspace}. \<exists>n. lookup f (comps p) = Some n \<and> is_dir n \<and> \<not> is_link n"
  have m: "comps ?m = comps (bc_WorkspaceRoot c) @ [jn_WorkspaceID j, broker_workspaceOwnerFile]"
    using ws root wc by (simp add: comps_Join IsAbs_Join broker_workspaceOwnerFile_def proper_def)
  let ?ready = "\<lambda>v. w_env v = w_env w \<and> ?dirs (w_fs v) \<and>
    samePath workspace (jn_WorkspacePath j) \<and> samePath mount (jn_MountPath j) \<and>
    (\<exists>n. lookup (w_fs v) (comps ?m) = Some n \<and> is_regular n \<and> \<not> is_link n) \<and>
    read_as dec_broker_owner (comps ?m) (w_fs v) = Inr (owner_of j workspace mount)"
  have "wp (store_writeJSONExclusive ?m (enc_broker_owner (owner_of j workspace mount)))
      (\<lambda>a v. a = None \<longrightarrow> ?ready v) v"
    if v: "same w v" "?dirs (w_fs w)" "samePath workspace (jn_WorkspacePath j)" "samePath mount (jn_MountPath j)"
    for v :: "'a world_scheme"
    unfolding store_writeJSONExclusive_def env_get_def wp_bind wp_gets
  proof (rule wp_mono [OF wp_conj [OF WriteExclusiveDurable_success
        achieves_wp [OF WriteExclusiveDurable_frame [OF singletonI]]]], intro impI, goal_cases)
    case (1 r x)
    then have h: "holds_file (comps ?m) (json_content (w_env v) True (enc_broker_owner (owner_of j workspace mount))) 384 (w_fs x)"
      and x: "writes {comps ?m} v x" by simp_all
    have "?dirs (w_fs x)"
      using v(1,2) writes_lookup [OF x] m wc by (auto simp: same_def)
    moreover have "\<exists>n. lookup (w_fs x) (comps ?m) = Some n \<and> is_regular n \<and> \<not> is_link n"
      using h by (auto simp: holds_file_def is_regular_def is_link_def)
    moreover have "w_env x = w_env w" using x v(1) by (simp add: writes_def same_def)
    ultimately show ?case
      using v(3,4) read_as_written [where dec = dec_broker_owner, OF h dec_owner_of] by simp
  qed
  then have "wp (writeWorkspaceOwner c j) (\<lambda>a v. a = None \<longrightarrow> ?ready v) w"
    unfolding writeWorkspaceOwner_def Inr p sum.case prod.case owner_of_def [symmetric]
    by (intro wp_ifI wp_checkI [OF validateWorkspaceMount_spec])
      (use Inr p in \<open>auto simp: wp_ret\<close>)
  then show ?thesis
    unfolding wp_bind
  proof (rule wp_mono, goal_cases)
    case (1 a v)
    show ?case
    proof (cases a)
      case None
      with 1 have v: "?ready v" by blast
      then have nf: "\<not> e_fault (w_env v) t" for t using ok by simp
      from v obtain x n d d' where look: "lookup (w_fs v) (comps (bc_WorkspaceRoot c)) = Some d" "is_dir d" "\<not> is_link d"
        "lookup (w_fs v) (comps workspace) = Some d'" "is_dir d'" "\<not> is_link d'"
        "lookup (w_fs v) (comps ?m) = Some n" "is_regular n" "\<not> is_link n"
        and x: "fs_read (comps ?m) (w_fs v) = Inr x" "decode_first dec_broker_owner (stream x) = Inr (owner_of j workspace mount)"
        by (auto simp: read_as_def split: sum.splits)
      have "wp (readWorkspaceOwner c j) (\<lambda>b _. b = Inr ?m) v"
        using v j nf look x Inr p owner_of_matches [of j workspace mount]
        by (simp add: readWorkspaceOwner_def Let_def wp_simps os_Lstat_def os_ReadFile_def validateRegular_def
            store_readJSON_def fs_lstat_def)
      then show ?thesis by (rule wp_mono) (use ws in \<open>simp add: wp_ret\<close>)
    qed (rule wp_mono [OF wp_True], simp add: wp_ret)
  qed
qed (simp add: writeWorkspaceOwner_def wp_simps)

end
