(* ===== verification/Contract_V2.thy ===== *)
theory Contract_V2
  imports Json
begin

text \<open>
  The provider-neutral storage contract, \<open>contract/v2/types.go\<close>: the request and response
  types of the daemon and the client-side \<open>Service\<close>. The transport (\<open>Client\<close>) is a parameter.
  Messages are kept as the errors they print.
\<close>

record Error =
  er_Code :: string
  er_Operation :: string
  er_Message :: "err option"

record Limits =
  lm_StoreMaxAllocatedBytes :: i64
  lm_MinimumHostFreeBytes :: i64

record Parent =
  pa_ParentID :: string
  pa_Compatibility :: string
  pa_Provider :: string
  pa_ArtifactKind :: string
  pa_ContentDigest :: string
  pa_LogicalBytes :: i64
  pa_AllocatedBytes :: i64
  pa_Immutable :: bool
  pa_CreatedAt :: int

record Lease =
  le_LeaseID :: string
  le_ConsumerID :: string
  le_WorkspaceID :: string
  le_ParentID :: string
  le_WorkspacePath :: string
  le_MountPath :: string
  le_State :: string
  le_CreatedAt :: int

record WorkspaceMetrics =
  wm_AcquireWallClockMs :: i64
  wm_ReleaseWallClockMs :: i64
  wm_ChildCreateMs :: i64
  wm_ChildReadyLogicalBytes :: i64
  wm_ChildReadyAllocatedBytes :: i64
  wm_CleanupMs :: i64

record Capability =
  ca_Platform :: string
  ca_Provider :: string
  ca_ArtifactKind :: string
  ca_CoWAvailable :: bool
  ca_RequiresElevation :: bool
  ca_Transport :: string
  ca_Error :: "err option"

record Status =
  st_Capability :: Capability
  st_ParentCount :: int
  st_ActiveLeaseCount :: int
  st_QuarantineCount :: int
  st_AllocatedBytes :: i64
  st_QuotaBytes :: i64
  st_HostFreeBytes :: i64
  st_HostFloorBytes :: i64
  st_ManualRecoveryRequired :: bool

record Request =
  q_SchemaVersion :: int
  q_Operation :: string
  q_RequestID :: string
  q_CompatibilityKey :: string
  q_TransactionID :: string
  q_ConsumerID :: string
  q_WorkspaceID :: string
  q_ParentID :: string
  q_LeaseID :: string
  q_ClientPID :: int
  q_Limits :: Limits

record Response =
  rs_SchemaVersion :: int
  rs_RequestID :: string
  rs_OK :: bool
  rs_Provider :: string
  rs_TransactionID :: string
  rs_StagingPath :: string
  rs_Parent :: "Parent option"
  rs_Lease :: "Lease option"
  rs_Metrics :: "WorkspaceMetrics option"
  rs_Status :: "Status option"
  rs_Error :: "Error option"

definition SchemaVersion :: int where
  "SchemaVersion = 2"

definition OperationParentBegin :: string where
  "OperationParentBegin = ''parent-begin''"

definition OperationParentCommit :: string where
  "OperationParentCommit = ''parent-commit''"

definition OperationParentAbort :: string where
  "OperationParentAbort = ''parent-abort''"

definition OperationAcquire :: string where
  "OperationAcquire = ''workspace-acquire''"

definition OperationStatus :: string where
  "OperationStatus = ''workspace-status''"

definition OperationRelease :: string where
  "OperationRelease = ''workspace-release''"

lemmas operation_defs = OperationParentBegin_def OperationParentCommit_def
  OperationParentAbort_def OperationAcquire_def OperationStatus_def OperationRelease_def

definition no_limits :: Limits where
  "no_limits = \<lparr>lm_StoreMaxAllocatedBytes = 0, lm_MinimumHostFreeBytes = 0\<rparr>"

definition zero_request :: Request where
  "zero_request = \<lparr>q_SchemaVersion = 0, q_Operation = '''', q_RequestID = '''',
     q_CompatibilityKey = '''', q_TransactionID = '''', q_ConsumerID = '''', q_WorkspaceID = '''',
     q_ParentID = '''', q_LeaseID = '''', q_ClientPID = 0, q_Limits = no_limits\<rparr>"

definition zero_response :: Response where
  "zero_response = \<lparr>rs_SchemaVersion = 0, rs_RequestID = '''', rs_OK = False, rs_Provider = '''',
     rs_TransactionID = '''', rs_StagingPath = '''', rs_Parent = None, rs_Lease = None,
     rs_Metrics = None, rs_Status = None, rs_Error = None\<rparr>"

section \<open>The client side\<close>

text \<open>
  A missing request identity is made from the clock (\<open>now\<close>, in nanoseconds) and the process-wide
  counter (\<open>seq\<close>, already incremented).
\<close>

definition NewRequest :: "int \<Rightarrow> nat \<Rightarrow> string \<Rightarrow> string \<Rightarrow> Request" where
  "NewRequest now seq operation requestID =
     zero_request\<lparr>q_SchemaVersion := SchemaVersion, q_Operation := operation,
       q_RequestID := (if requestID = ''''
          then ''external-'' @ operation @ ''-'' @ dec_int now @ ''-'' @ dec_nat seq
          else requestID)\<rparr>"

type_synonym 'w Client = "Request \<Rightarrow> ('w, Response \<times> err option) state"

definition call :: "'w Client option \<Rightarrow> Request \<Rightarrow> ('w, Response \<times> err option) state" where
  "call client request = (case client of
       None \<Rightarrow> ret (zero_response, Some (Text ''workspace storage daemon unavailable''))
     | Some c \<Rightarrow> do {
         (response, e) \<leftarrow> c request;
         ret (case e of
             Some x \<Rightarrow> (response, Some x)
           | None \<Rightarrow>
               if \<not> rs_OK response then
                 (case rs_Error response of
                    Some x \<Rightarrow> (response, Some (RemoteError (er_Code x) (er_Operation x) (er_Message x)))
                  | None \<Rightarrow> (response, Some (Text ''workspace storage request failed'')))
               else (response, None)) })"

definition ParentBegin ::
  "'w Client option \<Rightarrow> int \<Rightarrow> nat \<Rightarrow> string \<Rightarrow> string \<Rightarrow> ('w, Response \<times> err option) state"
where
  "ParentBegin c now seq requestID compatibilityKey =
     call c ((NewRequest now seq OperationParentBegin requestID)
       \<lparr>q_CompatibilityKey := compatibilityKey\<rparr>)"

definition ParentCommit ::
  "'w Client option \<Rightarrow> int \<Rightarrow> nat \<Rightarrow> string \<Rightarrow> string \<Rightarrow> ('w, Response \<times> err option) state"
where
  "ParentCommit c now seq requestID transactionID =
     call c ((NewRequest now seq OperationParentCommit requestID)\<lparr>q_TransactionID := transactionID\<rparr>)"

definition ParentAbort ::
  "'w Client option \<Rightarrow> int \<Rightarrow> nat \<Rightarrow> string \<Rightarrow> string \<Rightarrow> ('w, Response \<times> err option) state"
where
  "ParentAbort c now seq requestID transactionID =
     call c ((NewRequest now seq OperationParentAbort requestID)\<lparr>q_TransactionID := transactionID\<rparr>)"

definition ServiceAcquire ::
  "'w Client option \<Rightarrow> int \<Rightarrow> nat \<Rightarrow> string \<Rightarrow> string \<Rightarrow> string \<Rightarrow> string \<Rightarrow> int \<Rightarrow> Limits \<Rightarrow>
   ('w, Response \<times> err option) state"
where
  "ServiceAcquire c now seq requestID consumerID workspaceID parentID clientPID limits =
     call c ((NewRequest now seq OperationAcquire requestID)
       \<lparr>q_ConsumerID := consumerID, q_WorkspaceID := workspaceID, q_ParentID := parentID,
        q_ClientPID := clientPID, q_Limits := limits\<rparr>)"

definition ServiceStatus ::
  "'w Client option \<Rightarrow> int \<Rightarrow> nat \<Rightarrow> string \<Rightarrow> ('w, Response \<times> err option) state"
where
  "ServiceStatus c now seq requestID = call c (NewRequest now seq OperationStatus requestID)"

definition ServiceRelease ::
  "'w Client option \<Rightarrow> int \<Rightarrow> nat \<Rightarrow> string \<Rightarrow> string \<Rightarrow> ('w, Response \<times> err option) state"
where
  "ServiceRelease c now seq requestID leaseID =
     call c ((NewRequest now seq OperationRelease requestID)\<lparr>q_LeaseID := leaseID\<rparr>)"

text \<open>The client reports success exactly when the transport and the daemon both do.\<close>

lemma call_success:
  "run_state (call (Some c) request) w = ((response, None), w') \<longleftrightarrow>
   run_state (c request) w = ((response, None), w') \<and> rs_OK response"
  by (auto simp: call_def split: prod.splits option.splits if_splits)

text \<open>A generated request identity is accepted by the daemon's identifier rule.\<close>

lemma NewRequest_identifier:
  assumes "requestID = ''''" and "operation \<in> set [OperationParentBegin, OperationParentCommit,
      OperationParentAbort, OperationAcquire, OperationStatus, OperationRelease]"
    and "length (dec_int now) + length (dec_nat seq) \<le> 100"
  shows "is_identifier (q_RequestID (NewRequest now seq operation requestID))"
proof -
  have "list_all ident_char (dec_nat seq)"
    using dec_nat_alnum [of seq] by (auto simp: list_all_iff ident_char_def)
  moreover have "list_all ident_char ''xternal-''" and "alnum (CHR ''e'')"
    by code_simp+
  moreover have "list_all ident_char operation \<and> length operation \<le> 17"
    using assms(2) unfolding operation_defs
    by (simp only: list.set insert_iff empty_iff) (elim disjE; simp only:; code_simp)
  ultimately show ?thesis
    using assms dec_int_ident [of now]
    by (simp add: NewRequest_def is_identifier_def ident_char_def)
qed

end
