(* ===== verification/Daemon_Records.thy ===== *)
theory Daemon_Records
  imports Contract_V2 Unix_Storage
begin

text \<open>
  The daemon's durable records (\<open>internal/workspaced/manager_unix.go\<close>) and their JSON form: the
  configuration, a parent's metadata, a pending transaction, a receipt, a lease journal with
  its recovery snapshot, and the owner file in a workspace. Every record reads back as it
  was written.
\<close>

section \<open>Records\<close>

record Config =
  cf_SchemaVersion :: int
  cf_StoreRoot :: string
  cf_WorkspaceRoot :: string
  cf_SocketPath :: string
  cf_QuotaBytes :: i64
  cf_HostFloorBytes :: i64
  cf_ChildReserveBytes :: i64

record parentRecord =
  pr_Parent :: Parent
  pr_DataPath :: string
  pr_Device :: "64 word"
  pr_Inode :: "64 word"

record pendingRecord =
  pd_TransactionID :: string
  pd_CompatibilityKey :: string
  pd_StagingPath :: string
  pd_CreatedAt :: int

record parentReceipt =
  rc_TransactionID :: string
  rc_ParentID :: string

record leaseJournal =
  lj_SchemaVersion :: int
  lj_Lease :: Lease
  lj_ChildPath :: string
  lj_ClientPID :: int
  lj_BootSessionID :: string
  lj_OwnerToken :: string
  lj_Snapshot :: "UnixLeaseSnapshot option"
  lj_UpdatedAt :: int

record workspaceOwner =
  wo_SchemaVersion :: int
  wo_LeaseID :: string
  wo_WorkspaceID :: string
  wo_WorkspacePath :: string
  wo_MountPath :: string
  wo_OwnerToken :: string

definition configSchema :: int where
  "configSchema = 1"

section \<open>Decoders\<close>

definition config_put :: "string \<Rightarrow> json \<Rightarrow> Config \<Rightarrow> Config option" where
  "config_put k =
     (if k = ''schemaVersion'' then set_int cf_SchemaVersion_update
      else if k = ''storeRoot'' then set_str cf_StoreRoot_update
      else if k = ''workspaceRoot'' then set_str cf_WorkspaceRoot_update
      else if k = ''socketPath'' then set_str cf_SocketPath_update
      else if k = ''quotaBytes'' then set_i64 cf_QuotaBytes_update
      else if k = ''hostFloorBytes'' then set_i64 cf_HostFloorBytes_update
      else set_i64 cf_ChildReserveBytes_update)"

definition dec_config :: "json \<Rightarrow> Config option" where
  "dec_config = dec_obj [''schemaVersion'', ''storeRoot'', ''workspaceRoot'', ''socketPath'',
       ''quotaBytes'', ''hostFloorBytes'', ''childReserveBytes''] config_put
     \<lparr>cf_SchemaVersion = 0, cf_StoreRoot = '''', cf_WorkspaceRoot = '''', cf_SocketPath = '''',
      cf_QuotaBytes = 0, cf_HostFloorBytes = 0, cf_ChildReserveBytes = 0\<rparr>"

definition zero_parent :: Parent where
  "zero_parent = \<lparr>pa_ParentID = '''', pa_Compatibility = '''', pa_Provider = '''',
     pa_ArtifactKind = '''', pa_ContentDigest = '''', pa_LogicalBytes = 0, pa_AllocatedBytes = 0,
     pa_Immutable = False, pa_CreatedAt = 0\<rparr>"

definition parent_put :: "string \<Rightarrow> json \<Rightarrow> parentRecord \<Rightarrow> parentRecord option" where
  "parent_put k =
     (if k = ''parentId'' then set_str (pr_Parent_update \<circ> pa_ParentID_update)
      else if k = ''compatibilityKey'' then set_str (pr_Parent_update \<circ> pa_Compatibility_update)
      else if k = ''provider'' then set_str (pr_Parent_update \<circ> pa_Provider_update)
      else if k = ''artifactKind'' then set_str (pr_Parent_update \<circ> pa_ArtifactKind_update)
      else if k = ''contentDigest'' then set_str (pr_Parent_update \<circ> pa_ContentDigest_update)
      else if k = ''logicalBytes'' then set_i64 (pr_Parent_update \<circ> pa_LogicalBytes_update)
      else if k = ''allocatedBytes'' then set_i64 (pr_Parent_update \<circ> pa_AllocatedBytes_update)
      else if k = ''immutable'' then set_bool (pr_Parent_update \<circ> pa_Immutable_update)
      else if k = ''createdAt'' then set_time (pr_Parent_update \<circ> pa_CreatedAt_update)
      else if k = ''dataPath'' then set_str pr_DataPath_update
      else if k = ''device'' then set_uint pr_Device_update
      else set_uint pr_Inode_update)"

definition dec_parent :: "json \<Rightarrow> parentRecord option" where
  "dec_parent = dec_obj [''parentId'', ''compatibilityKey'', ''provider'', ''artifactKind'',
       ''contentDigest'', ''logicalBytes'', ''allocatedBytes'', ''immutable'', ''createdAt'',
       ''dataPath'', ''device'', ''inode''] parent_put
     \<lparr>pr_Parent = zero_parent, pr_DataPath = '''', pr_Device = 0, pr_Inode = 0\<rparr>"

definition pending_put :: "string \<Rightarrow> json \<Rightarrow> pendingRecord \<Rightarrow> pendingRecord option" where
  "pending_put k =
     (if k = ''transactionId'' then set_str pd_TransactionID_update
      else if k = ''compatibilityKey'' then set_str pd_CompatibilityKey_update
      else if k = ''stagingPath'' then set_str pd_StagingPath_update
      else set_time pd_CreatedAt_update)"

definition dec_pending :: "json \<Rightarrow> pendingRecord option" where
  "dec_pending = dec_obj [''transactionId'', ''compatibilityKey'', ''stagingPath'', ''createdAt'']
     pending_put
     \<lparr>pd_TransactionID = '''', pd_CompatibilityKey = '''', pd_StagingPath = '''', pd_CreatedAt = 0\<rparr>"

definition receipt_put :: "string \<Rightarrow> json \<Rightarrow> parentReceipt \<Rightarrow> parentReceipt option" where
  "receipt_put k =
     (if k = ''transactionId'' then set_str rc_TransactionID_update else set_str rc_ParentID_update)"

definition dec_receipt :: "json \<Rightarrow> parentReceipt option" where
  "dec_receipt = dec_obj [''transactionId'', ''parentId''] receipt_put
     \<lparr>rc_TransactionID = '''', rc_ParentID = ''''\<rparr>"

definition snapshot_put :: "string \<Rightarrow> json \<Rightarrow> UnixLeaseSnapshot \<Rightarrow> UnixLeaseSnapshot option" where
  "snapshot_put k =
     (if k = ''storeRoot'' then set_str sn_StoreRoot_update
      else if k = ''parentPath'' then set_str sn_ParentPath_update
      else if k = ''childPath'' then set_str sn_ChildPath_update
      else if k = ''mountPath'' then set_str sn_MountPath_update
      else if k = ''leaseId'' then set_str sn_LeaseID_update
      else if k = ''ownerToken'' then set_str sn_OwnerToken_update
      else if k = ''device'' then set_uint sn_Device_update
      else if k = ''inode'' then set_uint sn_Inode_update
      else if k = ''mountExisted'' then set_bool sn_MountExisted_update
      else set_uint sn_MountMode_update)"

definition dec_snapshot :: "json \<Rightarrow> UnixLeaseSnapshot option" where
  "dec_snapshot = dec_obj [''storeRoot'', ''parentPath'', ''childPath'', ''mountPath'', ''leaseId'',
       ''ownerToken'', ''device'', ''inode'', ''mountExisted'', ''mountMode''] snapshot_put
     \<lparr>sn_StoreRoot = '''', sn_ParentPath = '''', sn_ChildPath = '''', sn_MountPath = '''',
      sn_LeaseID = '''', sn_OwnerToken = '''', sn_Device = 0, sn_Inode = 0,
      sn_MountExisted = False, sn_MountMode = 0\<rparr>"

definition zero_lease :: Lease where
  "zero_lease = \<lparr>le_LeaseID = '''', le_ConsumerID = '''', le_WorkspaceID = '''', le_ParentID = '''',
     le_WorkspacePath = '''', le_MountPath = '''', le_State = '''', le_CreatedAt = 0\<rparr>"

definition journal_put :: "string \<Rightarrow> json \<Rightarrow> leaseJournal \<Rightarrow> leaseJournal option" where
  "journal_put k =
     (if k = ''schemaVersion'' then set_int lj_SchemaVersion_update
      else if k = ''leaseId'' then set_str (lj_Lease_update \<circ> le_LeaseID_update)
      else if k = ''consumerId'' then set_str (lj_Lease_update \<circ> le_ConsumerID_update)
      else if k = ''workspaceId'' then set_str (lj_Lease_update \<circ> le_WorkspaceID_update)
      else if k = ''parentId'' then set_str (lj_Lease_update \<circ> le_ParentID_update)
      else if k = ''workspacePath'' then set_str (lj_Lease_update \<circ> le_WorkspacePath_update)
      else if k = ''mountPath'' then set_str (lj_Lease_update \<circ> le_MountPath_update)
      else if k = ''state'' then set_str (lj_Lease_update \<circ> le_State_update)
      else if k = ''createdAt'' then set_time (lj_Lease_update \<circ> le_CreatedAt_update)
      else if k = ''childPath'' then set_str lj_ChildPath_update
      else if k = ''clientPid'' then set_int lj_ClientPID_update
      else if k = ''bootSessionId'' then set_str lj_BootSessionID_update
      else if k = ''ownerToken'' then set_str lj_OwnerToken_update
      else if k = ''snapshot'' then set_ptr dec_snapshot lj_Snapshot_update
      else set_time lj_UpdatedAt_update)"

definition dec_journal :: "json \<Rightarrow> leaseJournal option" where
  "dec_journal = dec_obj [''schemaVersion'', ''leaseId'', ''consumerId'', ''workspaceId'',
       ''parentId'', ''workspacePath'', ''mountPath'', ''state'', ''createdAt'', ''childPath'',
       ''clientPid'', ''bootSessionId'', ''ownerToken'', ''snapshot'', ''updatedAt''] journal_put
     \<lparr>lj_SchemaVersion = 0, lj_Lease = zero_lease, lj_ChildPath = '''', lj_ClientPID = 0,
      lj_BootSessionID = '''', lj_OwnerToken = '''', lj_Snapshot = None, lj_UpdatedAt = 0\<rparr>"

definition owner_put :: "string \<Rightarrow> json \<Rightarrow> workspaceOwner \<Rightarrow> workspaceOwner option" where
  "owner_put k =
     (if k = ''schemaVersion'' then set_int wo_SchemaVersion_update
      else if k = ''leaseId'' then set_str wo_LeaseID_update
      else if k = ''workspaceId'' then set_str wo_WorkspaceID_update
      else if k = ''workspacePath'' then set_str wo_WorkspacePath_update
      else if k = ''mountPath'' then set_str wo_MountPath_update
      else set_str wo_OwnerToken_update)"

definition dec_owner :: "json \<Rightarrow> workspaceOwner option" where
  "dec_owner = dec_obj [''schemaVersion'', ''leaseId'', ''workspaceId'', ''workspacePath'',
       ''mountPath'', ''ownerToken''] owner_put
     \<lparr>wo_SchemaVersion = 0, wo_LeaseID = '''', wo_WorkspaceID = '''', wo_WorkspacePath = '''',
      wo_MountPath = '''', wo_OwnerToken = ''''\<rparr>"

section \<open>Encoders\<close>

definition enc_parent :: "parentRecord \<Rightarrow> json" where
  "enc_parent p = JObj
     [(''parentId'', JStr (pa_ParentID (pr_Parent p))),
      (''compatibilityKey'', JStr (pa_Compatibility (pr_Parent p))),
      (''provider'', JStr (pa_Provider (pr_Parent p))),
      (''artifactKind'', JStr (pa_ArtifactKind (pr_Parent p))),
      (''contentDigest'', JStr (pa_ContentDigest (pr_Parent p))),
      (''logicalBytes'', JI64 (pa_LogicalBytes (pr_Parent p))),
      (''allocatedBytes'', JI64 (pa_AllocatedBytes (pr_Parent p))),
      (''immutable'', JBool (pa_Immutable (pr_Parent p))),
      (''createdAt'', JTime (pa_CreatedAt (pr_Parent p))),
      (''dataPath'', JStr (pr_DataPath p)), (''device'', JUint (pr_Device p)),
      (''inode'', JUint (pr_Inode p))]"

definition enc_pending :: "pendingRecord \<Rightarrow> json" where
  "enc_pending p = JObj
     [(''transactionId'', JStr (pd_TransactionID p)),
      (''compatibilityKey'', JStr (pd_CompatibilityKey p)),
      (''stagingPath'', JStr (pd_StagingPath p)), (''createdAt'', JTime (pd_CreatedAt p))]"

definition enc_receipt :: "parentReceipt \<Rightarrow> json" where
  "enc_receipt r = JObj
     [(''transactionId'', JStr (rc_TransactionID r)), (''parentId'', JStr (rc_ParentID r))]"

definition enc_snapshot :: "UnixLeaseSnapshot \<Rightarrow> json" where
  "enc_snapshot s = JObj
     [(''storeRoot'', JStr (sn_StoreRoot s)), (''parentPath'', JStr (sn_ParentPath s)),
      (''childPath'', JStr (sn_ChildPath s)), (''mountPath'', JStr (sn_MountPath s)),
      (''leaseId'', JStr (sn_LeaseID s)), (''ownerToken'', JStr (sn_OwnerToken s)),
      (''device'', JUint (sn_Device s)), (''inode'', JUint (sn_Inode s)),
      (''mountExisted'', JBool (sn_MountExisted s)), (''mountMode'', JUint (sn_MountMode s))]"

text \<open>\<open>snapshot,omitempty\<close>: the field is left out when the pointer is nil.\<close>

definition enc_journal :: "leaseJournal \<Rightarrow> json" where
  "enc_journal j = JObj (
     [(''schemaVersion'', JNum (lj_SchemaVersion j)),
      (''leaseId'', JStr (le_LeaseID (lj_Lease j))),
      (''consumerId'', JStr (le_ConsumerID (lj_Lease j))),
      (''workspaceId'', JStr (le_WorkspaceID (lj_Lease j))),
      (''parentId'', JStr (le_ParentID (lj_Lease j))),
      (''workspacePath'', JStr (le_WorkspacePath (lj_Lease j))),
      (''mountPath'', JStr (le_MountPath (lj_Lease j))),
      (''state'', JStr (le_State (lj_Lease j))),
      (''createdAt'', JTime (le_CreatedAt (lj_Lease j))),
      (''childPath'', JStr (lj_ChildPath j)), (''clientPid'', JNum (lj_ClientPID j)),
      (''bootSessionId'', JStr (lj_BootSessionID j)), (''ownerToken'', JStr (lj_OwnerToken j))]
     @ (case lj_Snapshot j of None \<Rightarrow> [] | Some s \<Rightarrow> [(''snapshot'', enc_snapshot s)])
     @ [(''updatedAt'', JTime (lj_UpdatedAt j))])"

definition enc_owner :: "workspaceOwner \<Rightarrow> json" where
  "enc_owner w = JObj
     [(''schemaVersion'', JNum (wo_SchemaVersion w)), (''leaseId'', JStr (wo_LeaseID w)),
      (''workspaceId'', JStr (wo_WorkspaceID w)), (''workspacePath'', JStr (wo_WorkspacePath w)),
      (''mountPath'', JStr (wo_MountPath w)), (''ownerToken'', JStr (wo_OwnerToken w))]"

section \<open>Round trips\<close>

lemma dec_enc_pending: "dec_pending (enc_pending p) = Some p"
  by (cases p) (simp add: dec_pending_def enc_pending_def dec_obj_def pending_put_def codec_simps)

lemma dec_enc_receipt: "dec_receipt (enc_receipt r) = Some r"
  by (cases r) (simp add: dec_receipt_def enc_receipt_def dec_obj_def receipt_put_def codec_simps)

lemma dec_enc_snapshot: "dec_snapshot (enc_snapshot s) = Some s"
  by (cases s) (simp add: dec_snapshot_def enc_snapshot_def dec_obj_def snapshot_put_def codec_simps)

lemma dec_enc_owner:
  "- (2 ^ 63) \<le> wo_SchemaVersion w \<Longrightarrow> wo_SchemaVersion w < 2 ^ 63 \<Longrightarrow>
   dec_owner (enc_owner w) = Some w"
  by (cases w) (simp add: dec_owner_def enc_owner_def dec_obj_def owner_put_def codec_simps)

lemma dec_enc_parent: "dec_parent (enc_parent p) = Some p"
  by (cases p; cases "pr_Parent p")
    (simp add: dec_parent_def enc_parent_def dec_obj_def parent_put_def codec_simps zero_parent_def)

lemma set_ptr_snapshot [codec_simps]:
  "set_ptr dec_snapshot upd (enc_snapshot s) a = Some (upd (\<lambda>_. Some s) a)"
  using dec_enc_snapshot [of s] by (simp add: set_ptr_def enc_snapshot_def)

lemma dec_enc_journal:
  "- (2 ^ 63) \<le> lj_SchemaVersion j \<Longrightarrow> lj_SchemaVersion j < 2 ^ 63 \<Longrightarrow>
   - (2 ^ 63) \<le> lj_ClientPID j \<Longrightarrow> lj_ClientPID j < 2 ^ 63 \<Longrightarrow>
   dec_journal (enc_journal j) = Some j"
  by (cases j; cases "lj_Lease j"; cases "lj_Snapshot j")
    (simp_all add: dec_journal_def enc_journal_def dec_obj_def journal_put_def codec_simps zero_lease_def)

end
