(* ===== verification/Daemon.thy ===== *)
theory Daemon
  imports Daemon_Records
begin

text \<open>
  The Unix workspace daemon, \<open>internal/workspaced/manager_unix.go\<close>. The manager's memory
  extends the machine; its mutex makes \<open>Handle\<close> one step. The backend is the Unix storage
  backend with its clone function as a parameter.
\<close>

section \<open>The manager\<close>

record manager = world +
  m_config :: Config
  m_provider :: string
  m_bootID :: string
  m_capability :: Capability
  m_leases :: "string \<Rightarrow> unixLease option"
  m_requests :: "string \<Rightarrow> (Request \<times> Response) option"
  m_manualRecovery :: bool

type_synonym 'a op = "(manager, 'a) state"
type_synonym cloneFunc = "string \<Rightarrow> string \<Rightarrow> err option op"

definition Validate :: "Config \<Rightarrow> err option" where
  "Validate c =
     (if cf_SchemaVersion c \<noteq> configSchema \<or> \<not> IsAbs (cf_StoreRoot c) \<or>
         \<not> IsAbs (cf_WorkspaceRoot c) \<or> \<not> IsAbs (cf_SocketPath c)
      then Some (Text ''invalid daemon config'')
      else if cf_QuotaBytes c \<le>s 0 \<or> cf_HostFloorBytes c <s 0 \<or> cf_ChildReserveBytes c \<le>s 0
      then Some (Text ''invalid capacity config'')
      else None)"

definition LoadConfig :: "string \<Rightarrow> ('z world_scheme, err + Config) state" where
  "LoadConfig path = attempt (os_ReadFile path) (\<lambda>e. ret (Inl e)) (\<lambda>data.
     case decode_first dec_config (stream data) of
       Inl e \<Rightarrow> ret (Inl e)
     | Inr config \<Rightarrow> (case Validate config of
         Some e \<Rightarrow> ret (Inl e) | None \<Rightarrow> ret (Inr config)))"

definition needs_recovery :: "unit op" where
  "needs_recovery = modify (\<lambda>m. m\<lparr>m_manualRecovery := True\<rparr>)"

definition storeRoot :: "string op" where
  "storeRoot = gets (\<lambda>m. cf_StoreRoot (m_config m))"

section \<open>Files\<close>

definition writeJSON :: "string \<Rightarrow> json \<Rightarrow> ('z world_scheme, err option) state" where
  "writeJSON path j = do { e \<leftarrow> env_get (\<lambda>e. e); WriteDurable path (json_content e True j) 384 }"

definition writeJSONExclusive :: "string \<Rightarrow> json \<Rightarrow> ('z world_scheme, err option) state" where
  "writeJSONExclusive path j =
     do { e \<leftarrow> env_get (\<lambda>e. e); WriteExclusiveDurable path (json_content e True j) 384 }"

definition readJSON ::
  "string \<Rightarrow> (json \<Rightarrow> 'a option) \<Rightarrow> ('z world_scheme, err + 'a) state"
where
  "readJSON path dec = attempt (os_ReadFile path) (\<lambda>e. ret (Inl e))
     (\<lambda>data. ret (decode_single dec (stream data)))"

definition removeFileIfExists :: "string \<Rightarrow> ('z world_scheme, err option) state" where
  "removeFileIfExists path = check (os_Remove path)
     (\<lambda>e. ret (if IsNotExist e then None else Some e)) (ret None)"

definition randomID :: "string \<Rightarrow> ('z world_scheme, err + string) state" where
  "randomID prefix' = attempt (rand_Read 16) (\<lambda>e. ret (Inl e))
     (\<lambda>value. ret (Inr (prefix' @ ''-'' @ hex_encode value)))"

definition parentID :: "(string \<Rightarrow> string) \<Rightarrow> string \<Rightarrow> string \<Rightarrow> string" where
  "parentID sha256 provider key =
     ''parent-'' @ hex_encode (take 16 (sha256 (provider @ [CHR 0x00] @ key)))"

section \<open>Parents\<close>

definition directoryIdentity :: "string \<Rightarrow> ('z world_scheme, err + 64 word \<times> 64 word) state" where
  "directoryIdentity path = attempt (os_Lstat path) (\<lambda>e. ret (Inl e)) (\<lambda>info.
     if \<not> is_dir info \<or> is_link info then
       ret (Inl (Text ''parent data path is not a real directory''))
     else do { dev \<leftarrow> env_get e_dev; ret (Inr (dev, n_ino info)) })"

definition verifyParent :: "parentRecord \<Rightarrow> ('z world_scheme, err option) state" where
  "verifyParent parent =
     attempt (directoryIdentity (pr_DataPath parent)) (\<lambda>e. ret (Some e)) (\<lambda>(device, inode).
     if device \<noteq> pr_Device parent \<or> inode \<noteq> pr_Inode parent then
       ret (Some (Text ''committed parent identity changed''))
     else attempt (digestTree (pr_DataPath parent)) (\<lambda>e. ret (Some e)) (\<lambda>(digest, logical).
     if digest \<noteq> pa_ContentDigest (pr_Parent parent) \<or> logical \<noteq> pa_LogicalBytes (pr_Parent parent) \<or>
        \<not> pa_Immutable (pr_Parent parent) then
       ret (Some (Text ''committed parent content changed''))
     else ret None))"

definition readParent :: "string \<Rightarrow> (err + parentRecord) op" where
  "readParent i = do {
     root \<leftarrow> storeRoot;
     provider \<leftarrow> gets m_provider;
     attempt (readJSON (Join [root, ''parents'', i, ''metadata.json'']) dec_parent)
       (\<lambda>e. ret (Inl e))
       (\<lambda>p. ret (
         if pa_ParentID (pr_Parent p) \<noteq> i \<or> pa_Provider (pr_Parent p) \<noteq> provider \<or>
            Clean (pr_DataPath p) \<noteq> Join [root, ''parents'', i, ''data'']
         then Inl (Text ''parent identity mismatch'') else Inr p)) }"

definition current_parentID :: "string \<Rightarrow> string op" where
  "current_parentID key = do {
     provider \<leftarrow> gets m_provider;
     sha \<leftarrow> env_get e_sha256;
     ret (parentID sha provider key) }"

definition readParentByCompatibility :: "string \<Rightarrow> (err + parentRecord) op" where
  "readParentByCompatibility key = do { i \<leftarrow> current_parentID key; readParent i }"

definition quarantineParentID :: "string \<Rightarrow> err option op" where
  "quarantineParentID i =
     (if \<not> is_identifier i then ret (Some (Text ''invalid parent quarantine identity''))
      else do {
        root \<leftarrow> storeRoot;
        now \<leftarrow> time_Now;
        os_Rename (Join [root, ''parents'', i])
          (Join [root, ''quarantine'', i @ ''-'' @ dec_int now]) })"

definition quarantineParent :: "parentRecord \<Rightarrow> err option op" where
  "quarantineParent parent = do {
     root \<leftarrow> storeRoot;
     if Clean (Dir (pr_DataPath parent)) \<noteq> Join [root, ''parents'', pa_ParentID (pr_Parent parent)]
     then ret (Some (Text ''refusing to quarantine parent outside owned path''))
     else quarantineParentID (pa_ParentID (pr_Parent parent)) }"

definition readParentReceipt :: "string \<Rightarrow> (err + parentReceipt) op" where
  "readParentReceipt transactionID = do {
     root \<leftarrow> storeRoot;
     attempt (readJSON (Join [root, ''receipts'', transactionID @ ''.json'']) dec_receipt)
       (\<lambda>e. ret (Inl e))
       (\<lambda>receipt. ret (
         if rc_TransactionID receipt \<noteq> transactionID \<or> \<not> is_identifier (rc_ParentID receipt)
         then Inl (Text ''parent receipt identity mismatch'') else Inr receipt)) }"

definition writeParentReceipt :: "string \<Rightarrow> string \<Rightarrow> err option op" where
  "writeParentReceipt transactionID i = do {
     root \<leftarrow> storeRoot;
     writeJSON (Join [root, ''receipts'', transactionID @ ''.json''])
       (enc_receipt \<lparr>rc_TransactionID = transactionID, rc_ParentID = i\<rparr>) }"

definition cleanupPendingTransaction :: "string \<Rightarrow> err option op" where
  "cleanupPendingTransaction transactionID =
     (if \<not> is_identifier transactionID then ret (Some (Text ''invalid pending transaction identity''))
      else do {
        root \<leftarrow> storeRoot;
        let dir = Join [root, ''pending'', transactionID];
        attempt (os_Lstat dir) (\<lambda>e. ret (if IsNotExist e then None else Some e)) (\<lambda>info.
        if \<not> is_dir info \<or> is_link info then
          ret (Some (Text ''pending transaction is not a real directory''))
        else check (os_RemoveAll dir) (\<lambda>e. ret (Some e)) (
        attempt (os_Lstat dir)
          (\<lambda>e. ret (if IsNotExist e then None
                    else join_errs [Some e, Some (Text ''pending transaction remains after cleanup'')]))
          (\<lambda>_. ret (join_errs [None, Some (Text ''pending transaction remains after cleanup'')])))) })"

section \<open>Leases\<close>

definition validateWorkspace :: "string \<Rightarrow> string \<Rightarrow> string \<Rightarrow> ('z world_scheme, err option) state" where
  "validateWorkspace root path mount =
     (if \<not> pathWithin root path then ret (Some (Text ''workspace escapes configured root''))
      else let real = (\<lambda>p k. attempt (os_Lstat p)
             (\<lambda>_. ret (Some (Text ''workspace component must be a real directory'')))
             (\<lambda>info. if \<not> is_dir info \<or> is_link info
                then ret (Some (Text ''workspace component must be a real directory'')) else k)) in
        real root (real path (attempt (os_Lstat mount)
          (\<lambda>e. ret (if IsNotExist e then None else Some e))
          (\<lambda>_. ret (Some (Text ''Library mount already exists''))))))"

definition owner_path :: "leaseJournal \<Rightarrow> string" where
  "owner_path j = Join [le_WorkspacePath (lj_Lease j), workspaceOwnerFile]"

definition validateWorkspaceOwner :: "leaseJournal \<Rightarrow> ('z world_scheme, err option) state" where
  "validateWorkspaceOwner j =
     attempt (readJSON (owner_path j) dec_owner) (\<lambda>e. ret (Some e)) (\<lambda>owner. ret (
       if wo_SchemaVersion owner \<noteq> 2 \<or> wo_LeaseID owner \<noteq> le_LeaseID (lj_Lease j) \<or>
          wo_WorkspaceID owner \<noteq> le_WorkspaceID (lj_Lease j) \<or>
          Clean (wo_WorkspacePath owner) \<noteq> Clean (le_WorkspacePath (lj_Lease j)) \<or>
          Clean (wo_MountPath owner) \<noteq> Clean (le_MountPath (lj_Lease j)) \<or>
          wo_OwnerToken owner \<noteq> lj_OwnerToken j
       then Some (Text ''workspace owner mismatch'') else None))"

definition removeWorkspaceOwner :: "leaseJournal \<Rightarrow> ('z world_scheme, err option) state" where
  "removeWorkspaceOwner j =
     check (validateWorkspaceOwner j) (\<lambda>e. ret (Some e)) (os_Remove (owner_path j))"

definition validateLeaseJournal :: "Config \<Rightarrow> string \<Rightarrow> leaseJournal \<Rightarrow> err option" where
  "validateLeaseJournal c entryName journal =
     (let l = lj_Lease journal in
      if lj_SchemaVersion journal \<noteq> 2 \<or> entryName \<noteq> le_LeaseID l @ ''.json'' \<or>
         \<not> is_identifier (le_LeaseID l) \<or> \<not> is_identifier (le_ConsumerID l) \<or>
         \<not> is_identifier (le_WorkspaceID l) \<or> \<not> is_identifier (le_ParentID l) \<or>
         \<not> is_identifier (lj_OwnerToken journal) \<or> lj_BootSessionID journal = ''''
      then Some (Text ''lease journal identity mismatch'')
      else let workspacePath = Join [cf_WorkspaceRoot c, le_WorkspaceID l];
               mountPath = Join [workspacePath, ''Library''];
               childPath = Join [cf_StoreRoot c, ''children'', le_LeaseID l] in
        if Clean (le_WorkspacePath l) \<noteq> workspacePath \<or> Clean (le_MountPath l) \<noteq> mountPath \<or>
           Clean (lj_ChildPath journal) \<noteq> childPath
        then Some (Text ''lease journal path escapes configured ownership roots'')
        else (case lj_Snapshot journal of
            None \<Rightarrow> None
          | Some snapshot \<Rightarrow>
              let parentPath = Join [cf_StoreRoot c, ''parents'', le_ParentID l, ''data''] in
              if Clean (sn_StoreRoot snapshot) \<noteq> Join [cf_StoreRoot c, ''children''] \<or>
                 Clean (sn_ParentPath snapshot) \<noteq> parentPath \<or>
                 Clean (sn_ChildPath snapshot) \<noteq> childPath \<or>
                 Clean (sn_MountPath snapshot) \<noteq> mountPath \<or>
                 sn_LeaseID snapshot \<noteq> le_LeaseID l \<or> \<not> is_identifier (sn_OwnerToken snapshot)
              then Some (Text ''lease recovery snapshot path or identity mismatch'')
              else None))"

definition readLease :: "string \<Rightarrow> (err + leaseJournal) op" where
  "readLease i = do {
     c \<leftarrow> gets m_config;
     attempt (readJSON (Join [cf_StoreRoot c, ''leases'', i @ ''.json'']) dec_journal)
       (\<lambda>e. ret (Inl e))
       (\<lambda>j. ret (case validateLeaseJournal c (i @ ''.json'') j of Some e \<Rightarrow> Inl e | None \<Rightarrow> Inr j)) }"

text \<open>\<open>rollbackAcquiredLease\<close>: release with a background context, then the marker and the journal.\<close>

definition rollbackAcquiredLease :: "string \<Rightarrow> leaseJournal \<Rightarrow> unixLease \<Rightarrow> err option op" where
  "rollbackAcquiredLease journalPath journal lease = do {
     ((_, e), _) \<leftarrow> Release True None True lease;
     check (ret e) (\<lambda>e. ignore needs_recovery (ret (Some e))) (
     check (removeWorkspaceOwner journal) (\<lambda>e. ignore needs_recovery (ret (Some e))) (
     check (removeFileIfExists journalPath) (\<lambda>e. ignore needs_recovery (ret (Some e)))
       (ret None))) }"

section \<open>Responses\<close>

definition response :: "Request \<Rightarrow> Response op" where
  "response request = do {
     provider \<leftarrow> gets m_provider;
     ret (zero_response\<lparr>rs_SchemaVersion := 2, rs_RequestID := q_RequestID request, rs_OK := True,
            rs_Provider := provider\<rparr>) }"

definition failure :: "Request \<Rightarrow> string \<Rightarrow> err option \<Rightarrow> Response op" where
  "failure request code e = do {
     provider \<leftarrow> gets m_provider;
     ret (zero_response\<lparr>rs_SchemaVersion := 2, rs_RequestID := q_RequestID request, rs_OK := False,
            rs_Provider := provider,
            rs_Error := Some \<lparr>er_Code = code, er_Operation = q_Operation request, er_Message = e\<rparr>\<rparr>) }"

definition storageErrorCode :: "err \<Rightarrow> string" where
  "storageErrorCode e = (case storage_code e of
       Some c \<Rightarrow> if c \<noteq> '''' then c else ''storage-operation-failed''
     | None \<Rightarrow> ''storage-operation-failed'')"

definition opt0 :: "i64 option \<Rightarrow> i64" where
  "opt0 x = (case x of Some v \<Rightarrow> v | None \<Rightarrow> 0)"

definition metricsFromStorage :: "Metrics \<Rightarrow> WorkspaceMetrics" where
  "metricsFromStorage raw =
     \<lparr>wm_AcquireWallClockMs = 0, wm_ReleaseWallClockMs = 0, wm_ChildCreateMs = opt0 (mt_ChildCreateMs raw),
      wm_ChildReadyLogicalBytes = opt0 (mt_ChildReadyLogicalBytes raw),
      wm_ChildReadyAllocatedBytes = opt0 (mt_ChildReadyAllocatedBytes raw),
      wm_CleanupMs = opt0 (mt_CleanupMs raw)\<rparr>"

section \<open>Parent transactions\<close>

definition parentBegin :: "Request \<Rightarrow> Response op" where
  "parentBegin request =
     (if \<not> compatibility (q_CompatibilityKey request) then
        failure request ''invalid-compatibility-key''
          (Some (Text ''compatibilityKey must be 64 lowercase hex characters''))
      else do {
        root \<leftarrow> storeRoot;
        let begin' = attempt (randomID ''txn'')
              (\<lambda>e. failure request ''transaction-create-failed'' (Some e)) (\<lambda>txn.
              let dir = Join [root, ''pending'', txn]; staging = Join [dir, ''data''] in
              check (os_MkdirAll staging 448)
                (\<lambda>e. failure request ''transaction-create-failed'' (Some e)) (do {
              now \<leftarrow> time_Now;
              check (writeJSON (Join [dir, ''pending.json''])
                  (enc_pending \<lparr>pd_TransactionID = txn,
                     pd_CompatibilityKey = q_CompatibilityKey request,
                     pd_StagingPath = staging, pd_CreatedAt = now\<rparr>))
                (\<lambda>e. failure request ''transaction-create-failed'' (Some e)) (do {
              r \<leftarrow> response request;
              ret (r\<lparr>rs_TransactionID := txn, rs_StagingPath := staging\<rparr>) }) }));
        found \<leftarrow> readParentByCompatibility (q_CompatibilityKey request);
        (case found of
           Inr parent \<Rightarrow> check (verifyParent parent)
             (\<lambda>_. check (quarantineParent parent)
                (\<lambda>e. ignore needs_recovery (failure request ''parent-corrupt'' (Some e))) begin')
             (do { r \<leftarrow> response request; ret (r\<lparr>rs_Parent := Some (pr_Parent parent)\<rparr>) })
         | Inl err \<Rightarrow> do {
             i \<leftarrow> current_parentID (q_CompatibilityKey request);
             attempt (os_Lstat (Join [root, ''parents'', i]))
               (\<lambda>statErr. if \<not> IsNotExist statErr then
                    ignore needs_recovery
                      (failure request ''parent-corrupt'' (join_errs [Some err, Some statErr]))
                  else begin')
               (\<lambda>_. check (quarantineParentID i)
                  (\<lambda>e. ignore needs_recovery
                     (failure request ''parent-corrupt'' (join_errs [Some err, Some e]))) begin') }) })"

text \<open>The resumable move of the staged data into the publication directory.\<close>

definition stage_publication :: "string \<Rightarrow> string \<Rightarrow> (string \<times> err) option op" where
  "stage_publication stagingPath publication =
     (let publicationData = Join [publication, ''data''] in do {
      staged \<leftarrow> os_Lstat stagingPath;
      (case staged of
         Inr _ \<Rightarrow> do {
           made \<leftarrow> os_Mkdir publication 448;
           (case made of
              Some e \<Rightarrow> if \<not> IsExist e then ret (Some e) else ret None
            | None \<Rightarrow> ret None) \<bind> (\<lambda>blocked.
           case blocked of Some e \<Rightarrow> ret (Some (''parent-commit-failed'', e)) | None \<Rightarrow>
           do {
           data \<leftarrow> os_Lstat publicationData;
           (case data of
              Inr _ \<Rightarrow> ret (Some (''parent-commit-failed'', Text ''both staging and publication data exist''))
            | Inl e \<Rightarrow> if \<not> IsNotExist e then ret (Some (''parent-commit-failed'', e))
                else check (os_Rename stagingPath publicationData)
                  (\<lambda>e. ret (Some (''parent-commit-failed'', e))) (ret None)) }) }
       | Inl e \<Rightarrow>
           if \<not> IsNotExist e then ret (Some (''parent-commit-failed'', e))
           else attempt (os_Lstat publicationData)
             (\<lambda>e. ret (Some (''transaction-not-found'',
                Joined [e, Text ''transaction has no resumable publication data''])))
             (\<lambda>_. ret None)) })"

definition parentCommit :: "Request \<Rightarrow> Response op" where
  "parentCommit request =
     (if \<not> is_identifier (q_TransactionID request) then
        failure request ''invalid-transaction'' (Some (Text ''invalid transactionId''))
      else do {
        root \<leftarrow> storeRoot;
        provider \<leftarrow> gets m_provider;
        let txn = q_TransactionID request;
        let success = (\<lambda>parent. check (cleanupPendingTransaction txn)
              (\<lambda>e. failure request ''parent-commit-failed'' (Some e))
              (do { r \<leftarrow> response request; ret (r\<lparr>rs_Parent := Some (pr_Parent parent)\<rparr>) }));
        receipt \<leftarrow> readParentReceipt txn;
        (case receipt of
           Inr receipt \<Rightarrow> do {
             found \<leftarrow> readParent (rc_ParentID receipt);
             verified \<leftarrow> (case found of Inr parent \<Rightarrow> verifyParent parent | Inl _ \<Rightarrow> ret None);
             (case (found, verified) of
                (Inr parent, None) \<Rightarrow> success parent
              | _ \<Rightarrow> ignore needs_recovery (failure request ''parent-corrupt''
                  (join_errs [case found of Inl e \<Rightarrow> Some e | Inr _ \<Rightarrow> None, verified,
                     Some (Text ''committed parent receipt is not valid'')]))) }
         | Inl receiptErr \<Rightarrow>
             if \<not> IsNotExist receiptErr then
               ignore needs_recovery (failure request ''parent-receipt-corrupt'' (Some receiptErr))
             else do {
        let dir = Join [root, ''pending'', txn];
        let not_found = (\<lambda>e. failure request ''transaction-not-found''
              (join_errs [e, Some (Text ''transaction identity mismatch'')]));
        attempt (readJSON (Join [dir, ''pending.json'']) dec_pending) (\<lambda>e. not_found (Some e)) (\<lambda>pending.
        if pd_TransactionID pending \<noteq> txn \<or> Clean (pd_StagingPath pending) \<noteq> Join [dir, ''data'']
        then not_found None
        else do {
        i \<leftarrow> current_parentID (pd_CompatibilityKey pending);
        let parentDir = Join [root, ''parents'', i];
        let publication = Join [dir, ''publication''];
        let publicationData = Join [publication, ''data''];
        let commit = do {
              staged \<leftarrow> stage_publication (pd_StagingPath pending) publication;
              (case staged of
                 Some (code, e) \<Rightarrow> failure request code (Some e)
               | None \<Rightarrow>
                   attempt (digestTree publicationData)
                     (\<lambda>e. failure request ''parent-invalid'' (Some e)) (\<lambda>(digest, logical).
                   attempt (MeasureDirectoryUsage publicationData)
                     (\<lambda>e. failure request ''parent-invalid'' (Some e)) (\<lambda>usage.
                   attempt (directoryIdentity publicationData)
                     (\<lambda>e. failure request ''parent-commit-failed'' (Some e)) (\<lambda>(device, inode). do {
                   now \<leftarrow> time_Now;
                   let parent = \<lparr>pr_Parent = \<lparr>pa_ParentID = i,
                          pa_Compatibility = pd_CompatibilityKey pending, pa_Provider = provider,
                          pa_ArtifactKind = ''directory'', pa_ContentDigest = digest,
                          pa_LogicalBytes = logical, pa_AllocatedBytes = u_AllocatedBytes usage,
                          pa_Immutable = True, pa_CreatedAt = now\<rparr>,
                        pr_DataPath = Join [parentDir, ''data''],
                        pr_Device = device, pr_Inode = inode\<rparr>;
                   check (writeJSON (Join [publication, ''metadata.json'']) (enc_parent parent))
                     (\<lambda>e. failure request ''parent-commit-failed'' (Some e)) (
                   check (verifyParent (parent\<lparr>pr_DataPath := publicationData\<rparr>))
                     (\<lambda>e. failure request ''parent-invalid'' (Some e)) (
                   check (os_Rename publication parentDir)
                     (\<lambda>e. failure request ''parent-commit-failed'' (Some e)) (
                   check (writeParentReceipt txn i)
                     (\<lambda>e. failure request ''parent-commit-failed'' (Some e))
                     (success parent)))) })))) };
        existing \<leftarrow> os_Lstat parentDir;
        (case existing of
           Inl e \<Rightarrow> if \<not> IsNotExist e then failure request ''parent-commit-failed'' (Some e) else commit
         | Inr _ \<Rightarrow> do {
             found \<leftarrow> readParent i;
             reuse \<leftarrow> (case found of
                 Inr existing \<Rightarrow>
                   if pa_Compatibility (pr_Parent existing) = pd_CompatibilityKey pending
                   then do { v \<leftarrow> verifyParent existing;
                             ret (if v = None then Some existing else None) }
                   else ret None
               | Inl _ \<Rightarrow> ret None);
             (case reuse of
                Some existing \<Rightarrow> check (writeParentReceipt txn i)
                  (\<lambda>e. failure request ''parent-commit-failed'' (Some e)) (success existing)
              | None \<Rightarrow> check (quarantineParentID i)
                  (\<lambda>e. failure request ''parent-corrupt''
                     (join_errs [case found of Inl x \<Rightarrow> Some x | Inr _ \<Rightarrow> None, Some e]))
                  commit) }) }) }) })"

definition parentAbort :: "Request \<Rightarrow> Response op" where
  "parentAbort request =
     (if \<not> is_identifier (q_TransactionID request) then
        failure request ''invalid-transaction'' (Some (Text ''invalid transactionId''))
      else do {
        root \<leftarrow> storeRoot;
        let dir = Join [root, ''pending'', q_TransactionID request];
        attempt (readJSON (Join [dir, ''pending.json'']) dec_pending)
          (\<lambda>e. failure request ''transaction-not-found'' (Some e)) (\<lambda>pending.
        if pd_TransactionID pending \<noteq> q_TransactionID request \<or>
           \<not> pathWithin (Join [root, ''pending'']) dir
        then failure request ''transaction-not-found'' None
        else check (os_RemoveAll dir)
          (\<lambda>e. failure request ''parent-abort-failed'' (Some e)) (response request)) })"

section \<open>Status\<close>

definition count_quarantined :: "(string \<times> node) list \<Rightarrow> (string \<times> node) list \<Rightarrow> int" where
  "count_quarantined quarantine entries =
     int (length quarantine) +
     int (length (filter (\<lambda>entry. HasPrefix (fst entry) ''.testplay-delete-'') entries))"

definition measureStatus :: "(err + Status) op" where
  "measureStatus = do {
     root \<leftarrow> storeRoot;
     attempt (MeasureDirectoryUsage root) (\<lambda>e. ret (Inl e)) (\<lambda>usage.
     attempt statfs_free (\<lambda>e. ret (Inl e)) (\<lambda>free.
     attempt (os_ReadDir (Join [root, ''parents''])) (\<lambda>e. ret (Inl e)) (\<lambda>parents.
     attempt (os_ReadDir (Join [root, ''leases''])) (\<lambda>e. ret (Inl e)) (\<lambda>leases.
     attempt (os_ReadDir (Join [root, ''quarantine''])) (\<lambda>e. ret (Inl e)) (\<lambda>quarantine.
     attempt (os_ReadDir (Join [root, ''children''])) (\<lambda>e. ret (Inl e)) (\<lambda>children. do {
     m \<leftarrow> gets (\<lambda>m. m);
     ret (Inr \<lparr>st_Capability = m_capability m, st_ParentCount = int (length parents),
               st_ActiveLeaseCount = int (length leases),
               st_QuarantineCount = count_quarantined quarantine children,
               st_AllocatedBytes = u_AllocatedBytes usage,
               st_QuotaBytes = cf_QuotaBytes (m_config m), st_HostFreeBytes = free,
               st_HostFloorBytes = cf_HostFloorBytes (m_config m),
               st_ManualRecoveryRequired = m_manualRecovery m\<rparr>) })))))) }"

definition status :: "Request \<Rightarrow> Response op" where
  "status request = attempt measureStatus
     (\<lambda>e. do {
        r \<leftarrow> failure request ''status-unavailable'' (Some e);
        ret (r\<lparr>rs_Error := Some \<lparr>er_Code = ''status-unavailable'', er_Operation = OperationStatus,
                                 er_Message = Some e\<rparr>\<rparr>) })
     (\<lambda>s. do { r \<leftarrow> response request; ret (r\<lparr>rs_Status := Some s\<rparr>) })"

section \<open>Leasing a workspace\<close>

text \<open>The request may lower the quota and raise the floor, never the other way.\<close>

definition effective_quota :: "Config \<Rightarrow> Limits \<Rightarrow> i64" where
  "effective_quota c limits =
     (if 0 <s lm_StoreMaxAllocatedBytes limits \<and> lm_StoreMaxAllocatedBytes limits <s cf_QuotaBytes c
      then lm_StoreMaxAllocatedBytes limits else cf_QuotaBytes c)"

definition effective_floor :: "Config \<Rightarrow> Limits \<Rightarrow> i64" where
  "effective_floor c limits =
     (if cf_HostFloorBytes c <s lm_MinimumHostFreeBytes limits
      then lm_MinimumHostFreeBytes limits else cf_HostFloorBytes c)"

definition capacity_exceeded :: "Config \<Rightarrow> Limits \<Rightarrow> i64 \<Rightarrow> i64 \<Rightarrow> bool" where
  "capacity_exceeded c limits allocated free \<longleftrightarrow>
     effective_quota c limits <s allocated + cf_ChildReserveBytes c \<or>
     free - cf_ChildReserveBytes c <s effective_floor c limits"

definition acquire_failed ::
  "Request \<Rightarrow> string \<Rightarrow> leaseJournal \<Rightarrow> string \<Rightarrow> string \<Rightarrow> err \<Rightarrow> Response op"
where
  "acquire_failed request journalPath journal childPath mountPath e = do {
     childErr \<leftarrow> os_Lstat childPath;
     mountErr \<leftarrow> os_Lstat mountPath;
     let missing = (\<lambda>r. case r of Inl x \<Rightarrow> IsNotExist x | Inr _ \<Rightarrow> False);
     let other = (\<lambda>r. case r of Inl x \<Rightarrow> if IsNotExist x then None else Some x | Inr _ \<Rightarrow> None);
     cleanupErr \<leftarrow> (if missing childErr \<and> missing mountErr then do {
           ownerErr \<leftarrow> removeWorkspaceOwner journal;
           (case ownerErr of
              Some x \<Rightarrow> if IsNotExist x then removeFileIfExists journalPath
                        else ret (join_errs [Some x])
            | None \<Rightarrow> removeFileIfExists journalPath) }
         else ignore needs_recovery (ret (join_errs
           [other childErr, other mountErr,
            Some (Text ''backend acquire left uncertain child or mount state'')])));
     failure request (storageErrorCode e) (join_errs [Some e, cleanupErr]) }"

definition acquire :: "cloneFunc \<Rightarrow> Request \<Rightarrow> Response op" where
  "acquire clone request =
     (if \<not> is_identifier (q_ConsumerID request) \<or> \<not> is_identifier (q_WorkspaceID request) \<or>
         \<not> is_identifier (q_ParentID request)
      then failure request ''invalid-request''
        (Some (Text ''invalid consumerId, workspaceId, or parentId''))
      else
     attempt (readParent (q_ParentID request))
       (\<lambda>e. failure request ''parent-not-found'' (Some e)) (\<lambda>parent.
     check (verifyParent parent)
       (\<lambda>e. ignore needs_recovery (ignore (quarantineParent parent)
          (failure request ''parent-corrupt'' (Some e)))) (
     attempt measureStatus (\<lambda>e. failure request ''status-unavailable'' (Some e)) (\<lambda>s. do {
     c \<leftarrow> gets m_config;
     if capacity_exceeded c (q_Limits request) (st_AllocatedBytes s) (st_HostFreeBytes s) then
       failure request ''storage-capacity-unavailable''
         (Some (Text ''quota or host free-space floor would be exceeded''))
     else do {
     let workspacePath = Join [cf_WorkspaceRoot c, q_WorkspaceID request];
     let mountPath = Join [workspacePath, ''Library''];
     check (validateWorkspace (cf_WorkspaceRoot c) workspacePath mountPath)
       (\<lambda>e. failure request ''invalid-workspace'' (Some e)) (
     attempt (randomID ''lease'') (\<lambda>e. failure request ''lease-create-failed'' (Some e)) (\<lambda>leaseID.
     attempt (randomID ''owner'') (\<lambda>e. failure request ''lease-create-failed'' (Some e)) (\<lambda>ownerToken. do {
     let childPath = Join [cf_StoreRoot c, ''children'', leaseID];
     let owner = \<lparr>wo_SchemaVersion = 2, wo_LeaseID = leaseID, wo_WorkspaceID = q_WorkspaceID request,
                  wo_WorkspacePath = workspacePath, wo_MountPath = mountPath, wo_OwnerToken = ownerToken\<rparr>;
     check (writeJSONExclusive (Join [workspacePath, workspaceOwnerFile]) (enc_owner owner))
       (\<lambda>e. failure request ''workspace-owner-write-failed'' (Some e)) (do {
     created \<leftarrow> time_Now;
     updated \<leftarrow> time_Now;
     bootID \<leftarrow> gets m_bootID;
     let journal = \<lparr>lj_SchemaVersion = 2,
           lj_Lease = \<lparr>le_LeaseID = leaseID, le_ConsumerID = q_ConsumerID request,
              le_WorkspaceID = q_WorkspaceID request, le_ParentID = q_ParentID request,
              le_WorkspacePath = workspacePath, le_MountPath = mountPath,
              le_State = ''requested'', le_CreatedAt = created\<rparr>,
           lj_ChildPath = childPath, lj_ClientPID = q_ClientPID request, lj_BootSessionID = bootID,
           lj_OwnerToken = ownerToken, lj_Snapshot = None, lj_UpdatedAt = updated\<rparr>;
     let journalPath = Join [cf_StoreRoot c, ''leases'', leaseID @ ''.json''];
     check (writeJSON journalPath (enc_journal journal))
       (\<lambda>e. do {
          cleanupErr \<leftarrow> removeWorkspaceOwner journal;
          (case cleanupErr of
             Some x \<Rightarrow> if \<not> IsNotExist x then needs_recovery else skip
           | None \<Rightarrow> skip);
          failure request ''journal-write-failed'' (join_errs [Some e, cleanupErr]) }) (do {
     started \<leftarrow> time_Now;
     (acquired, raw) \<leftarrow> Acquire clone None
       \<lparr>rq_ParentPath = pr_DataPath parent, rq_ChildPath = childPath, rq_MountPath = mountPath,
        rq_StoreRoot = Join [cf_StoreRoot c, ''children''], rq_LeaseID = leaseID\<rparr>;
     (case acquired of
        Inl e \<Rightarrow> acquire_failed request journalPath journal childPath mountPath e
      | Inr lease \<Rightarrow> do {
     let snapshot = SnapshotUnixLease lease;
     ready \<leftarrow> time_Now;
     let journal = journal\<lparr>lj_Lease := (lj_Lease journal)\<lparr>le_State := ''ready''\<rparr>,
                           lj_Snapshot := Some snapshot, lj_UpdatedAt := ready\<rparr>;
     check (writeJSON journalPath (enc_journal journal))
       (\<lambda>e. do {
          rb \<leftarrow> rollbackAcquiredLease journalPath journal lease;
          failure request ''journal-write-failed'' (join_errs [Some e, rb]) }) (do {
     modify (\<lambda>m. m\<lparr>m_leases := (m_leases m)(leaseID \<mapsto> lease)\<rparr>);
     elapsed \<leftarrow> since_ms started;
     r \<leftarrow> response request;
     ret (r\<lparr>rs_Parent := Some (pr_Parent parent), rs_Lease := Some (lj_Lease journal),
            rs_Metrics := Some ((metricsFromStorage raw)\<lparr>wm_AcquireWallClockMs := opt0 elapsed\<rparr>)\<rparr>) }) }) }) }) }))) } }))))"

definition release_lease :: "Request \<Rightarrow> leaseJournal \<Rightarrow> unixLease \<Rightarrow> Response op" where
  "release_lease request journal lease =
     check (validateWorkspaceOwner journal)
       (\<lambda>e. ignore needs_recovery (failure request ''workspace-ownership-mismatch'' (Some e))) (do {
     started \<leftarrow> time_Now;
     ((raw, released), lease') \<leftarrow> Release False None True lease;
     modify (\<lambda>m. if m_leases m (q_LeaseID request) = None then m
        else m\<lparr>m_leases := (m_leases m)(q_LeaseID request \<mapsto> lease')\<rparr>);
     check (ret released)
       (\<lambda>e. ignore needs_recovery (failure request (storageErrorCode e) (Some e))) (
     check (removeWorkspaceOwner journal)
       (\<lambda>e. ignore needs_recovery (failure request ''workspace-cleanup-failed'' (Some e))) (do {
     root \<leftarrow> storeRoot;
     check (removeFileIfExists (Join [root, ''leases'', q_LeaseID request @ ''.json'']))
       (\<lambda>e. ignore needs_recovery (failure request ''journal-remove-failed'' (Some e))) (do {
     modify (\<lambda>m. m\<lparr>m_leases := (m_leases m)(q_LeaseID request := None)\<rparr>);
     elapsed \<leftarrow> since_ms started;
     r \<leftarrow> response request;
     ret (r\<lparr>rs_Lease := Some ((lj_Lease journal)\<lparr>le_State := ''released''\<rparr>),
            rs_Metrics := Some ((metricsFromStorage raw)\<lparr>wm_ReleaseWallClockMs := opt0 elapsed\<rparr>)\<rparr>) }) })) })"

definition release :: "Request \<Rightarrow> Response op" where
  "release request =
     (if \<not> is_identifier (q_LeaseID request) then
        failure request ''invalid-lease'' (Some (Text ''invalid leaseId''))
      else
     attempt (readLease (q_LeaseID request))
       (\<lambda>e. failure request ''lease-not-found'' (Some e)) (\<lambda>journal. do {
     held \<leftarrow> gets (\<lambda>m. m_leases m (q_LeaseID request));
     (case (held, lj_Snapshot journal) of
        (Some lease, _) \<Rightarrow> release_lease request journal lease
      | (None, Some snapshot) \<Rightarrow> attempt (RecoverUnixLease snapshot)
          (\<lambda>e. ignore needs_recovery (failure request ''lease-recovery-failed'' (Some e)))
          (release_lease request journal)
      | (None, None) \<Rightarrow> failure request ''lease-not-active''
          (Some (Text ''lease has no recoverable ownership snapshot''))) }))"

section \<open>Recovery at start\<close>

definition processAlive :: "int \<Rightarrow> bool op" where
  "processAlive pid = (if pid \<le> 0 then ret False else process_alive pid)"

text \<open>One journal of the loop in \<open>recover\<close>: its error, if any, is joined to the result.\<close>

definition recover_entry :: "string \<Rightarrow> err option op" where
  "recover_entry name = do {
     c \<leftarrow> gets m_config;
     let journalPath = Join [cf_StoreRoot c, ''leases'', name];
     attempt (readJSON journalPath dec_journal) (\<lambda>e. ret (Some e)) (\<lambda>journal.
     case validateLeaseJournal c name journal of Some e \<Rightarrow> ret (Some e) | None \<Rightarrow> do {
     child \<leftarrow> os_Lstat (lj_ChildPath journal);
     (case child of
        Inl childErr \<Rightarrow>
          if IsNotExist childErr then
            attempt (os_Lstat (le_MountPath (lj_Lease journal)))
              (\<lambda>mountErr. if \<not> IsNotExist mountErr then ret (Some mountErr) else do {
                 ownerErr \<leftarrow> removeWorkspaceOwner journal;
                 (case ownerErr of
                    Some e \<Rightarrow> if \<not> IsNotExist e then ret (Some e) else removeFileIfExists journalPath
                  | None \<Rightarrow> removeFileIfExists journalPath) })
              (\<lambda>_. ret (Some (Text ''lease child is absent while workspace mount remains'')))
          else ret (Some childErr)
      | Inr _ \<Rightarrow>
          (case lj_Snapshot journal of
             None \<Rightarrow> ret (Some (Text ''partial lease lacks ownership snapshot''))
           | Some snapshot \<Rightarrow>
               attempt (RecoverUnixLease snapshot) (\<lambda>e. ret (Some e)) (\<lambda>lease. do {
               bootID \<leftarrow> gets m_bootID;
               running \<leftarrow> (if lj_BootSessionID journal = bootID then processAlive (lj_ClientPID journal)
                          else ret False);
               if running then
                 check (validateWorkspaceOwner journal) (\<lambda>e. ret (Some e)) (do {
                   modify (\<lambda>m. m\<lparr>m_leases := (m_leases m)(le_LeaseID (lj_Lease journal) \<mapsto> lease)\<rparr>);
                   ret None })
               else
                 check (validateWorkspaceOwner journal) (\<lambda>e. ret (Some e)) (do {
                 ((_, released), _) \<leftarrow> Release False None True lease;
                 check (ret released) (\<lambda>e. ret (Some e)) (
                 check (removeWorkspaceOwner journal) (\<lambda>e. ret (Some e))
                   (removeFileIfExists journalPath)) }) }))) }) }"

fun recover_entries :: "err option \<Rightarrow> (string \<times> node) list \<Rightarrow> err option op" where
  "recover_entries result [] = ret result"
| "recover_entries result ((name, info) # entries) =
     (if is_dir info \<or> Ext name \<noteq> ''.json'' then recover_entries result entries
      else do {
        e \<leftarrow> recover_entry name;
        recover_entries (if e = None then result else join_errs [result, e]) entries })"

definition recover :: "err option op" where
  "recover = do {
     root \<leftarrow> storeRoot;
     attempt (os_ReadDir (Join [root, ''leases''])) (\<lambda>e. ret (Some e)) (recover_entries None) }"

definition probe_run :: "cloneFunc \<Rightarrow> string \<Rightarrow> err option op" where
  "probe_run clone root =
     (let parent = Join [root, ''parent'']; child = Join [root, ''children'', ''probe-child''];
          mount = Join [root, ''mount''] in
      check (os_MkdirAll parent 448) (\<lambda>e. ret (Some e)) (
      check (os_MkdirAll (Dir child) 448) (\<lambda>e. ret (Some e)) (
      check (os_WriteFile (Join [parent, ''probe'']) (Content ''cow-probe'' [None]) 384)
        (\<lambda>e. ret (Some e)) (do {
      (lease, _) \<leftarrow> Acquire clone None
        \<lparr>rq_ParentPath = parent, rq_ChildPath = child, rq_MountPath = mount,
         rq_StoreRoot = Join [root, ''children''], rq_LeaseID = ''probe-lease''\<rparr>;
      (case lease of
         Inl e \<Rightarrow> ret (Some e)
       | Inr l \<Rightarrow> do {
           ((_, e), _) \<leftarrow> Release False None True l;
           ret e }) }))))"

definition probe :: "cloneFunc \<Rightarrow> err option op" where
  "probe clone = do {
     store \<leftarrow> storeRoot;
     let root = Join [store, ''.cow-probe''];
     ignore (os_RemoveAll root) (do {
       r \<leftarrow> probe_run clone root;
       ignore (os_RemoveAll root) (ret r) }) }"

text \<open>The directories of the store, each made and checked to be real.\<close>

fun make_dirs :: "string list \<Rightarrow> err option op" where
  "make_dirs [] = ret None"
| "make_dirs (p # ps) =
     check (os_MkdirAll p 448) (\<lambda>e. ret (Some e)) (
     attempt (os_Lstat p) (\<lambda>_. ret (Some (Text ''unsafe real directory required''))) (\<lambda>info.
     if \<not> is_dir info \<or> is_link info then ret (Some (Text ''unsafe real directory required''))
     else make_dirs ps))"

definition store_dirs :: "Config \<Rightarrow> string list" where
  "store_dirs c = [cf_StoreRoot c, cf_WorkspaceRoot c, Join [cf_StoreRoot c, ''parents''],
     Join [cf_StoreRoot c, ''pending''], Join [cf_StoreRoot c, ''children''],
     Join [cf_StoreRoot c, ''leases''], Join [cf_StoreRoot c, ''quarantine''],
     Join [cf_StoreRoot c, ''receipts'']]"

definition NewManager :: "cloneFunc \<Rightarrow> string \<Rightarrow> string \<Rightarrow> string \<Rightarrow> Config \<Rightarrow> err option op" where
  "NewManager clone provider platform bootID config =
     (case Validate config of
        Some e \<Rightarrow> ret (Some e)
      | None \<Rightarrow> check (make_dirs (store_dirs config)) (\<lambda>e. ret (Some e)) (do {
          let capability = \<lparr>ca_Platform = platform, ca_Provider = provider, ca_ArtifactKind = ''directory'',
                ca_CoWAvailable = False, ca_RequiresElevation = False, ca_Transport = ''unix-socket'',
                ca_Error = None\<rparr>;
          modify (\<lambda>m. m\<lparr>m_config := config, m_provider := provider, m_bootID := bootID,
            m_capability := capability, m_leases := (\<lambda>_. None), m_requests := (\<lambda>_. None),
            m_manualRecovery := False\<rparr>);
          probed \<leftarrow> probe clone;
          modify (\<lambda>m. m\<lparr>m_capability := (case probed of
              Some e \<Rightarrow> capability\<lparr>ca_Error := Some e\<rparr>
            | None \<Rightarrow> capability\<lparr>ca_CoWAvailable := True\<rparr>)\<rparr>);
          recovered \<leftarrow> recover;
          ignore (if recovered \<noteq> None then needs_recovery else skip) (ret None) }))"

section \<open>Handling a request\<close>

definition handle :: "cloneFunc \<Rightarrow> Request \<Rightarrow> Response op" where
  "handle clone request =
     (if q_SchemaVersion request \<noteq> 2 then
        failure request ''unsupported-schema'' (Some (Text ''schemaVersion''))
      else if \<not> is_identifier (q_RequestID request) then
        failure request ''invalid-request'' (Some (Text ''invalid requestId''))
      else if q_Operation request = OperationStatus then status request
      else if q_Operation request = OperationParentBegin then parentBegin request
      else if q_Operation request = OperationParentCommit then parentCommit request
      else if q_Operation request = OperationParentAbort then parentAbort request
      else if q_Operation request = OperationAcquire then do {
        capability \<leftarrow> gets m_capability;
        if \<not> ca_CoWAvailable capability then
          failure request ''cow-unavailable'' (ca_Error capability)
        else acquire clone request }
      else if q_Operation request = OperationRelease then release request
      else failure request ''unknown-operation'' (Some (Text ''operation'')))"

definition Handle :: "cloneFunc \<Rightarrow> Request \<Rightarrow> Response op" where
  "Handle clone request = do {
     prior \<leftarrow> gets (\<lambda>m. m_requests m (q_RequestID request));
     (case prior of
        Some (prior_request, prior_response) \<Rightarrow>
          if prior_request \<noteq> request then
            failure request ''duplicate-request-id''
              (Some (Text ''requestId was already used with a different payload''))
          else ret prior_response
      | None \<Rightarrow> do {
          r \<leftarrow> handle clone request;
          ignore (if q_RequestID request \<noteq> ''''
              then modify (\<lambda>m. m\<lparr>m_requests := (m_requests m)(q_RequestID request \<mapsto> (request, r))\<rparr>)
              else skip)
            (ret r) }) }"

end
