(* ===== verification/Daemon_Confined.thy ===== *)
theory Daemon_Confined
  imports Daemon
begin

text \<open>
  What the daemon may write. Whatever the requests, the journals on disk and the failures,
  a request changes nothing outside the store root except the owner file and the \<open>Library\<close>
  link of workspaces named by valid identifiers; it keeps the configuration, and every lease
  it holds stays inside those paths.
\<close>

section \<open>Paths\<close>

lemma norm_comps_all:
  "list_all P acc \<Longrightarrow> list_all (\<lambda>x. x = '''' \<or> P x) xs \<Longrightarrow> P ''..'' \<Longrightarrow>
   list_all P (norm_comps r acc xs)"
proof (induction r acc xs rule: norm_comps.induct)
  case (1 r acc)
  then show ?case by (simp add: list_all_iff)
next
  case (2 r acc x xs)
  then show ?case by (cases acc) auto
qed

definition plain :: "string \<Rightarrow> bool" where
  "plain x \<longleftrightarrow> x \<noteq> '''' \<and> slash \<notin> set x"

lemma Clean_relative: "\<not> IsAbs s \<Longrightarrow> \<not> IsAbs (Clean s)"
proof -
  assume s: "\<not> IsAbs s"
  have "list_all plain (comps s)"
    unfolding comps_def
    by (rule norm_comps_all) (auto simp: list_all_iff plain_def dest: split_slash_no_slash)
  then have "\<not> IsAbs (intercalate (comps s))"
    by (cases "comps s" rule: intercalate.cases) (auto simp: plain_def neq_Nil_conv)
  with s show ?thesis by (simp add: Clean_def render_def)
qed

lemma Clean_eq_Join:
  assumes "Clean p = Join (a # bs)" and "IsAbs a" and "list_all proper bs"
  shows "IsAbs p" and "comps p = comps a @ bs"
proof -
  show p: "IsAbs p" using assms IsAbs_Join Clean_relative by metis
  show "comps p = comps a @ bs"
    using comps_Clean [OF p] comps_Join [OF assms(2,3)] assms(1) by simp
qed

lemma proper_names [simp]:
  "proper ''parents''" "proper ''pending''" "proper ''children''" "proper ''leases''"
  "proper ''quarantine''" "proper ''receipts''" "proper ''data''" "proper ''publication''"
  "proper ''metadata.json''" "proper ''pending.json''" "proper ''Library''"
  "proper workspaceOwnerFile"
  by (simp_all add: proper_def workspaceOwnerFile_def)

lemma hex_prefix_identifier:
  assumes "list_all hex_char s" and "length s \<le> 100"
  shows "is_identifier (''txn'' @ ''-'' @ s)" "is_identifier (''lease'' @ ''-'' @ s)"
    "is_identifier (''owner'' @ ''-'' @ s)" "is_identifier (''parent-'' @ s)"
proof -
  have "list_all ident_char s"
    using assms(1) hex_char_ident_char by (auto simp: list_all_iff)
  moreover have "list_all ident_char ''xn-''" "alnum (CHR ''t'')" "list_all ident_char ''ease-''"
    "alnum (CHR ''l'')" "list_all ident_char ''wner-''" "alnum (CHR ''o'')"
    "list_all ident_char ''arent-''" "alnum (CHR ''p'')"
    by code_simp+
  ultimately show "is_identifier (''txn'' @ ''-'' @ s)" "is_identifier (''lease'' @ ''-'' @ s)"
    "is_identifier (''owner'' @ ''-'' @ s)" "is_identifier (''parent-'' @ s)"
    using assms(2) by (simp_all add: is_identifier_def)
qed

lemma parentID_identifier: "is_identifier (parentID sha provider key)"
  unfolding parentID_def by (rule hex_prefix_identifier) (simp_all add: hex_encode_hex_chars)

lemma identifier_json_proper [simp]: "is_identifier i \<Longrightarrow> proper (i @ ''.json'')"
  by (rule identifier_proper_suffix) simp_all

lemma quarantine_dest_proper [simp]: "is_identifier i \<Longrightarrow> proper (i @ CHR ''-'' # dec_int t)"
  using dec_int_ident [of t]
  by (intro identifier_proper_suffix) (auto simp: list_all_iff)

section \<open>The scope of the daemon\<close>

definition daemon_scope :: "Config \<Rightarrow> cpath set" where
  "daemon_scope c = {q. prefix q (comps (cf_StoreRoot c))} \<union> subtree (comps (cf_StoreRoot c)) \<union>
     {comps (cf_WorkspaceRoot c) @ [i, x] | i x. is_identifier i \<and> x \<in> {workspaceOwnerFile, ''Library''}}"

definition lease_within :: "Config \<Rightarrow> unixLease \<Rightarrow> bool" where
  "lease_within c l \<longleftrightarrow>
     lease_scope (li_MountPath (ul_info l)) (co_childPath (ul_ownership l)) \<subseteq> daemon_scope c"

definition daemon_inv :: "Config \<Rightarrow> manager \<Rightarrow> bool" where
  "daemon_inv c m \<longleftrightarrow> m_config m = c \<and> (\<forall>i l. m_leases m i = Some l \<longrightarrow> lease_within c l)"

definition daemon_rel :: "Config \<Rightarrow> manager \<Rightarrow> manager \<Rightarrow> bool" where
  "daemon_rel c m m' \<longleftrightarrow> differs (w_fs m) (w_fs m') \<subseteq> daemon_scope c \<and> w_env m' = w_env m \<and>
     m_requests m' = m_requests m"

interpretation dm: invariant_effect "daemon_rel c" "daemon_inv c" for c
proof unfold_locales
  show "daemon_rel c w w" for w by (simp add: daemon_rel_def)
  show "daemon_rel c u w" if "daemon_rel c u v" "daemon_rel c v w" for u v w
    using that differs_trans [of "w_fs u" "w_fs w" "w_fs v"] by (auto simp: daemon_rel_def)
qed

lemma more_same:
  assumes "world.more w' = world.more (w :: manager)"
  shows "m_config w' = m_config w" "m_leases w' = m_leases w" "m_requests w' = m_requests w"
    "m_manualRecovery w' = m_manualRecovery w" "m_capability w' = m_capability w"
    "m_provider w' = m_provider w" "m_bootID w' = m_bootID w"
proof -
  have "w' = w\<lparr>w_fs := w_fs w', w_tick := w_tick w', w_ino := w_ino w', w_env := w_env w'\<rparr>"
    using assms by (intro world.equality) simp_all
  then obtain a b d e where "w' = w\<lparr>w_fs := a, w_tick := b, w_ino := d, w_env := e\<rparr>" by blast
  then show "m_config w' = m_config w" "m_leases w' = m_leases w" "m_requests w' = m_requests w"
    "m_manualRecovery w' = m_manualRecovery w" "m_capability w' = m_capability w"
    "m_provider w' = m_provider w" "m_bootID w' = m_bootID w"
    by simp_all
qed

lemma writes_daemon:
  assumes "writes S w v" and "S \<subseteq> daemon_scope c" and "daemon_inv c w"
  shows "daemon_inv c v \<and> daemon_rel c w v"
proof -
  from assms(1) have m: "world.more v = world.more w" and d: "differs (w_fs w) (w_fs v) \<subseteq> S"
    and e: "w_env v = w_env w"
    by (auto simp: writes_def)
  show ?thesis
    using more_same(1-3) [OF m] d e assms(2,3) by (auto simp: daemon_inv_def daemon_rel_def)
qed

lemma guards_writes:
  assumes "achieves (writes S) Q m" and "S \<subseteq> daemon_scope c"
  shows "guards (daemon_inv c) (daemon_rel c) Q m"
  by (rule guardsI, rule wp_keeps [OF assms(1)]) (blast dest: writes_daemon [OF _ assms(2)])

lemma guards_same: "achieves same Q m \<Longrightarrow> guards (daemon_inv c) (daemon_rel c) Q m"
  by (rule guards_writes [where S = "{}"]) (auto intro: keeps_same_writes)

lemma guards_root:
  "guards (daemon_inv c) (daemon_rel c) Q (k (cf_StoreRoot c)) \<Longrightarrow>
   guards (daemon_inv c) (daemon_rel c) Q (State_Monad.bind storeRoot k)"
  unfolding storeRoot_def
  by (rule dm.inv_bind [where P = "\<lambda>x. x = cf_StoreRoot c"])
    (auto intro!: dm.inv_gets simp: daemon_inv_def)

lemma guards_config:
  "guards (daemon_inv c) (daemon_rel c) Q (k c) \<Longrightarrow>
   guards (daemon_inv c) (daemon_rel c) Q (State_Monad.bind (gets m_config) k)"
  by (rule dm.inv_bind [where P = "\<lambda>x. x = c"]) (auto intro!: dm.inv_gets simp: daemon_inv_def)

lemma guards_needs_recovery: "guarded_by (daemon_inv c) (daemon_rel c) needs_recovery"
  unfolding needs_recovery_def
  by (rule dm.inv_modify) (simp add: daemon_inv_def daemon_rel_def)

lemma guards_failure:
  "guarded_by (daemon_inv c) (daemon_rel c) (failure request code e)"
  "guarded_by (daemon_inv c) (daemon_rel c) (response request)"
  unfolding failure_def response_def by (intro dm.inv_control TrueI)+

text \<open>Operations on one path, or on the subtree of one, inside the store.\<close>

lemma subtree_in_scope: "prefix (comps (cf_StoreRoot c)) p \<Longrightarrow> subtree p \<subseteq> daemon_scope c"
  by (auto simp: daemon_scope_def intro: prefix_order.trans)

lemma in_scope: "prefix (comps (cf_StoreRoot c)) p \<Longrightarrow> p \<in> daemon_scope c"
  by (auto simp: daemon_scope_def)

lemma prefixes_in_scope: "prefix (comps (cf_StoreRoot c)) p \<Longrightarrow> {q. prefix q p} \<subseteq> daemon_scope c"
  using prefix_same_cases by (auto simp: daemon_scope_def) blast

lemma durable_in_scope:
  assumes "IsAbs (cf_StoreRoot c)" and "list_all proper bs" and "bs \<noteq> []"
    and p: "comps p = comps (cf_StoreRoot c) @ bs"
  shows "durable_scope (comps p) \<subseteq> daemon_scope c"
proof -
  have "butlast (comps p) = comps (cf_StoreRoot c) @ butlast bs"
    using assms(3) p by (simp add: butlast_append)
  then have "prefix (comps (cf_StoreRoot c)) q" if "q \<in> durable_scope (comps p)" for q
    using that p by (auto simp: durable_scope_def temp_paths_def dest: append_prefixD)
  then show ?thesis using in_scope by blast
qed

section \<open>Leaves\<close>

lemmas to_guard = guards_writes [OF _ subset_refl]

lemmas guard_leaves =
  keeps_queries [THEN to_guard] keeps_reads [THEN to_guard] keeps_updates [THEN to_guard]
  keeps_renames [THEN to_guard] os_MkdirAll_keeps [THEN to_guard]
  os_RemoveAll_keeps [THEN to_guard] WriteExclusiveDurable_frame [THEN to_guard]
  statfs_free_keeps [THEN to_guard] MeasureDirectoryUsage_frame [THEN to_guard]
  digestTree_keeps [THEN to_guard] since_ms_keeps(1) [THEN to_guard]
  guards_needs_recovery guards_failure

text \<open>Joined paths: absolute, with the components appended.\<close>

lemma Join_store:
  assumes "Validate c = None" and "list_all proper bs"
  shows "IsAbs (Join (cf_StoreRoot c # bs))"
    and "comps (Join (cf_StoreRoot c # bs)) = comps (cf_StoreRoot c) @ bs"
    and "bs \<noteq> [] \<Longrightarrow> target (Join (cf_StoreRoot c # bs))"
proof -
  have "IsAbs (cf_StoreRoot c)" using assms(1) by (auto simp: Validate_def split: if_splits)
  then show "IsAbs (Join (cf_StoreRoot c # bs))"
    and "comps (Join (cf_StoreRoot c # bs)) = comps (cf_StoreRoot c) @ bs"
    and "bs \<noteq> [] \<Longrightarrow> target (Join (cf_StoreRoot c # bs))"
    using assms(2) by (auto intro: IsAbs_Join comps_Join target_Join)
qed

text \<open>A path below the store root, however it is written.\<close>

definition below_store :: "Config \<Rightarrow> string \<Rightarrow> bool" where
  "below_store c p \<longleftrightarrow> IsAbs p \<and> prefix (comps (cf_StoreRoot c)) (comps p)"

lemma below_store_Join:
  "Validate c = None \<Longrightarrow> list_all proper bs \<Longrightarrow> below_store c (Join (cf_StoreRoot c # bs))"
  by (simp add: below_store_def Join_store)

lemma below_store_extend:
  "below_store c p \<Longrightarrow> list_all proper bs \<Longrightarrow> below_store c (Join (p # bs))"
  by (simp add: below_store_def IsAbs_Join comps_Join)

lemma below_store_Clean:
  "Clean p = Join (d # bs) \<Longrightarrow> below_store c d \<Longrightarrow> list_all proper bs \<Longrightarrow> below_store c p"
  using Clean_eq_Join [of p d bs] by (simp add: below_store_def)

lemma below_store_scope:
  assumes "below_store c p"
  shows "comps p \<in> daemon_scope c" "subtree (comps p) \<subseteq> daemon_scope c"
    "{q. prefix q (comps p)} \<subseteq> daemon_scope c"
  using assms subtree_in_scope in_scope prefixes_in_scope by (auto simp: below_store_def)

text \<open>A file strictly below the store root, as the durable writer needs it.\<close>

definition store_file :: "Config \<Rightarrow> string \<Rightarrow> bool" where
  "store_file c p \<longleftrightarrow> target p \<and> strict_prefix (comps (cf_StoreRoot c)) (comps p)"

lemma store_file_Join:
  "below_store c p \<Longrightarrow> list_all proper bs \<Longrightarrow> bs \<noteq> [] \<Longrightarrow> store_file c (Join (p # bs))"
  by (auto simp: below_store_def store_file_def target_Join comps_Join strict_prefix_def prefix_def)

lemma store_file_scope: "store_file c p \<Longrightarrow> durable_scope (comps p) \<subseteq> daemon_scope c"
proof
  fix q
  assume f: "store_file c p" and q: "q \<in> durable_scope (comps p)"
  let ?r = "comps (cf_StoreRoot c)"
  from f obtain bs where bs: "comps p = ?r @ bs" "bs \<noteq> []"
    by (auto simp: store_file_def strict_prefix_def prefix_def)
  then have "butlast (comps p) = ?r @ butlast bs" by (simp add: butlast_append)
  with q bs have "prefix ?r q"
    by (auto simp: durable_scope_def temp_paths_def dest: append_prefixD)
  then show "q \<in> daemon_scope c" by (rule in_scope)
qed

lemma writeJSON_guard:
  "store_file c p \<Longrightarrow> guarded_by (daemon_inv c) (daemon_rel c) (writeJSON p j)"
  unfolding writeJSON_def
  by (intro dm.inv_then_bind guard_leaves guards_writes [OF WriteDurable_frame] store_file_scope)
    (simp_all add: store_file_def)

lemma readJSON_same [eff_intros]: "keeps same (readJSON p dec)"
  unfolding readJSON_def by (intro eff_intros TrueI)

lemma verifyParent_same [eff_intros]: "keeps same (directoryIdentity p)" "keeps same (verifyParent pr)"
  unfolding directoryIdentity_def verifyParent_def by (intro eff_intros TrueI)+

lemma daemon_reads_same [eff_intros]:
  "keeps same storeRoot" "keeps same (current_parentID k)" "keeps same (readParent i)"
  "keeps same (readParentByCompatibility k)" "keeps same (readParentReceipt t)"
  "keeps same (readLease l)" "keeps same (validateWorkspaceOwner j)"
  "keeps same (validateWorkspace a b d)" "keeps same (randomID s)"
  unfolding storeRoot_def current_parentID_def readParent_def readParentByCompatibility_def
    readParentReceipt_def readLease_def validateWorkspaceOwner_def validateWorkspace_def
    randomID_def Let_def
  by (intro eff_intros TrueI)+

lemma measureStatus_same [eff_intros]: "keeps same measureStatus"
  unfolding measureStatus_def by (intro eff_intros TrueI)

lemmas guard_reads = readJSON_same [THEN guards_same] verifyParent_same [THEN guards_same]
  daemon_reads_same [THEN guards_same] measureStatus_same [THEN guards_same]

section \<open>Parent transactions\<close>

abbreviation daemon_safe :: "Config \<Rightarrow> 'a op \<Rightarrow> bool" where
  "daemon_safe c m \<equiv> guarded_by (daemon_inv c) (daemon_rel c) m"

lemma randomID_identifier:
  assumes "p \<in> {''txn'', ''lease'', ''owner''}"
  shows "guards (daemon_inv c) (daemon_rel c)
    (\<lambda>r. case r of Inr s \<Rightarrow> is_identifier s | Inl _ \<Rightarrow> True) (randomID p)"
  unfolding randomID_def
  by (rule dm.inv_attempt [OF guards_writes [OF rand_Read_spec [where S = "{}" and n = 16]]])
    (use assms hex_prefix_identifier in \<open>auto intro!: dm.inv_ret simp: hex_encode_hex_chars\<close>)

lemma guards_randomID:
  assumes "p \<in> {''txn'', ''lease'', ''owner''}" and "\<And>e. guards (daemon_inv c) (daemon_rel c) Q (h e)"
    and "\<And>s. is_identifier s \<Longrightarrow> guards (daemon_inv c) (daemon_rel c) Q (k s)"
  shows "guards (daemon_inv c) (daemon_rel c) Q (attempt (randomID p) h k)"
  by (rule dm.inv_attempt [OF randomID_identifier [OF assms(1)]]) (simp_all add: assms)

lemma quarantineParentID_guard:
  assumes v: "Validate c = None"
  shows "daemon_safe c (quarantineParentID i)"
proof (cases "is_identifier i")
  case True
  have "subtree (comps (Join [cf_StoreRoot c, ''parents'', i])) \<union>
      subtree (comps (Join [cf_StoreRoot c, ''quarantine'', i @ ''-'' @ dec_int t])) \<subseteq> daemon_scope c" for t
    using below_store_scope(2) [OF below_store_Join [OF v, of "[''parents'', i]"]]
      below_store_scope(2) [OF below_store_Join [OF v, of "[''quarantine'', i @ ''-'' @ dec_int t]"]] True
    by simp
  then show ?thesis
    unfolding quarantineParentID_def
    by (intro guards_root dm.inv_then_bind guard_leaves dm.inv_ret TrueI guards_if)
next
  case False
  then show ?thesis by (simp add: quarantineParentID_def dm.inv_ret)
qed

lemma quarantineParent_guard: "Validate c = None \<Longrightarrow> daemon_safe c (quarantineParent p)"
  unfolding quarantineParent_def
  by (intro guards_root guards_if dm.inv_ret quarantineParentID_guard TrueI)

lemma writeParentReceipt_guard:
  "Validate c = None \<Longrightarrow> is_identifier t \<Longrightarrow> daemon_safe c (writeParentReceipt t i)"
  unfolding writeParentReceipt_def
  using store_file_Join [OF below_store_Join [where bs = "[]"], of c "[''receipts'', t @ ''.json'']"]
  by (intro guards_root writeJSON_guard) (simp add: store_file_def Join_store strict_prefix_def)

lemma cleanupPendingTransaction_guard:
  assumes v: "Validate c = None"
  shows "daemon_safe c (cleanupPendingTransaction t)"
proof (cases "is_identifier t")
  case True
  have "subtree (comps (Join [cf_StoreRoot c, ''pending'', t])) \<subseteq> daemon_scope c"
    using below_store_scope(2) [OF below_store_Join [OF v, of "[''pending'', t]"]] True by simp
  then show ?thesis
    unfolding cleanupPendingTransaction_def Let_def
    by (intro guards_root dm.inv_control guard_leaves TrueI inv_intros)
next
  case False
  then show ?thesis by (simp add: cleanupPendingTransaction_def dm.inv_ret)
qed

lemma stage_publication_guard:
  assumes "below_store c staging" and "below_store c publication"
  shows "daemon_safe c (stage_publication staging publication)"
proof -
  have "below_store c (Join [publication, ''data''])"
    using below_store_extend [OF assms(2), of "[''data'']"] by simp
  then have "subtree (comps staging) \<union> subtree (comps (Join [publication, ''data''])) \<subseteq> daemon_scope c"
    using below_store_scope(2) assms(1) by blast
  moreover have "comps publication \<in> daemon_scope c" by (rule below_store_scope [OF assms(2)])
  ultimately show ?thesis
    unfolding stage_publication_def Let_def
    by (intro dm.inv_control guard_leaves TrueI inv_intros)
qed

lemma parentBegin_guard:
  assumes v: "Validate c = None"
  shows "daemon_safe c (parentBegin request)"
proof -
  note below = below_store_Join [OF v]
  have dir: "below_store c (Join [cf_StoreRoot c, ''pending'', t])" if "is_identifier t" for t
    using below [of "[''pending'', t]"] that by simp
  have st: "{q. prefix q (comps (Join [Join [cf_StoreRoot c, ''pending'', t], ''data'']))} \<subseteq> daemon_scope c"
    if "is_identifier t" for t
    using below_store_scope(3) [OF below_store_extend [OF dir [OF that], of "[''data'']"]] by simp
  have pj: "store_file c (Join [Join [cf_StoreRoot c, ''pending'', t], ''pending.json''])"
    if "is_identifier t" for t
    using store_file_Join [OF dir [OF that], of "[''pending.json'']"] by simp
  show ?thesis
    unfolding parentBegin_def Let_def
    by (intro guards_root guards_randomID dm.inv_control guard_leaves guard_reads writeJSON_guard
        quarantineParent_guard quarantineParentID_guard v st pj TrueI inv_intros) simp_all
qed

lemma parentAbort_guard:
  assumes v: "Validate c = None"
  shows "daemon_safe c (parentAbort request)"
proof (cases "is_identifier (q_TransactionID request)")
  case True
  have "subtree (comps (Join [cf_StoreRoot c, ''pending'', q_TransactionID request])) \<subseteq> daemon_scope c"
    using below_store_scope(2) [OF below_store_Join [OF v, of "[''pending'', q_TransactionID request]"]]
      True by simp
  then show ?thesis
    unfolding parentAbort_def Let_def
    by (intro guards_root dm.inv_control guard_leaves guard_reads TrueI inv_intros)
next
  case False
  then show ?thesis by (simp add: parentAbort_def guards_failure)
qed

lemma parentCommit_guard:
  assumes v: "Validate c = None"
  shows "daemon_safe c (parentCommit request)"
proof (cases "is_identifier (q_TransactionID request)")
  case True
  let ?txn = "q_TransactionID request"
  let ?dir = "Join [cf_StoreRoot c, ''pending'', ?txn]"
  let ?pub = "Join [?dir, ''publication'']"
  have dir: "below_store c ?dir" using below_store_Join [OF v, of "[''pending'', ?txn]"] True by simp
  have pub: "below_store c ?pub" using below_store_extend [OF dir, of "[''publication'']"] by simp
  have md: "store_file c (Join [?pub, ''metadata.json''])"
    using store_file_Join [OF pub, of "[''metadata.json'']"] by simp
  have stage: "daemon_safe c (stage_publication p ?pub)" if "Clean p = Join [?dir, ''data'']" for p
    using below_store_Clean [OF that dir] by (intro stage_publication_guard pub) simp
  have pd: "below_store c (Join [cf_StoreRoot c, ''parents'', i])" if "is_identifier i" for i
    using below_store_Join [OF v, of "[''parents'', i]"] that by simp
  have mv: "subtree (comps ?pub) \<union> subtree (comps (Join [cf_StoreRoot c, ''parents'', i])) \<subseteq> daemon_scope c"
    if "is_identifier i" for i
    using below_store_scope(2) [OF pub] below_store_scope(2) [OF pd [OF that]] by blast
  have cid: "guards (daemon_inv c) (daemon_rel c) is_identifier (current_parentID k)" for k
    unfolding current_parentID_def by (intro dm.inv_control guard_leaves parentID_identifier TrueI)
  have id: "daemon_safe c (State_Monad.bind (current_parentID k) g)"
    if "\<And>i. is_identifier i \<Longrightarrow> daemon_safe c (g i)" for k g
    by (rule dm.inv_bind [OF cid that])
  show ?thesis
    unfolding parentCommit_def Let_def
    by (intro guards_root id dm.inv_control guard_leaves guard_reads writeJSON_guard
        quarantineParentID_guard cleanupPendingTransaction_guard writeParentReceipt_guard
        stage v mv md True TrueI inv_intros) simp_all
next
  case False
  then show ?thesis by (simp add: parentCommit_def guards_failure)
qed

section \<open>Leases\<close>

definition lease_paths :: "string \<Rightarrow> string \<Rightarrow> unixLease \<Rightarrow> bool" where
  "lease_paths mount child l \<longleftrightarrow>
     li_MountPath (ul_info l) = mount \<and> co_childPath (ul_ownership l) = child"

lemma lease_paths_within:
  "lease_paths mount child l \<Longrightarrow> lease_scope mount child \<subseteq> daemon_scope c \<Longrightarrow> lease_within c l"
  by (simp add: lease_paths_def lease_within_def)

lemma Acquire_lease_paths:
  "wp (Acquire clone None rq)
     (\<lambda>r v. \<forall>l. fst r = Inr l \<longrightarrow> lease_paths (rq_MountPath rq) (rq_ChildPath rq) l) w"
  by (rule wp_mono [OF Acquire_values]) (auto simp: lease_for_def lease_paths_def)

lemma Release_same_lease:
  "wp (Release bg pr d l) (\<lambda>r v. ul_info (snd r) = ul_info l \<and>
     ul_ownership (snd r) = ul_ownership l) w"
proof (cases "ul_released l")
  case True
  then show ?thesis by (simp add: Release_def wp_ret)
next
  case False
  show ?thesis
    unfolding Release_def Let_def if_not_P [OF False]
    by (rule wp_skip(1), rule wp_skip(2), simp add: wp_ret, rule wp_skip(2), simp add: wp_ret,
        rule wp_skip(1), rule wp_skip(2), simp add: wp_ret, rule wp_skip(2), simp add: wp_ret,
        rule wp_skip(1), rule wp_skip(2), simp add: wp_ret, rule wp_skip(3), simp add: wp_ret,
        rule wp_skip(1), rule wp_skip(2), simp add: wp_ret, rule wp_skip(1), rule wp_skip(1),
        rule wp_skip(2))
      (simp_all add: wp_ret)
qed

lemma achieves_conj_wp:
  assumes "achieves R P m" and "\<And>w. wp m (\<lambda>r v. Q r) w"
  shows "achieves R (\<lambda>r. P r \<and> Q r) m"
proof (rule achieves_if_wp)
  fix w
  show "wp m (\<lambda>r w'. R w w' \<and> P r \<and> Q r) w"
    by (rule wp_mono [OF wp_conj [OF achieves_wp [OF assms(1)] assms(2)]]) simp
qed

lemma Release_guard:
  assumes "lease_within c l"
  shows "guards (daemon_inv c) (daemon_rel c) (\<lambda>r. lease_within c (snd r)) (Release bg None d l)"
proof -
  have "achieves (writes (daemon_scope c)) (\<lambda>r. True \<and> (ul_info (snd r) = ul_info l \<and>
      ul_ownership (snd r) = ul_ownership l)) (Release bg None d l)"
    by (rule achieves_conj_wp [OF Release_frame Release_same_lease])
      (use assms in \<open>simp add: lease_within_def\<close>)
  then have "achieves (writes (daemon_scope c)) (\<lambda>r. lease_within c (snd r)) (Release bg None d l)"
    by (rule achieves_weaken) (use assms in \<open>simp add: lease_within_def\<close>)
  then show ?thesis by (rule to_guard)
qed

lemma Acquire_guard:
  assumes cl: "cloner clone" and abs: "IsAbs (rq_ParentPath rq)" "IsAbs (rq_ChildPath rq)"
    and S: "lease_scope (rq_MountPath rq) (rq_ChildPath rq) \<subseteq> daemon_scope c"
  shows "guards (daemon_inv c) (daemon_rel c)
    (\<lambda>r. \<forall>l. fst r = Inr l \<longrightarrow> lease_within c l) (Acquire clone None rq)"
proof -
  have "achieves (writes (daemon_scope c)) (\<lambda>r. True \<and>
      (\<forall>l. fst r = Inr l \<longrightarrow> lease_paths (rq_MountPath rq) (rq_ChildPath rq) l)) (Acquire clone None rq)"
    by (rule achieves_conj_wp [OF cloner.Acquire_frame [OF cl abs S] Acquire_lease_paths])
  then have "achieves (writes (daemon_scope c)) (\<lambda>r. \<forall>l. fst r = Inr l \<longrightarrow> lease_within c l)
      (Acquire clone None rq)"
    by (rule achieves_weaken) (use S lease_paths_within in auto)
  then show ?thesis by (rule to_guard)
qed

text \<open>The paths of a validated journal, and of the journal \<open>acquire\<close> writes.\<close>

definition journal_within :: "Config \<Rightarrow> leaseJournal \<Rightarrow> bool" where
  "journal_within c j \<longleftrightarrow> comps (owner_path j) \<in> daemon_scope c"

lemma workspace_paths:
  assumes v: "Validate c = None" and i: "is_identifier i"
  shows "IsAbs (Join [cf_WorkspaceRoot c, i])"
    and "comps (Join [Join [cf_WorkspaceRoot c, i], workspaceOwnerFile]) \<in> daemon_scope c"
    and "comps (Join [Join [cf_WorkspaceRoot c, i], ''Library'']) \<in> daemon_scope c"
proof -
  have "IsAbs (cf_WorkspaceRoot c)" using v by (auto simp: Validate_def split: if_splits)
  then show "IsAbs (Join [cf_WorkspaceRoot c, i])"
    and "comps (Join [Join [cf_WorkspaceRoot c, i], workspaceOwnerFile]) \<in> daemon_scope c"
    and "comps (Join [Join [cf_WorkspaceRoot c, i], ''Library'']) \<in> daemon_scope c"
    using i by (auto simp: comps_Join IsAbs_Join daemon_scope_def)
qed

lemma child_scope:
  assumes v: "Validate c = None" and i: "is_identifier i"
    and m: "comps mount \<in> daemon_scope c"
    and ch: "comps child = comps (cf_StoreRoot c) @ [''children'', i]"
  shows "lease_scope mount child \<subseteq> daemon_scope c"
proof -
  have "butlast (comps child) = comps (cf_StoreRoot c) @ [''children'']"
    using ch by (simp add: butlast_append)
  then have "prefix (comps (cf_StoreRoot c)) q" if "q \<in> removal_scope (comps child)" for q
    using that ch by (auto simp: removal_scope_def quarantine_paths_def dest: append_prefixD)
  then show ?thesis using m in_scope by (auto simp: lease_scope_def)
qed

lemma validateLeaseJournal_sound:
  assumes v: "Validate c = None" and j: "validateLeaseJournal c name j = None"
  shows "is_identifier (le_LeaseID (lj_Lease j))" "is_identifier (le_WorkspaceID (lj_Lease j))"
    "name = le_LeaseID (lj_Lease j) @ ''.json''"
    "comps (lj_ChildPath j) = comps (cf_StoreRoot c) @ [''children'', le_LeaseID (lj_Lease j)]"
    "comps (le_WorkspacePath (lj_Lease j)) = comps (cf_WorkspaceRoot c) @ [le_WorkspaceID (lj_Lease j)]"
    "comps (le_MountPath (lj_Lease j)) =
       comps (cf_WorkspaceRoot c) @ [le_WorkspaceID (lj_Lease j), ''Library'']"
    "journal_within c j"
    "\<And>s. lj_Snapshot j = Some s \<Longrightarrow>
       comps (sn_ChildPath s) = comps (cf_StoreRoot c) @ [''children'', le_LeaseID (lj_Lease j)] \<and>
       comps (sn_MountPath s) = comps (cf_WorkspaceRoot c) @ [le_WorkspaceID (lj_Lease j), ''Library'']"
proof -
  let ?l = "lj_Lease j"
  have roots: "IsAbs (cf_StoreRoot c)" "IsAbs (cf_WorkspaceRoot c)"
    using v by (auto simp: Validate_def split: if_splits)
  from j show l: "is_identifier (le_LeaseID ?l)" and w: "is_identifier (le_WorkspaceID ?l)"
    and "name = le_LeaseID ?l @ ''.json''"
    by (auto simp: validateLeaseJournal_def Let_def split: if_splits)
  from j have cl: "Clean (le_WorkspacePath ?l) = Join [cf_WorkspaceRoot c, le_WorkspaceID ?l]"
      "Clean (le_MountPath ?l) = Join [Join [cf_WorkspaceRoot c, le_WorkspaceID ?l], ''Library'']"
      "Clean (lj_ChildPath j) = Join [cf_StoreRoot c, ''children'', le_LeaseID ?l]"
    by (auto simp: validateLeaseJournal_def Let_def split: if_splits)
  have wa: "IsAbs (Join [cf_WorkspaceRoot c, le_WorkspaceID ?l])"
    using workspace_paths [OF v w] by simp
  note mp = comps_Join [OF wa, of "[''Library'']"] comps_Join [OF roots(2), of "[le_WorkspaceID ?l]"]
  show "comps (lj_ChildPath j) = comps (cf_StoreRoot c) @ [''children'', le_LeaseID ?l]"
    using Clean_eq_Join [OF cl(3) roots(1)] l by simp
  show ws: "comps (le_WorkspacePath ?l) = comps (cf_WorkspaceRoot c) @ [le_WorkspaceID ?l]"
    using Clean_eq_Join [OF cl(1) roots(2)] w by simp
  show "comps (le_MountPath ?l) = comps (cf_WorkspaceRoot c) @ [le_WorkspaceID ?l, ''Library'']"
    using Clean_eq_Join [OF cl(2) wa] mp w by simp
  have "IsAbs (le_WorkspacePath ?l)" using Clean_eq_Join [OF cl(1) roots(2)] w by simp
  then show "journal_within c j"
    using ws w by (auto simp: journal_within_def owner_path_def comps_Join daemon_scope_def)
  fix s assume s: "lj_Snapshot j = Some s"
  with j have sc: "Clean (sn_ChildPath s) = Join [cf_StoreRoot c, ''children'', le_LeaseID ?l]"
      "Clean (sn_MountPath s) = Join [Join [cf_WorkspaceRoot c, le_WorkspaceID ?l], ''Library'']"
    by (auto simp: validateLeaseJournal_def Let_def split: if_splits)
  show "comps (sn_ChildPath s) = comps (cf_StoreRoot c) @ [''children'', le_LeaseID ?l] \<and>
      comps (sn_MountPath s) = comps (cf_WorkspaceRoot c) @ [le_WorkspaceID ?l, ''Library'']"
    using Clean_eq_Join [OF sc(1) roots(1)] Clean_eq_Join [OF sc(2) wa] mp w l by simp
qed

end
