(* ===== verification/Daemon_Handle.thy ===== *)
theory Daemon_Handle
  imports Daemon_Confined
begin

text \<open>
  The lease operations, recovery and \<open>Handle\<close> itself stay in the scope of the daemon, and
  the laws of the request history and of admission.
\<close>

section \<open>Lease operations stay in scope\<close>

lemma guards_case_prod_app [inv_intros]:
  "(\<And>a b. x = (a, b) \<Longrightarrow> guards I R Q (k a b y)) \<Longrightarrow>
   guards I R Q ((case x of (a, b) \<Rightarrow> k a b) y)"
  by (cases x) simp

lemma removeWorkspaceOwner_guard: "journal_within c j \<Longrightarrow> daemon_safe c (removeWorkspaceOwner j)"
  unfolding removeWorkspaceOwner_def
  by (intro dm.inv_control guard_reads guard_leaves TrueI guards_writes) (auto simp: journal_within_def intro: keeps_updates)

lemma removeFileIfExists_guard:
  "comps p \<in> daemon_scope c \<Longrightarrow> daemon_safe c (removeFileIfExists p)"
  unfolding removeFileIfExists_def by (intro dm.inv_control guard_leaves TrueI)

lemma writeJSONExclusive_guard:
  "comps p \<in> daemon_scope c \<Longrightarrow> daemon_safe c (writeJSONExclusive p j)"
  unfolding writeJSONExclusive_def by (intro dm.inv_control guard_leaves TrueI)

lemma readParent_path:
  assumes v: "Validate c = None" and i: "is_identifier i"
  shows "guards (daemon_inv c) (daemon_rel c)
    (\<lambda>r. case r of Inr p \<Rightarrow> IsAbs (pr_DataPath p) | Inl _ \<Rightarrow> True) (readParent i)"
proof -
  have root: "IsAbs (cf_StoreRoot c)" using v by (auto simp: Validate_def split: if_splits)
  show ?thesis
    unfolding readParent_def
    by (intro guards_root dm.inv_then_bind dm.inv_then_attempt guard_reads dm.inv_control TrueI)
      (use Clean_eq_Join(1) [OF _ root, of _ "[''parents'', i, ''data'']"] i in auto)
qed

lemma guards_readParent:
  assumes "Validate c = None" and "is_identifier i" and "\<And>e. guards (daemon_inv c) (daemon_rel c) Q (h e)"
    and "\<And>p. IsAbs (pr_DataPath p) \<Longrightarrow> guards (daemon_inv c) (daemon_rel c) Q (k p)"
  shows "guards (daemon_inv c) (daemon_rel c) Q (attempt (readParent i) h k)"
  by (rule dm.inv_attempt [OF readParent_path [OF assms(1,2)]]) (simp_all add: assms)

lemma journal_path_in_scope:
  "Validate c = None \<Longrightarrow> is_identifier i \<Longrightarrow>
   comps (Join [cf_StoreRoot c, ''leases'', i @ ''.json'']) \<in> daemon_scope c"
  using below_store_scope(1) [OF below_store_Join [of c "[''leases'', i @ ''.json'']"]] by simp

lemma journal_path_file:
  "Validate c = None \<Longrightarrow> is_identifier i \<Longrightarrow>
   store_file c (Join [cf_StoreRoot c, ''leases'', i @ ''.json''])"
  by (auto simp: store_file_def Join_store strict_prefix_def)

lemma guards_Release:
  assumes "lease_within c l" and "\<And>r. lease_within c (snd r) \<Longrightarrow> guards (daemon_inv c) (daemon_rel c) Q (k r)"
  shows "guards (daemon_inv c) (daemon_rel c) Q (State_Monad.bind (Release bg None d l) k)"
  by (rule dm.inv_bind [OF Release_guard [OF assms(1)]]) (rule assms(2))

lemma rollbackAcquiredLease_guard:
  assumes "lease_within c l" and "journal_within c j" and "comps p \<in> daemon_scope c"
  shows "daemon_safe c (rollbackAcquiredLease p j l)"
  unfolding rollbackAcquiredLease_def
  by (intro guards_Release assms dm.inv_control guard_leaves removeWorkspaceOwner_guard
      removeFileIfExists_guard TrueI inv_intros)

lemma acquire_failed_guard:
  assumes "journal_within c j" and "comps p \<in> daemon_scope c"
  shows "daemon_safe c (acquire_failed rq p j child mount e)"
  unfolding acquire_failed_def Let_def
  by (intro assms dm.inv_control guard_leaves removeWorkspaceOwner_guard
      removeFileIfExists_guard TrueI inv_intros)

lemma guards_hold:
  assumes "lease_within c l"
  shows "daemon_safe c (modify (\<lambda>m. m\<lparr>m_leases := (m_leases m)(i \<mapsto> l)\<rparr>))"
    "daemon_safe c (modify (\<lambda>m. if b m then m else m\<lparr>m_leases := (m_leases m)(i \<mapsto> l)\<rparr>))"
  by (intro dm.inv_modify; use assms in \<open>simp add: daemon_inv_def daemon_rel_def\<close>)+

lemma guards_drop: "daemon_safe c (modify (\<lambda>m. m\<lparr>m_leases := (m_leases m)(i := None)\<rparr>))"
  by (intro dm.inv_modify) (simp add: daemon_inv_def daemon_rel_def)

lemma release_lease_guard:
  assumes v: "Validate c = None" and i: "is_identifier (q_LeaseID rq)"
    and j: "journal_within c j" and l: "lease_within c l"
  shows "daemon_safe c (release_lease rq j l)"
  unfolding release_lease_def
  by (intro guards_Release guards_hold guards_drop guards_root dm.inv_control guard_reads guard_leaves
      removeWorkspaceOwner_guard removeFileIfExists_guard journal_path_in_scope v i j l TrueI inv_intros)
    simp_all

text \<open>A recovered lease has the paths of its snapshot, which a validated journal confines.\<close>

lemma snapshot_within:
  assumes v: "Validate c = None" and j: "validateLeaseJournal c name j = None"
    and s: "lj_Snapshot j = Some s"
    and l: "SnapshotUnixLease l = s\<lparr>sn_MountMode := m\<rparr>"
      "co_childPath (ul_ownership l) = li_ChildPath (ul_info l)"
  shows "lease_within c l"
proof -
  note sound = validateLeaseJournal_sound [OF v j]
  have p: "li_MountPath (ul_info l) = sn_MountPath s" "co_childPath (ul_ownership l) = sn_ChildPath s"
    using arg_cong [OF l(1), of sn_MountPath] arg_cong [OF l(1), of sn_ChildPath] l(2)
    by (simp_all add: SnapshotUnixLease_def)
  have "comps (sn_MountPath s) \<in> daemon_scope c"
    using sound(2) sound(8) [OF s] by (auto simp: daemon_scope_def)
  then show ?thesis
    unfolding lease_within_def p
    using sound(8) [OF s] by (intro child_scope [OF v sound(1)]) simp_all
qed

lemma guards_recovered:
  assumes v: "Validate c = None" and j: "validateLeaseJournal c name j = None"
    and s: "lj_Snapshot j = Some s"
    and h: "\<And>e. guards (daemon_inv c) (daemon_rel c) Q (h e)"
    and k: "\<And>l. lease_within c l \<Longrightarrow> guards (daemon_inv c) (daemon_rel c) Q (k l)"
  shows "guards (daemon_inv c) (daemon_rel c) Q (attempt (RecoverUnixLease s) h k)"
proof -
  have "achieves same (\<lambda>r. case r of Inr l \<Rightarrow> lease_within c l | Inl _ \<Rightarrow> True) (RecoverUnixLease s)"
    by (rule achieves_if_wp, rule wp_mono [OF RecoverUnixLease_spec])
      (auto split: sum.splits intro!: snapshot_within [OF v j s] simp: lease_ready_def)
  from guards_same [OF this] show ?thesis by (rule dm.inv_attempt) (simp_all add: h k)
qed

lemma readLease_valid:
  "guards (daemon_inv c) (daemon_rel c)
     (\<lambda>r. case r of Inr j \<Rightarrow> validateLeaseJournal c (i @ ''.json'') j = None | Inl _ \<Rightarrow> True) (readLease i)"
  unfolding readLease_def
  by (intro guards_config dm.inv_then_attempt guard_reads dm.inv_ret)
    (auto split: option.splits)

lemma guards_held:
  assumes "\<And>h. (\<And>l. h = Some l \<Longrightarrow> lease_within c l) \<Longrightarrow> guards (daemon_inv c) (daemon_rel c) Q (k h)"
  shows "guards (daemon_inv c) (daemon_rel c) Q (State_Monad.bind (gets (\<lambda>m. m_leases m i)) k)"
  by (rule dm.inv_bind [where P = "\<lambda>h. \<forall>l. h = Some l \<longrightarrow> lease_within c l"])
    (auto intro!: dm.inv_gets assms simp: daemon_inv_def)

lemma release_guard:
  assumes v: "Validate c = None"
  shows "daemon_safe c (release rq)"
proof (cases "is_identifier (q_LeaseID rq)")
  case i: True
  have "daemon_safe c (State_Monad.bind (gets (\<lambda>m. m_leases m (q_LeaseID rq)))
      (\<lambda>held. case (held, lj_Snapshot j) of
        (Some lease, _) \<Rightarrow> release_lease rq j lease
      | (None, Some snapshot) \<Rightarrow> attempt (RecoverUnixLease snapshot)
          (\<lambda>e. ignore needs_recovery (failure rq ''lease-recovery-failed'' (Some e)))
          (release_lease rq j)
      | (None, None) \<Rightarrow> failure rq ''lease-not-active''
          (Some (Text ''lease has no recoverable ownership snapshot''))))"
    if j: "validateLeaseJournal c (q_LeaseID rq @ ''.json'') j = None" for j
  proof (rule guards_held)
    fix held
    assume "\<And>l. held = Some l \<Longrightarrow> lease_within c l"
    then show "daemon_safe c (case (held, lj_Snapshot j) of
        (Some lease, _) \<Rightarrow> release_lease rq j lease
      | (None, Some snapshot) \<Rightarrow> attempt (RecoverUnixLease snapshot)
          (\<lambda>e. ignore needs_recovery (failure rq ''lease-recovery-failed'' (Some e)))
          (release_lease rq j)
      | (None, None) \<Rightarrow> failure rq ''lease-not-active''
          (Some (Text ''lease has no recoverable ownership snapshot'')))"
      using release_lease_guard [OF v i validateLeaseJournal_sound(7) [OF v j]]
      by (cases held; cases "lj_Snapshot j")
        (auto intro!: guards_recovered [OF v j] guards_failure dm.inv_ignore guards_needs_recovery)
  qed
  then show ?thesis
    unfolding release_def using i
    by (auto intro!: dm.inv_attempt [OF readLease_valid] guards_failure)
next
  case False
  then show ?thesis by (simp add: release_def guards_failure)
qed

section \<open>Acquiring\<close>

lemma Acquire_guards:
  assumes v: "Validate c = None" and cl: "cloner clone" and i: "is_identifier i" "is_identifier wi"
    and p: "IsAbs parent"
    and k: "\<And>a r. (\<And>l. a = Inr l \<Longrightarrow> lease_within c l) \<Longrightarrow> guards (daemon_inv c) (daemon_rel c) Q (k a r)"
  shows "guards (daemon_inv c) (daemon_rel c) Q
    (State_Monad.bind (Acquire clone None
       \<lparr>rq_ParentPath = parent, rq_ChildPath = Join [cf_StoreRoot c, ''children'', i],
        rq_MountPath = Join [Join [cf_WorkspaceRoot c, wi], ''Library''],
        rq_StoreRoot = Join [cf_StoreRoot c, ''children''], rq_LeaseID = i\<rparr>)
     (\<lambda>(a, r). k a r))"
proof -
  note ch = Join_store [OF v, of "[''children'', i]"]
  have "guards (daemon_inv c) (daemon_rel c) (\<lambda>r. \<forall>l. fst r = Inr l \<longrightarrow> lease_within c l)
    (Acquire clone None
       \<lparr>rq_ParentPath = parent, rq_ChildPath = Join [cf_StoreRoot c, ''children'', i],
        rq_MountPath = Join [Join [cf_WorkspaceRoot c, wi], ''Library''],
        rq_StoreRoot = Join [cf_StoreRoot c, ''children''], rq_LeaseID = i\<rparr>)"
    using p ch i by (intro Acquire_guard [OF cl])
      (simp_all add: child_scope [OF v i(1) workspace_paths(3) [OF v i(2)]])
  then show ?thesis by (rule dm.inv_bind) (auto intro: k)
qed

lemma acquire_guard:
  assumes v: "Validate c = None" and cl: "cloner clone"
  shows "daemon_safe c (acquire clone rq)"
proof (cases "is_identifier (q_WorkspaceID rq) \<and> is_identifier (q_ParentID rq)")
  case True
  then have w: "is_identifier (q_WorkspaceID rq)" and p: "is_identifier (q_ParentID rq)" by auto
  note ws = workspace_paths [OF v w]
  have jw: "journal_within c j"
    if "le_WorkspacePath (lj_Lease j) = Join [cf_WorkspaceRoot c, q_WorkspaceID rq]" for j
    using ws(2) that by (simp add: journal_within_def owner_path_def)
  show ?thesis
    unfolding acquire_def Let_def
    by (intro guards_readParent guards_config guards_randomID Acquire_guards acquire_failed_guard
        rollbackAcquiredLease_guard guards_hold writeJSONExclusive_guard writeJSON_guard
        removeWorkspaceOwner_guard quarantineParent_guard
        journal_path_in_scope journal_path_file jw ws v cl w p dm.inv_control guard_reads guard_leaves
        TrueI inv_intros) simp_all
next
  case False
  then show ?thesis by (auto simp: acquire_def guards_failure)
qed

section \<open>Recovery and requests\<close>

lemma entry_in_leases:
  assumes "Validate c = None" and "proper name"
  shows "comps (Join [cf_StoreRoot c, ''leases'', name]) \<in> daemon_scope c"
  using below_store_scope(1) [OF below_store_Join [OF assms(1), of "[''leases'', name]"]] assms(2) by simp

lemma processAlive_guard: "daemon_safe c (processAlive pid)"
  unfolding processAlive_def by (intro dm.inv_control guard_leaves TrueI inv_intros)

lemma recover_entry_guard:
  assumes v: "Validate c = None" and n: "proper name"
  shows "daemon_safe c (recover_entry name)"
proof -
  note jp = entry_in_leases [OF v n]
  show ?thesis
    unfolding recover_entry_def Let_def
    by (intro guards_config guards_recovered guards_Release guards_hold
        removeWorkspaceOwner_guard removeFileIfExists_guard validateLeaseJournal_sound(7) jp v
        processAlive_guard dm.inv_control guard_reads guard_leaves TrueI inv_intros)
qed

lemma os_ReadDir_proper:
  "guards (daemon_inv c) (daemon_rel c)
     (\<lambda>r. case r of Inr es \<Rightarrow> \<forall>e \<in> set es. proper (fst e) | Inl _ \<Rightarrow> True) (os_ReadDir p)"
  unfolding os_ReadDir_def
  by (rule guards_writes [where S = "{}"], rule query_frame)
    (auto simp: fs_readdir_def split: option.splits)

lemma recover_entries_guard:
  "Validate c = None \<Longrightarrow> \<forall>e \<in> set es. proper (fst e) \<Longrightarrow> daemon_safe c (recover_entries r es)"
proof (induction r es rule: recover_entries.induct)
  case (2 r name info es)
  then show ?case
    unfolding recover_entries.simps
    by (intro dm.inv_then_bind recover_entry_guard guards_if) auto
qed (simp add: dm.inv_ret)

lemma recover_guard: "Validate c = None \<Longrightarrow> daemon_safe c recover"
  unfolding recover_def
  by (intro guards_root dm.inv_attempt [OF os_ReadDir_proper] dm.inv_ret TrueI)
    (auto intro: recover_entries_guard)

lemma handle_guard:
  assumes "Validate c = None" and "cloner clone"
  shows "daemon_safe c (handle clone rq)"
  unfolding handle_def status_def
  by (intro parentBegin_guard parentCommit_guard parentAbort_guard acquire_guard release_guard assms
      dm.inv_control guard_reads guard_leaves TrueI inv_intros)

lemma Handle_guard:
  assumes "Validate c = None" and "cloner clone" and "daemon_inv c w"
  shows "wp (Handle clone rq) (\<lambda>r v. daemon_inv c v \<and> differs (w_fs w) (w_fs v) \<subseteq> daemon_scope c \<and>
    w_env v = w_env w) w"
proof -
  have "wp (handle clone rq) (\<lambda>r v. daemon_inv c v \<and> daemon_rel c w v) w"
    by (rule wp_mono [OF guardsD [OF handle_guard [OF assms(1,2)] assms(3)]]) simp
  then show ?thesis
    using assms(3)
    by (auto simp: Handle_def failure_def wp_simps daemon_inv_def daemon_rel_def
        split: option.splits elim!: wp_mono)
qed

end
