(* ===== verification/Daemon_Laws.thy ===== *)
theory Daemon_Laws
  imports Daemon_Handle
begin

text \<open>
  What a successful request of the daemon means: the request history is a function of the
  request, a verified parent is the tree that was committed, an acquired lease is ready and
  was admitted by the capacity rule, a released lease is gone, and a restart keeps the leases
  of live clients.
\<close>

section \<open>The request history\<close>

lemma handle_invalid:
  "\<not> is_identifier (q_RequestID rq) \<Longrightarrow> snd (run_state (handle clone rq) w) = w"
  by (simp add: handle_def failure_def)

lemma Handle_again:
  "run_state (Handle clone rq) (snd (run_state (Handle clone rq) w)) = run_state (Handle clone rq) w"
proof (cases "m_requests w (q_RequestID rq)")
  case (Some p)
  then show ?thesis
    by (cases p) (simp add: Handle_def failure_def)
next
  case None
  obtain r v where run: "run_state (handle clone rq) w = (r, v)" by fastforce
  show ?thesis
  proof (cases "q_RequestID rq = ''''")
    case True
    then have "v = w" using handle_invalid [of rq clone w] run by (simp add: is_identifier_def)
    with True None run show ?thesis by (simp add: Handle_def run_ignore)
  next
    case False
    with None run show ?thesis by (simp add: Handle_def run_ignore)
  qed
qed

lemma Handle_other_payload:
  assumes "m_requests w (q_RequestID rq) = Some (old, r)" and "old \<noteq> rq"
  shows "snd (run_state (Handle clone rq) w) = w"
    and "\<not> rs_OK (fst (run_state (Handle clone rq) w))"
  using assms by (simp_all add: Handle_def failure_def)

lemma Handle_history:
  assumes "Validate c = None" and "cloner clone" and "daemon_inv c w"
    and h: "m_requests w i = Some x"
  shows "m_requests (snd (run_state (Handle clone rq) w)) i = Some x"
proof (cases "m_requests w (q_RequestID rq)")
  case (Some p)
  with h show ?thesis by (cases p) (simp add: Handle_def failure_def)
next
  case None
  obtain r v where run: "run_state (handle clone rq) w = (r, v)" by fastforce
  have "m_requests v = m_requests w"
    using guards_run [OF handle_guard [OF assms(1,2)] assms(3) run] by (simp add: daemon_rel_def)
  moreover have "i \<noteq> q_RequestID rq" using None h by auto
  ultimately show ?thesis using None run h by (simp add: Handle_def run_ignore)
qed

text \<open>A failure never claims success, and changes nothing.\<close>

lemma failure_spec: "wp (failure rq code e) (\<lambda>r v. \<not> rs_OK r \<and> v = w) w"
  by (simp add: failure_def wp_simps)

lemma response_spec:
  "wp (response rq) (\<lambda>r v. v = w \<and> r = zero_response\<lparr>rs_SchemaVersion := 2, rs_RequestID := q_RequestID rq,
     rs_OK := True, rs_Provider := m_provider w\<rparr>) w"
  by (simp add: response_def wp_simps)

section \<open>Verified parents\<close>

definition intact :: "parentRecord \<Rightarrow> env \<Rightarrow> fsys \<Rightarrow> bool" where
  "intact p e f \<longleftrightarrow>
     (\<exists>n. lookup f (comps (pr_DataPath p)) = Some n \<and> is_dir n \<and> n_ino n = pr_Inode p) \<and>
     e_dev e = pr_Device p \<and> pa_Immutable (pr_Parent p) \<and>
     pa_ContentDigest (pr_Parent p) =
       hex_encode (e_sha256 e (digest_stream (tree_items (pr_DataPath p) f))) \<and>
     pa_LogicalBytes (pr_Parent p) = items_size (tree_items (pr_DataPath p) f)"

lemma directoryIdentity_spec:
  "wp (directoryIdentity p) (\<lambda>r v. same w v \<and> (\<forall>d i. r = Inr (d, i) \<longrightarrow> d = e_dev (w_env w) \<and>
     (\<exists>n. lookup (w_fs w) (comps p) = Some n \<and> is_dir n \<and> n_ino n = i))) w"
  unfolding directoryIdentity_def
  by (rule wp_attemptI [OF os_read_specs(1)])
    (auto simp: wp_simps env_get_def same_def fs_lstat_def split: option.splits)

lemma digestTree_full:
  "wp (digestTree root) (\<lambda>r v. same w v \<and> (\<forall>d l. r = Inr (d, l) \<longrightarrow>
     d = hex_encode (e_sha256 (w_env w) (digest_stream (tree_items root (w_fs w)))) \<and>
     l = items_size (tree_items root (w_fs w)))) w"
  by (rule wp_mono [OF wp_conj [OF achieves_wp [OF digestTree_same] digestTree_spec]]) simp

lemma verifyParent_spec:
  "wp (verifyParent p) (\<lambda>r v. same w v \<and> (r = None \<longrightarrow> intact p (w_env w) (w_fs w))) w"
  unfolding verifyParent_def
proof (rule wp_attemptI [OF directoryIdentity_spec], goal_cases)
  case (2 x v)
  obtain d i where x: "x = (d, i)" by fastforce
  with 2 have v: "same w v" "d = e_dev (w_env w)"
      "\<exists>n. lookup (w_fs w) (comps (pr_DataPath p)) = Some n \<and> is_dir n \<and> n_ino n = i" by auto
  have "wp (attempt (digestTree (pr_DataPath p)) (\<lambda>e. ret (Some e)) (\<lambda>(digest, logical).
     if digest \<noteq> pa_ContentDigest (pr_Parent p) \<or> logical \<noteq> pa_LogicalBytes (pr_Parent p) \<or>
        \<not> pa_Immutable (pr_Parent p) then
       ret (Some (Text ''committed parent content changed''))
     else ret None)) (\<lambda>r u. same v u \<and> (r = None \<longrightarrow> pa_Immutable (pr_Parent p) \<and>
       pa_ContentDigest (pr_Parent p) =
         hex_encode (e_sha256 (w_env v) (digest_stream (tree_items (pr_DataPath p) (w_fs v)))) \<and>
       pa_LogicalBytes (pr_Parent p) = items_size (tree_items (pr_DataPath p) (w_fs v)))) v"
    by (rule wp_attemptI [OF digestTree_full]) (auto simp: wp_simps)
  then show ?case
    using v unfolding x by (auto simp: wp_ret intact_def same_def elim!: wp_mono)
qed (simp add: wp_ret)

text \<open>
  Two states in which a parent verifies hold the same tree: names, modes and bytes. The hash
  is a parameter, so this is stated for streams it does not confuse.
\<close>

lemma intact_same_tree:
  assumes "intact p e f" and "intact p e g"
    and "e_sha256 e (digest_stream (tree_items (pr_DataPath p) f)) =
         e_sha256 e (digest_stream (tree_items (pr_DataPath p) g)) \<Longrightarrow>
         digest_stream (tree_items (pr_DataPath p) f) = digest_stream (tree_items (pr_DataPath p) g)"
    and "list_all item_bounded (tree_items (pr_DataPath p) f)"
    and "list_all item_bounded (tree_items (pr_DataPath p) g)"
  shows "tree_items (pr_DataPath p) f = tree_items (pr_DataPath p) g"
  using assms hex_encode_inj concat_items_inj
  by (auto simp: intact_def digest_stream_def)

section \<open>Capacity\<close>

text \<open>The bytes allocated below a root: every regular file's blocks.\<close>

definition add_usage :: "env \<Rightarrow> fsys \<Rightarrow> err + usage \<Rightarrow> cpath \<Rightarrow> err + usage" where
  "add_usage e f r q = (case r of Inl x \<Rightarrow> Inl x | Inr u \<Rightarrow> usage_visit e q (fs_lstat q f) u)"

definition usage_of :: "string \<Rightarrow> env \<Rightarrow> fsys \<Rightarrow> err + usage" where
  "usage_of root e f =
     foldl (add_usage e f) (Inr \<lparr>u_LogicalBytes = 0, u_AllocatedBytes = 0\<rparr>) (below (comps root) f)"

lemma walk_usage_spec:
  "wp (walk_list (\<lambda>q r u. ret (usage_visit e q r u)) acc qs)
     (\<lambda>r v. same w v \<and> (\<forall>u. r = Inr u \<longrightarrow> foldl (add_usage e (w_fs w)) (Inr acc) qs = Inr u)) w"
proof (induction qs arbitrary: acc w)
  case Nil
  show ?case by (simp add: wp_simps)
next
  case (Cons q qs)
  show ?case
    unfolding walk_list.simps
  proof (rule wp_bindI [OF query_spec], rule wp_attemptI [where P = "\<lambda>r v. same w v \<and>
        (\<forall>u. r = Inr u \<longrightarrow> usage_visit e q (fs_lstat q (w_fs w)) acc = Inr u)"], goal_cases)
    case (1 n v)
    then show ?case by (auto simp: wp_simps usage_visit_def)
  next
    case (2 n v err u)
    then show ?case by (simp add: wp_ret)
  next
    case (3 n v acc' u)
    then show ?case
      by (intro wp_mono [OF Cons.IH]) (auto simp: same_def add_usage_def)
  qed
qed

lemma MeasureDirectoryUsage_spec:
  "wp (MeasureDirectoryUsage root)
     (\<lambda>r v. same w v \<and> (\<forall>u. r = Inr u \<longrightarrow> usage_of root (w_env w) (w_fs w) = Inr u)) w"
proof -
  let ?e = "w_env w" and ?z = "\<lparr>u_LogicalBytes = 0, u_AllocatedBytes = 0\<rparr>"
  have "wp (WalkDir root (\<lambda>q r u. ret (usage_visit ?e q r u)) ?z)
     (\<lambda>r v. same w v \<and> (\<forall>u. r = Inr u \<longrightarrow> usage_of root ?e (w_fs w) = Inr u)) w"
    unfolding WalkDir_def
  proof (rule wp_bindI [OF os_read_specs(1)], goal_cases)
    case (1 r v)
    then have v: "w_fs v = w_fs w" "same w v" by (simp_all add: same_def)
    then have "wp (walk_list (\<lambda>q r u. ret (usage_visit ?e q r u)) ?z (below (comps root) (w_fs v)))
        (\<lambda>r u. same w u \<and> (\<forall>x. r = Inr x \<longrightarrow> usage_of root ?e (w_fs w) = Inr x)) v"
      by (intro wp_mono [OF walk_usage_spec]) (auto simp: usage_of_def intro: same_trans)
    with v(2) show ?case by (cases r) (auto simp: wp_simps usage_visit_def)
  qed
  then show ?thesis by (simp add: MeasureDirectoryUsage_def wp_simps env_get_def)
qed

text \<open>What was measured when a request was admitted.\<close>

definition measured :: "Config \<Rightarrow> env \<Rightarrow> fsys \<Rightarrow> Status \<Rightarrow> bool" where
  "measured c e f s \<longleftrightarrow> (\<exists>u t. usage_of (cf_StoreRoot c) e f = Inr u \<and>
     st_AllocatedBytes s = u_AllocatedBytes u \<and> st_HostFreeBytes s = e_free e t)"

end
