(* ===== verification/Daemon_Leases.thy ===== *)
theory Daemon_Leases
  imports Daemon_Laws
begin

text \<open>
  What a successful \<open>acquire\<close> and a successful \<open>release\<close> leave behind. An acquired lease is
  ready (its child is the owned clone, its mount links to it), it is held by the manager, it
  was admitted by the capacity rule on an intact parent, and its journal is one that a later
  \<open>recover\<close> accepts.
\<close>

section \<open>Answers that are not OK\<close>

definition refuses :: "Response op \<Rightarrow> bool" where
  "refuses m \<longleftrightarrow> (\<forall>w. wp m (\<lambda>r _. \<not> rs_OK r) w)"

lemma refuses_failure: "refuses (failure rq code e)"
  unfolding refuses_def by (intro allI wp_mono [OF failure_spec]) simp

lemma refuses_bind: "(\<And>x. refuses (k x)) \<Longrightarrow> refuses (State_Monad.bind m k)"
  unfolding refuses_def by (intro allI wp_skip(1)) simp

lemma refuses_ignore: "refuses k \<Longrightarrow> refuses (ignore m k)"
  unfolding ignore_def by (rule refuses_bind)

lemmas refusing = refuses_ignore refuses_bind refuses_failure

lemma wp_refuses: "refuses m \<Longrightarrow> wp m (\<lambda>r v. rs_OK r \<longrightarrow> P r v) w"
  unfolding refuses_def by (rule wp_mono [where P = "\<lambda>r _. \<not> rs_OK r"]) simp_all

section \<open>Journals that recovery accepts\<close>

lemma acquired_journal_valid:
  assumes v: "Validate c = None"
    and ids: "is_identifier i" "is_identifier (le_ConsumerID (lj_Lease j))" "is_identifier wi"
      "is_identifier pid" "is_identifier (lj_OwnerToken j)"
    and j: "lj_SchemaVersion j = 2" "le_LeaseID (lj_Lease j) = i" "le_WorkspaceID (lj_Lease j) = wi"
      "le_ParentID (lj_Lease j) = pid" "lj_BootSessionID j \<noteq> ''''"
      "le_WorkspacePath (lj_Lease j) = Join [cf_WorkspaceRoot c, wi]"
      "le_MountPath (lj_Lease j) = Join [Join [cf_WorkspaceRoot c, wi], ''Library'']"
      "lj_ChildPath j = Join [cf_StoreRoot c, ''children'', i]"
      "lj_Snapshot j = Some (SnapshotUnixLease l)"
    and l: "lease_for \<lparr>rq_ParentPath = parent, rq_ChildPath = Join [cf_StoreRoot c, ''children'', i],
        rq_MountPath = Join [Join [cf_WorkspaceRoot c, wi], ''Library''],
        rq_StoreRoot = Join [cf_StoreRoot c, ''children''], rq_LeaseID = i\<rparr> l"
    and p: "Clean parent = Join [cf_StoreRoot c, ''parents'', pid, ''data'']"
  shows "validateLeaseJournal c (i @ ''.json'') j = None"
proof -
  have roots: "IsAbs (cf_StoreRoot c)" "IsAbs (cf_WorkspaceRoot c)"
    using v by (auto simp: Validate_def split: if_splits)
  have wa: "IsAbs (Join [cf_WorkspaceRoot c, wi])" using workspace_paths(1) [OF v ids(3)] .
  have clean: "Clean (Join [cf_WorkspaceRoot c, wi]) = Join [cf_WorkspaceRoot c, wi]"
    "Clean (Join [Join [cf_WorkspaceRoot c, wi], ''Library'']) = Join [Join [cf_WorkspaceRoot c, wi], ''Library'']"
    "Clean (Join [cf_StoreRoot c, ''children'', i]) = Join [cf_StoreRoot c, ''children'', i]"
    "Clean (Join [cf_StoreRoot c, ''children'']) = Join [cf_StoreRoot c, ''children'']"
    using ids(1,3) by (intro Join_Clean roots wa; simp)+
  show ?thesis
    using ids j l p
    by (simp add: validateLeaseJournal_def Let_def SnapshotUnixLease_def lease_for_def clean)
qed

section \<open>The child, the mount and the journal are apart\<close>

lemma lease_ready_frame:
  assumes "writes S w v" and "lease_ready l (w_env w) (w_fs w)"
    and "S \<inter> subtree (comps (li_ChildPath (ul_info l))) = {}" and "comps (li_MountPath (ul_info l)) \<notin> S"
  shows "lease_ready l (w_env v) (w_fs v)"
  using assms(2) owned_at_frame [OF assms(1,3)] writes_lookup [OF assms(1,4)]
  by (simp add: lease_ready_def link_at_def)

lemma not_above:
  "\<not> prefix s w \<Longrightarrow> \<not> prefix (s @ [a, b]) (w @ [x, y])"
proof
  assume "\<not> prefix s w" and p: "prefix (s @ [a, b]) (w @ [x, y])"
  moreover from p have "prefix s (w @ [x, y])" by (rule append_prefixD)
  moreover have "length s \<le> length w" using prefix_length_le [OF p] by simp
  ultimately show False using prefix_length_prefix [of s "w @ [x, y]" w] by simp
qed

lemma journal_scope_apart:
  assumes "\<not> prefix s w" and "comps jp = s @ [''leases'', x]"
  shows "durable_scope (comps jp) \<inter> subtree (s @ [''children'', i]) = {}"
    and "w @ [y, z] \<notin> durable_scope (comps jp)"
proof -
  have b: "\<exists>t. prefix (s @ [''leases'', t]) q" if "q \<in> durable_scope (comps jp)" for q
    using that assms(2) by (auto simp: durable_scope_def temp_paths_def butlast_append)
  have "\<not> (prefix (s @ [''leases'', t]) q \<and> prefix (s @ [''children'', i]) q)" for t q
    using prefix_same_cases [of "s @ [''leases'', t]" q "s @ [''children'', i]"] by auto
  with b show "durable_scope (comps jp) \<inter> subtree (s @ [''children'', i]) = {}"
    by (intro equals0I) (auto dest!: b)
  show "w @ [y, z] \<notin> durable_scope (comps jp)"
    using b not_above [OF assms(1)] by blast
qed

section \<open>Acquire\<close>

definition granted :: "Config \<Rightarrow> Request \<Rightarrow> env \<Rightarrow> fsys \<Rightarrow> Response \<Rightarrow> manager \<Rightarrow> bool" where
  "granted c rq e f r v \<longleftrightarrow> (\<exists>lease l j s p x.
     rs_Lease r = Some l \<and> rs_Parent r = Some (pr_Parent p) \<and>
     pa_ParentID (pr_Parent p) = q_ParentID rq \<and> intact p e f \<and>
     measured c e f s \<and>
     \<not> capacity_exceeded c (q_Limits rq) (st_AllocatedBytes s) (st_HostFreeBytes s) \<and>
     m_leases v (le_LeaseID l) = Some lease \<and> lease_ready lease (w_env v) (w_fs v) \<and>
     lj_Lease j = l \<and> lj_Snapshot j = Some (SnapshotUnixLease lease) \<and>
     validateLeaseJournal c (le_LeaseID l @ ''.json'') j = None \<and>
     holds_file (comps (Join [cf_StoreRoot c, ''leases'', le_LeaseID l @ ''.json'']))
       (json_content x True (enc_journal j)) 384 (w_fs v))"

lemma measureStatus_spec:
  "wp measureStatus (\<lambda>r v. same w v \<and> (\<forall>s. r = Inr s \<longrightarrow> measured (m_config w) (w_env w) (w_fs w) s)) w"
proof -
  let ?c = "m_config w"
  have fr: "wp statfs_free (\<lambda>r v. same u v \<and> (\<forall>x. r = Inr x \<longrightarrow> (\<exists>t. x = e_free (w_env u) t))) u"
    for u :: manager
    by (auto simp: statfs_free_def wp_simps)
  have still: "wp m (\<lambda>_ v. same w v) u" if "same w u" "keeps same m" for u and m :: "'q op"
    by (rule wp_keeps [OF that(2)]) (use that(1) in \<open>auto intro: same_trans\<close>)
  have US: "wp (MeasureDirectoryUsage (cf_StoreRoot ?c)) (\<lambda>r v. same w v \<and>
      (\<forall>u. r = Inr u \<longrightarrow> usage_of (cf_StoreRoot ?c) (w_env w) (w_fs w) = Inr u)) w"
    by (rule MeasureDirectoryUsage_spec)
  show ?thesis
    unfolding measureStatus_def storeRoot_def
    apply (subst wp_bind, subst wp_gets)
    apply (rule wp_attemptI [OF US], simp add: wp_ret)
    apply (rule wp_attemptI [OF fr], simp add: wp_ret, meson same_trans)
    apply (rule wp_attemptI [OF still], meson same_trans, rule eff_intros, simp add: wp_ret)+
    apply (auto simp: wp_simps measured_def same_def)
    done
qed

lemma readParent_spec:
  "wp (readParent i) (\<lambda>r v. same w v \<and> (\<forall>p. r = Inr p \<longrightarrow> pa_ParentID (pr_Parent p) = i \<and>
     Clean (pr_DataPath p) = Join [cf_StoreRoot (m_config w), ''parents'', i, ''data''])) w"
proof -
  have rj: "wp (readJSON p dec) (\<lambda>r v. same w v) w" for p and dec :: "json \<Rightarrow> parentRecord option"
    by (rule wp_keeps [OF readJSON_same])
  show ?thesis
    unfolding readParent_def storeRoot_def
    by (simp add: wp_bind wp_gets, rule wp_attemptI [OF rj]) (auto simp: wp_ret)
qed

lemma randomID_spec:
  assumes "p \<in> {''txn'', ''lease'', ''owner''}"
  shows "wp (randomID p) (\<lambda>r v. same w v \<and> (\<forall>s. r = Inr s \<longrightarrow> is_identifier s)) w"
  unfolding randomID_def
  by (rule wp_attemptI [where P = "\<lambda>r v. same w v \<and> (\<forall>s. r = Inr s \<longrightarrow> length s = 16)"])
    (use assms hex_prefix_identifier in \<open>auto simp: rand_Read_def wp_simps hex_encode_hex_chars\<close>)

text \<open>The last steps: the journal of the ready lease, the manager's table and the answer.\<close>

lemma acquire_tail:
  assumes jp: "target jp" and ready: "lease_ready lease (w_env u) (w_fs u)"
    and apart: "durable_scope (comps jp) \<inter> subtree (comps (li_ChildPath (ul_info lease))) = {}"
      "comps (li_MountPath (ul_info lease)) \<notin> durable_scope (comps jp)"
  shows "wp (check (writeJSON jp (enc_journal j))
       (\<lambda>e. do {
          rb \<leftarrow> rollbackAcquiredLease jp j lease;
          failure rq ''journal-write-failed'' (join_errs [Some e, rb]) }) (do {
     modify (\<lambda>m. m\<lparr>m_leases := (m_leases m)(i \<mapsto> lease)\<rparr>);
     elapsed \<leftarrow> since_ms started;
     r \<leftarrow> response rq;
     ret (r\<lparr>rs_Parent := Some par, rs_Lease := Some (lj_Lease j), rs_Metrics := Some (ms elapsed)\<rparr>) }))
   (\<lambda>r v. rs_OK r \<longrightarrow> rs_Lease r = Some (lj_Lease j) \<and> rs_Parent r = Some par \<and>
      m_leases v i = Some lease \<and> lease_ready lease (w_env v) (w_fs v) \<and>
      (\<exists>x. holds_file (comps jp) (json_content x True (enc_journal j)) 384 (w_fs v))) u"
    (is "wp _ ?Q u")
proof -
  let ?P = "\<lambda>v. lease_ready lease (w_env v) (w_fs v) \<and>
      (\<exists>x. holds_file (comps jp) (json_content x True (enc_journal j)) 384 (w_fs v))"
  have w: "wp (writeJSON jp (enc_journal j)) (\<lambda>r v. r = None \<longrightarrow> ?P v) u"
  proof -
    have "wp (WriteDurable jp (json_content x True (enc_journal j)) 384) (\<lambda>r v. r = None \<longrightarrow> ?P v) u" for x
      by (rule wp_mono [OF wp_conj [OF WriteDurable_success [OF jp] achieves_wp [OF WriteDurable_frame [OF jp]]]])
        (use lease_ready_frame [OF _ ready apart] in blast)
    then show ?thesis by (simp add: writeJSON_def wp_bind env_get_def wp_gets)
  qed
  show ?thesis
  proof (rule wp_checkI [OF w], goal_cases)
    case (1 e v)
    show ?case by (rule wp_refuses) (intro refusing)
  next
    case (2 v)
    let ?v = "v\<lparr>m_leases := (m_leases v)(i \<mapsto> lease)\<rparr>"
    have "wp (since_ms started) (\<lambda>_ x. ?P x \<and> m_leases x i = Some lease) ?v"
      by (rule wp_keeps [OF since_ms_keeps(2)])
        (use 2 in \<open>auto simp: same_def dest: more_same(2)\<close>)
    then show ?case
      by (auto simp: wp_bind wp_modify response_def wp_gets wp_ret elim!: wp_mono)
  qed
qed

definition unmoved :: "manager \<Rightarrow> manager \<Rightarrow> bool" where
  "unmoved w v \<longleftrightarrow> w_env v = w_env w \<and> world.more v = world.more w"

lemma unmoved_same: "same w v \<Longrightarrow> unmoved w v"
  by (simp add: unmoved_def same_def)

lemma unmoved_step:
  assumes "achieves (writes S) Q m" and "unmoved w u"
  shows "wp m (\<lambda>r v. unmoved w v \<and> Q r) u"
  by (rule wp_mono [OF achieves_wp [OF assms(1)]]) (use assms(2) in \<open>simp add: unmoved_def writes_def\<close>)

lemma writeJSON_frame: "target p \<Longrightarrow> keeps (writes (durable_scope (comps p))) (writeJSON p j)"
  unfolding writeJSON_def by (intro eff_intros WriteDurable_frame TrueI)

lemma writeJSONExclusive_frame: "keeps (writes {comps p}) (writeJSONExclusive p j)"
  unfolding writeJSONExclusive_def by (intro eff_intros TrueI) simp

text \<open>The backend's acquire, for the paths the daemon gives it.\<close>

lemma backend_acquire:
  assumes v: "Validate c = None" and cl: "cloner clone" and ids: "is_identifier i" "is_identifier wi"
    and out: "\<not> prefix (comps (cf_StoreRoot c)) (comps (cf_WorkspaceRoot c))"
    and p: "IsAbs parent" and u: "unmoved w u"
    and rq: "rq = \<lparr>rq_ParentPath = parent, rq_ChildPath = Join [cf_StoreRoot c, ''children'', i],
        rq_MountPath = Join [Join [cf_WorkspaceRoot c, wi], ''Library''],
        rq_StoreRoot = Join [cf_StoreRoot c, ''children''], rq_LeaseID = i\<rparr>"
  shows "wp (Acquire clone None rq) (\<lambda>r x. unmoved w x \<and> (\<forall>l. fst r = Inr l \<longrightarrow> lease_for rq l \<and>
     lease_ready l (w_env x) (w_fs x))) u"
proof -
  have ws: "IsAbs (Join [cf_WorkspaceRoot c, wi])" by (rule workspace_paths(1) [OF v ids(2)])
  have wr: "IsAbs (cf_WorkspaceRoot c)" using v by (auto simp: Validate_def split: if_splits)
  have ch: "IsAbs (Join [cf_StoreRoot c, ''children'', i])"
    "comps (Join [cf_StoreRoot c, ''children'', i]) = comps (cf_StoreRoot c) @ [''children'', i]"
    using Join_store [OF v, of "[''children'', i]"] ids(1) by simp_all
  have mt: "comps (Join [Join [cf_WorkspaceRoot c, wi], ''Library'']) = comps (cf_WorkspaceRoot c) @ [wi, ''Library'']"
    using comps_Join [OF ws, of "[''Library'']"] comps_Join [OF wr, of "[wi]"] ids(2) by simp
  have "comps (rq_MountPath rq) \<notin> subtree (comps (rq_ChildPath rq))"
    using not_above [OF out] ch(2) mt by (simp add: rq)
  note ok = Acquire_success [OF this, of clone]
  have "keeps (writes UNIV) (Acquire clone None rq)"
    by (rule cloner.Acquire_frame [OF cl]) (simp_all add: rq p ch)
  from wp_conj [OF unmoved_step [OF this u] wp_conj [OF ok Acquire_values [of clone]]] show ?thesis
    by (rule wp_mono) auto
qed

lemma refuses_acquire_failed: "refuses (acquire_failed rq jp j ch mt e)"
  unfolding acquire_failed_def Let_def by (intro refusing)

lemma acquire_granted:
  fixes u w :: manager
  assumes v: "Validate c = None" and cl: "cloner clone"
    and ids: "is_identifier i" "is_identifier (q_ConsumerID rq)" "is_identifier (q_WorkspaceID rq)"
      "is_identifier (q_ParentID rq)" "is_identifier token"
    and out: "\<not> prefix (comps (cf_StoreRoot c)) (comps (cf_WorkspaceRoot c))"
    and u: "unmoved w u" and boot: "boot \<noteq> ''''"
    and p: "intact p (w_env w) (w_fs w)" "pa_ParentID (pr_Parent p) = q_ParentID rq"
      "Clean (pr_DataPath p) = Join [cf_StoreRoot c, ''parents'', q_ParentID rq, ''data'']"
    and s: "measured c (w_env w) (w_fs w) s"
      "\<not> capacity_exceeded c (q_Limits rq) (st_AllocatedBytes s) (st_HostFreeBytes s)"
    and ws: "ws = Join [cf_WorkspaceRoot c, q_WorkspaceID rq]"
    and jp: "jp = Join [cf_StoreRoot c, ''leases'', i @ ''.json'']"
    and j: "j = \<lparr>lj_SchemaVersion = 2,
           lj_Lease = \<lparr>le_LeaseID = i, le_ConsumerID = q_ConsumerID rq,
              le_WorkspaceID = q_WorkspaceID rq, le_ParentID = q_ParentID rq,
              le_WorkspacePath = ws, le_MountPath = Join [ws, ''Library''],
              le_State = st, le_CreatedAt = created\<rparr>,
           lj_ChildPath = Join [cf_StoreRoot c, ''children'', i], lj_ClientPID = q_ClientPID rq,
           lj_BootSessionID = boot, lj_OwnerToken = token, lj_Snapshot = None, lj_UpdatedAt = updated\<rparr>"
  shows "wp (State_Monad.bind (Acquire clone None
       \<lparr>rq_ParentPath = pr_DataPath p, rq_ChildPath = Join [cf_StoreRoot c, ''children'', i],
        rq_MountPath = Join [ws, ''Library''],
        rq_StoreRoot = Join [cf_StoreRoot c, ''children''], rq_LeaseID = i\<rparr>)
     (\<lambda>(acquired, raw). case acquired of
        Inl e \<Rightarrow> acquire_failed rq jp j (Join [cf_StoreRoot c, ''children'', i]) (Join [ws, ''Library'']) e
      | Inr lease \<Rightarrow> do {
     ready \<leftarrow> time_Now;
     check (writeJSON jp (enc_journal (j\<lparr>lj_Lease := (lj_Lease j)\<lparr>le_State := ''ready''\<rparr>,
                           lj_Snapshot := Some (SnapshotUnixLease lease), lj_UpdatedAt := ready\<rparr>)))
       (\<lambda>e. do {
          rb \<leftarrow> rollbackAcquiredLease jp (j\<lparr>lj_Lease := (lj_Lease j)\<lparr>le_State := ''ready''\<rparr>,
                           lj_Snapshot := Some (SnapshotUnixLease lease), lj_UpdatedAt := ready\<rparr>) lease;
          failure rq ''journal-write-failed'' (join_errs [Some e, rb]) }) (do {
     modify (\<lambda>m. m\<lparr>m_leases := (m_leases m)(i \<mapsto> lease)\<rparr>);
     elapsed \<leftarrow> since_ms started;
     r \<leftarrow> response rq;
     ret (r\<lparr>rs_Parent := Some (pr_Parent p),
            rs_Lease := Some (lj_Lease (j\<lparr>lj_Lease := (lj_Lease j)\<lparr>le_State := ''ready''\<rparr>,
                           lj_Snapshot := Some (SnapshotUnixLease lease), lj_UpdatedAt := ready\<rparr>)),
            rs_Metrics := Some (ms raw elapsed)\<rparr>) }) }))
     (\<lambda>r v. rs_OK r \<longrightarrow> granted c rq (w_env w) (w_fs w) r v) u" (is "wp _ ?Q u")
proof (rule wp_bindI [OF backend_acquire [where parent = "pr_DataPath p", OF v cl ids(1,3) out _ u]], goal_cases)
  case 1
  show ?case by (rule Clean_eq_Join(1) [OF p(3)]) (use v ids(4) in \<open>auto simp: Validate_def split: if_splits\<close>)
next
  case 2
  show ?case by (simp add: ws)
next
  case (3 x y)
  obtain acquired raw where x: "x = (acquired, raw)" by fastforce
  show ?case
  proof (cases acquired)
    case (Inl e)
    then show ?thesis unfolding x by (simp add: wp_refuses refuses_acquire_failed)
  next
    case (Inr lease)
    let ?j = "\<lambda>ready. j\<lparr>lj_Lease := (lj_Lease j)\<lparr>le_State := ''ready''\<rparr>,
        lj_Snapshot := Some (SnapshotUnixLease lease), lj_UpdatedAt := ready\<rparr>"
    from 3 x Inr have y: "unmoved w y" "lease_ready lease (w_env y) (w_fs y)" and
      lf: "lease_for \<lparr>rq_ParentPath = pr_DataPath p, rq_ChildPath = Join [cf_StoreRoot c, ''children'', i],
        rq_MountPath = Join [ws, ''Library''],
        rq_StoreRoot = Join [cf_StoreRoot c, ''children''], rq_LeaseID = i\<rparr> lease" by auto
    have valid: "validateLeaseJournal c (i @ ''.json'') (?j ready) = None" for ready
      by (rule acquired_journal_valid [OF v ids(1) _ ids(3,4) _ _ _ _ _ _ _ _ _ _ lf [unfolded ws] p(3)])
        (use ids boot in \<open>simp_all add: j ws\<close>)
    have child: "comps (li_ChildPath (ul_info lease)) = comps (cf_StoreRoot c) @ [''children'', i]"
      using Join_store(2) [OF v, of "[''children'', i]"] ids(1) lf by (simp add: lease_for_def)
    have wsp: "IsAbs ws" "comps ws = comps (cf_WorkspaceRoot c) @ [q_WorkspaceID rq]"
      using workspace_paths(1) [OF v ids(3)] comps_Join [of "cf_WorkspaceRoot c" "[q_WorkspaceID rq]"] v ids(3)
      by (auto simp: ws Validate_def split: if_splits)
    then have mount: "comps (li_MountPath (ul_info lease)) = comps (cf_WorkspaceRoot c) @ [q_WorkspaceID rq, ''Library'']"
      using lf comps_Join [OF wsp(1), of "[''Library'']"] by (simp add: lease_for_def)
    have jpc: "comps jp = comps (cf_StoreRoot c) @ [''leases'', i @ ''.json'']" "target jp"
      using Join_store [OF v, of "[''leases'', i @ ''.json'']"] ids(1) by (simp_all add: jp)
    note apart = journal_scope_apart [OF out jpc(1)]
    show ?thesis
      unfolding x Inr prod.case sum.case
    proof (rule wp_bindI [where P = "\<lambda>_ z. unmoved w z \<and> lease_ready lease (w_env z) (w_fs z)"])
      show "wp time_Now (\<lambda>_ z. unmoved w z \<and> lease_ready lease (w_env z) (w_fs z)) y"
        using y by (simp add: time_Now_def wp_tick_read unmoved_def)
    next
      fix ready z
      assume z: "unmoved w z \<and> lease_ready lease (w_env z) (w_fs z)"
      show "wp (check (writeJSON jp (enc_journal (?j ready)))
          (\<lambda>e. do { rb \<leftarrow> rollbackAcquiredLease jp (?j ready) lease;
               failure rq ''journal-write-failed'' (join_errs [Some e, rb]) }) (do {
          modify (\<lambda>m. m\<lparr>m_leases := (m_leases m)(i \<mapsto> lease)\<rparr>);
          elapsed \<leftarrow> since_ms started;
          r \<leftarrow> response rq;
          ret (r\<lparr>rs_Parent := Some (pr_Parent p), rs_Lease := Some (lj_Lease (?j ready)),
                 rs_Metrics := Some (ms raw elapsed)\<rparr>) })) ?Q z"
      proof (rule wp_mono [OF acquire_tail [OF jpc(2) conjunct2 [OF z]]])
        show "durable_scope (comps jp) \<inter> subtree (comps (li_ChildPath (ul_info lease))) = {}"
          "comps (li_MountPath (ul_info lease)) \<notin> durable_scope (comps jp)"
          using apart by (simp_all add: child mount)
      qed (use valid p(1,2) s in \<open>auto simp: granted_def j jp intro!: exI\<close>)
    qed
  qed
qed

lemma store_file_target: "store_file c p \<Longrightarrow> target p"
  by (simp add: store_file_def)

lemma acquire_spec:
  fixes w :: manager
  assumes v: "Validate c = None" and cl: "cloner clone" and mc: "m_config w = c" and boot: "m_bootID w \<noteq> ''''"
    and out: "\<not> prefix (comps (cf_StoreRoot c)) (comps (cf_WorkspaceRoot c))"
  shows "wp (acquire clone rq) (\<lambda>r v. rs_OK r \<longrightarrow> granted c rq (w_env w) (w_fs w) r v) w"
    (is "wp _ ?Q w")
proof (cases "is_identifier (q_ConsumerID rq) \<and> is_identifier (q_WorkspaceID rq) \<and> is_identifier (q_ParentID rq)")
  case False
  then show ?thesis
    unfolding acquire_def by (intro wp_refuses) (auto intro: refuses_failure)
next
  case True
  then have ids: "is_identifier (q_ConsumerID rq)" "is_identifier (q_WorkspaceID rq)" "is_identifier (q_ParentID rq)"
    and ok: "\<not> (\<not> is_identifier (q_ConsumerID rq) \<or> \<not> is_identifier (q_WorkspaceID rq) \<or> \<not> is_identifier (q_ParentID rq))"
    by auto
  have no: "refuses m \<Longrightarrow> wp m ?Q u" for m u by (rule wp_refuses)
  have S: "wp m (\<lambda>r x. same w x \<and> P r) u" if "same w u" "wp m (\<lambda>r x. same u x \<and> P r) u" for m :: "'q op" and P u
    by (rule wp_mono [OF that(2)]) (use that(1) in \<open>auto intro: same_trans\<close>)
  have cfg: "m_config u = c" "m_bootID u = m_bootID w" if "unmoved w u" for u
    using more_same(1,7) [of u w] that mc by (simp_all add: unmoved_def)
  have U: "wp m (\<lambda>_. unmoved w) u" if "keeps (writes T) m" "unmoved w u" for m :: "'q op" and T u
    by (rule wp_mono [OF unmoved_step [OF that]]) simp
  note jpt = store_file_target [OF journal_path_file [OF v]]
  show ?thesis
    unfolding acquire_def Let_def if_not_P [OF ok]
    apply (rule wp_attemptI [OF readParent_spec], rule no, intro refusing)
    apply (rule wp_checkI [OF S [OF _ verifyParent_spec]], simp, rule no, intro refusing)
    apply (rule wp_attemptI [OF S [OF _ measureStatus_spec]], simp, rule no, intro refusing)
    apply (rule wp_bindI [where P = "\<lambda>x u. x = c \<and> same w u"], simp add: wp_gets cfg(1) unmoved_same)
    apply (erule conjE, hypsubst)
    apply (split if_split, intro conjI impI, rule no, intro refusing)
    apply (rule wp_checkI [OF U [OF keeps_same_writes [OF daemon_reads_same(8)]]], simp add: unmoved_same,
        rule no, intro refusing)
    apply (rule wp_attemptI [OF wp_conj [OF U [OF keeps_same_writes [OF daemon_reads_same(9)]] randomID_spec]],
        assumption, simp, rule no, intro refusing)
    apply (rule wp_attemptI [OF wp_conj [OF U [OF keeps_same_writes [OF daemon_reads_same(9)]] randomID_spec]],
        simp, simp, rule no, intro refusing)
    apply (rule wp_checkI [OF U [OF writeJSONExclusive_frame]], simp, rule no, intro refusing)
    apply (rule wp_bindI [OF U [OF keeps_same_writes [OF reads_same(7)]]], assumption)
    apply (rule wp_bindI [OF U [OF keeps_same_writes [OF reads_same(7)]]], assumption)
    apply (rule wp_bindI [where P = "\<lambda>b u. b = m_bootID w \<and> unmoved w u"], simp add: wp_gets cfg(2))
    apply (erule conjE, hypsubst)
    apply (rule wp_checkI [OF U [OF writeJSON_frame [OF jpt]]], simp, assumption, rule no, intro refusing)
    apply (rule wp_bindI [OF U [OF keeps_same_writes [OF reads_same(7)]]], assumption)
    apply (rule acquire_granted [OF v cl _ ids _ out])
    apply (insert mc boot)
    apply (simp_all add: same_def)
    apply (metis more_same(1))
    done
qed

section \<open>Release\<close>

lemma os_Remove_gone:
  "wp (os_Remove p) (\<lambda>r v. (\<forall>q. lookup (w_fs w) q = None \<longrightarrow> lookup (w_fs v) q = None) \<and>
     (r = None \<longrightarrow> lookup (w_fs v) (comps p) = None) \<and> (r = Some ENOENT \<longrightarrow> lookup (w_fs v) (comps p) = None) \<and>
     world.more v = world.more w) w"
  by (auto simp: os_Remove_def wp_simps fs_remove_def lookup_del split: sum.splits option.splits if_splits)

lemma removeFileIfExists_gone:
  "wp (removeFileIfExists p) (\<lambda>r v. (\<forall>q. lookup (w_fs w) q = None \<longrightarrow> lookup (w_fs v) q = None) \<and>
     (r = None \<longrightarrow> lookup (w_fs v) (comps p) = None) \<and> world.more v = world.more w) w"
  unfolding removeFileIfExists_def
  by (rule wp_checkI [OF os_Remove_gone]) (auto simp: wp_ret IsNotExist_def)

lemma removeWorkspaceOwner_gone:
  "wp (removeWorkspaceOwner j) (\<lambda>r v. (\<forall>q. lookup (w_fs w) q = None \<longrightarrow> lookup (w_fs v) q = None) \<and>
     (r = None \<longrightarrow> lookup (w_fs v) (comps (owner_path j)) = None) \<and> world.more v = world.more w) w"
  unfolding removeWorkspaceOwner_def
proof (rule wp_checkI [OF wp_keeps [OF daemon_reads_same(7), where P = "\<lambda>_. same w"]], goal_cases)
  case (3 v)
  then show ?case by (intro wp_mono [OF os_Remove_gone]) (auto simp: same_def)
qed (auto simp: wp_ret same_def)

definition lease_gone :: "unixLease \<Rightarrow> fsys \<Rightarrow> bool" where
  "lease_gone l f \<longleftrightarrow> (\<not> ul_released l \<longrightarrow>
     comps (co_childPath (ul_ownership l)) \<notin> quarantine_paths (comps (co_childPath (ul_ownership l))) \<longrightarrow>
     gone (comps (co_childPath (ul_ownership l))) f)"

lemma lease_gone_mono:
  "lease_gone l f \<Longrightarrow> (\<And>q. lookup f q = None \<Longrightarrow> lookup g q = None) \<Longrightarrow> lease_gone l g"
  by (auto simp: lease_gone_def gone_def)

lemma Release_gone:
  "wp (Release bg None True l) (\<lambda>r v. unmoved w v \<and> (snd (fst r) = None \<longrightarrow> lease_gone l (w_fs v))) (w :: manager)"
proof -
  have "keeps (writes UNIV :: manager \<Rightarrow> manager \<Rightarrow> bool) (Release bg None True l)"
    by (rule Release_frame) simp
  then have u: "wp (Release bg None True l) (\<lambda>_. unmoved w) w"
    by (rule wp_keeps) (simp add: writes_def unmoved_def)
  have g: "wp (Release bg None True l) (\<lambda>r v. snd (fst r) = None \<longrightarrow> lease_gone l (w_fs v)) w"
  proof (cases "ul_released l \<or>
      comps (co_childPath (ul_ownership l)) \<in> quarantine_paths (comps (co_childPath (ul_ownership l)))")
    case True
    then show ?thesis by (auto simp: lease_gone_def intro: wpI)
  next
    case False
    then show ?thesis
      by (intro wp_mono [OF Release_success]) (auto simp: lease_gone_def)
  qed
  show ?thesis by (rule wp_conj [OF u g])
qed

definition cleared :: "Config \<Rightarrow> string \<Rightarrow> leaseJournal \<Rightarrow> manager \<Rightarrow> bool" where
  "cleared c i j v \<longleftrightarrow> m_leases v i = None \<and> lookup (w_fs v) (comps (owner_path j)) = None \<and>
     lookup (w_fs v) (comps (Join [cf_StoreRoot c, ''leases'', i @ ''.json''])) = None"

lemma release_lease_spec:
  fixes w :: manager
  assumes c: "m_config w = c"
  shows "wp (release_lease rq j l)
     (\<lambda>r v. rs_OK r \<longrightarrow> cleared c (q_LeaseID rq) j v \<and> lease_gone l (w_fs v)) w" (is "wp _ ?Q w")
proof -
  have no: "refuses m \<Longrightarrow> wp m ?Q u" for m u by (rule wp_refuses)
  let ?I = "\<lambda>v :: manager. m_config v = c"
  let ?O = "\<lambda>v :: manager. lookup (w_fs v) (comps (owner_path j)) = None"
  have I: "wp m (\<lambda>_. ?I) u" if "?I u" "keeps same m" for m :: "'q op" and u
    by (rule wp_keeps [OF that(2)]) (use that(1) in \<open>auto simp: same_def dest: more_same(1)\<close>)
  have R: "wp (Release False None True l) (\<lambda>r v. ?I v \<and> (snd (fst r) = None \<longrightarrow> lease_gone l (w_fs v))) u"
    if "?I u" for u :: manager
    by (rule wp_mono [OF Release_gone]) (use that in \<open>auto simp: unmoved_def dest: more_same(1)\<close>)
  have O: "wp (removeWorkspaceOwner j) (\<lambda>r v. ?I v \<and> lease_gone l (w_fs v) \<and> (r = None \<longrightarrow> ?O v)) u"
    if "?I u" "lease_gone l (w_fs u)" for u :: manager
    by (rule wp_mono [OF removeWorkspaceOwner_gone])
      (use that in \<open>auto intro: lease_gone_mono dest: more_same(1)\<close>)
  have J: "wp (removeFileIfExists p) (\<lambda>r v. lease_gone l (w_fs v) \<and> ?O v \<and>
      (r = None \<longrightarrow> lookup (w_fs v) (comps p) = None)) u"
    if "lease_gone l (w_fs u)" "?O u" for p and u :: manager
    by (rule wp_mono [OF removeFileIfExists_gone]) (use that in \<open>auto intro: lease_gone_mono\<close>)
  have D: "wp m (\<lambda>_ v. cleared c (q_LeaseID rq) j v \<and> lease_gone l (w_fs v)) u"
    if "cleared c (q_LeaseID rq) j u \<and> lease_gone l (w_fs u)" "keeps same m" for m :: "'q op" and u
    by (rule wp_keeps [OF that(2)]) (use that(1) in \<open>auto simp: same_def cleared_def dest: more_same(2)\<close>)
  show ?thesis
    unfolding release_lease_def
    apply (rule wp_checkI [OF I [OF c]], rule daemon_reads_same(7), rule no, intro refusing)
    apply (rule wp_bindI [OF I], assumption, rule reads_same(7))
    apply (rule wp_bindI [OF R], assumption)
    subgoal for s t u x
      apply (simp only: case_prod_unfold)
      apply (rule wp_bindI [where P = "\<lambda>_ v. ?I v \<and> (snd (fst x) = None \<longrightarrow> lease_gone l (w_fs v))"],
          simp add: wp_modify)
      apply (rule wp_checkI [where P = "\<lambda>e v. ?I v \<and> (e = None \<longrightarrow> lease_gone l (w_fs v))"],
          simp add: wp_ret, rule no, intro refusing)
      apply (rule wp_checkI [OF O], simp, simp, rule no, intro refusing)
      apply (rule wp_bindI [where P = "\<lambda>r v. r = cf_StoreRoot c \<and> lease_gone l (w_fs v) \<and> ?O v"],
          simp add: storeRoot_def wp_gets)
      apply (rule wp_checkI [OF J], simp, simp, rule no, intro refusing)
      apply (rule wp_bindI [where P = "\<lambda>_ v. cleared c (q_LeaseID rq) j v \<and> lease_gone l (w_fs v)"],
          simp add: wp_modify cleared_def)
      apply (rule wp_bindI [OF D], assumption, rule since_ms_keeps(2))
      apply (simp add: response_def wp_simps)
      done
    done
qed

text \<open>The lease a release ends: the one the manager holds, or the one rebuilt from the journal.\<close>

definition ends :: "unixLease option \<Rightarrow> leaseJournal \<Rightarrow> unixLease \<Rightarrow> bool" where
  "ends held j l \<longleftrightarrow> (case held of Some l' \<Rightarrow> l = l'
     | None \<Rightarrow> (\<exists>s. lj_Snapshot j = Some s \<and> SnapshotUnixLease l = s\<lparr>sn_MountMode := sn_MountMode s AND 511\<rparr>))"

lemma release_spec:
  fixes w :: manager
  assumes c: "m_config w = c"
  shows "wp (release rq) (\<lambda>r v. rs_OK r \<longrightarrow> is_identifier (q_LeaseID rq) \<and>
     (\<exists>j l. ends (m_leases w (q_LeaseID rq)) j l \<and> cleared c (q_LeaseID rq) j v \<and> lease_gone l (w_fs v))) w"
    (is "wp _ ?Q w")
proof (cases "is_identifier (q_LeaseID rq)")
  case True
  have no: "refuses m \<Longrightarrow> wp m ?Q u" for m u by (rule wp_refuses)
  have ok: "\<not> \<not> is_identifier (q_LeaseID rq)"
    using True by simp
  have same: "m_leases v = m_leases w" "m_config v = c" if "same w v" for v :: manager
    using that more_same(1,2) [of v w] c by (simp_all add: same_def)
  have L: "wp (release_lease rq j l) ?Q v" if "m_config v = c" "ends (m_leases w (q_LeaseID rq)) j l"
    for j l and v :: manager
    by (rule wp_mono [OF release_lease_spec [OF that(1)]]) (use that(2) True in blast)
  have rec: "wp (RecoverUnixLease s) (\<lambda>r x. m_config x = c \<and> (\<forall>l. r = Inr l \<longrightarrow>
      SnapshotUnixLease l = s\<lparr>sn_MountMode := sn_MountMode s AND 511\<rparr>)) v" if "same w v" for s and v :: manager
    by (rule wp_mono [OF RecoverUnixLease_spec]) (use that same(2) in \<open>auto dest: same_trans\<close>)
  have step: "wp (case (h, s) of (Some lease, _) \<Rightarrow> release_lease rq j lease
      | (None, Some snapshot) \<Rightarrow> attempt (RecoverUnixLease snapshot)
          (\<lambda>e. ignore needs_recovery (failure rq ''lease-recovery-failed'' (Some e))) (release_lease rq j)
      | (None, None) \<Rightarrow> failure rq ''lease-not-active''
          (Some (Text ''lease has no recoverable ownership snapshot''))) ?Q v"
    if h: "h = m_leases w (q_LeaseID rq)" and s: "s = lj_Snapshot j" and v: "same w v" for h s j and v :: manager
    apply (cases h; cases s; simp only: prod.case option.case)
       apply (rule no, intro refusing)
      apply (rule wp_attemptI [OF rec [OF v]], rule no, intro refusing)
      apply (rule L, blast, use h s in \<open>auto simp: ends_def\<close>)[1]
     apply (rule L [OF same(2) [OF v]], use h s in \<open>auto simp: ends_def\<close>)[1]
    apply (rule L [OF same(2) [OF v]], use h s in \<open>auto simp: ends_def\<close>)[1]
    done
  show ?thesis
    unfolding release_def if_not_P [OF ok]
    apply (rule wp_attemptI [OF wp_keeps [OF daemon_reads_same(6), where P = "\<lambda>_. same w"]], assumption,
        rule no, intro refusing)
    apply (rule wp_bindI [where P = "\<lambda>h u. h = m_leases w (q_LeaseID rq) \<and> same w u"])
     apply (simp only: wp_gets same simp_thms)
    apply (rule step, simp_all)
    done
next
  case False
  then show ?thesis by (simp add: release_def wp_mono [OF failure_spec])
qed

section \<open>Capacity\<close>

text \<open>
  The two limits are the tighter of the configured and the requested ones, and as long as the
  sums stay in the range of an \<open>int64\<close> the test is the one on the integers.
\<close>

lemma effective_quota_min:
  "sint (effective_quota c l) =
     (if 0 < sint (lm_StoreMaxAllocatedBytes l) then min (sint (lm_StoreMaxAllocatedBytes l)) (sint (cf_QuotaBytes c))
      else sint (cf_QuotaBytes c))"
  by (simp add: effective_quota_def word_sless_alt min_def)

lemma effective_floor_max:
  "sint (effective_floor c l) = max (sint (cf_HostFloorBytes c)) (sint (lm_MinimumHostFreeBytes l))"
  by (simp add: effective_floor_def word_sless_alt max_def)

lemma sint_plus_exact:
  "- (2 ^ 63) \<le> sint a + sint b \<Longrightarrow> sint a + sint b < 2 ^ 63 \<Longrightarrow> sint (a + b :: i64) = sint a + sint b"
  by (simp add: sint_word_ariths signed_take_bit_int_eq_self)

lemma sint_minus_exact:
  "- (2 ^ 63) \<le> sint a - sint b \<Longrightarrow> sint a - sint b < 2 ^ 63 \<Longrightarrow> sint (a - b :: i64) = sint a - sint b"
  by (simp add: sint_word_ariths signed_take_bit_int_eq_self)

lemma capacity_exceeded_exact:
  assumes "- (2 ^ 63) \<le> sint used + sint (cf_ChildReserveBytes c)"
    and "sint used + sint (cf_ChildReserveBytes c) < 2 ^ 63"
    and "- (2 ^ 63) \<le> sint free - sint (cf_ChildReserveBytes c)"
    and "sint free - sint (cf_ChildReserveBytes c) < 2 ^ 63"
  shows "capacity_exceeded c l used free \<longleftrightarrow>
     sint (effective_quota c l) < sint used + sint (cf_ChildReserveBytes c) \<or>
     sint free - sint (cf_ChildReserveBytes c) < sint (effective_floor c l)"
  using assms by (simp add: capacity_exceeded_def word_sless_alt sint_plus_exact sint_minus_exact)

text \<open>With a valid configuration and the non-negative sizes of a measurement, one bound is enough.\<close>

lemma Validate_capacity:
  "Validate c = None \<Longrightarrow> 0 < sint (cf_QuotaBytes c) \<and> 0 \<le> sint (cf_HostFloorBytes c) \<and>
     0 < sint (cf_ChildReserveBytes c)"
  by (auto simp: Validate_def word_sle_eq word_sless_alt split: if_splits)

lemma capacity_exceeded_valid:
  assumes "Validate c = None" and "0 \<le> sint used" and "0 \<le> sint free"
    and "sint used + sint (cf_ChildReserveBytes c) < 2 ^ 63"
  shows "capacity_exceeded c l used free \<longleftrightarrow>
     (if 0 < sint (lm_StoreMaxAllocatedBytes l) then min (sint (lm_StoreMaxAllocatedBytes l)) (sint (cf_QuotaBytes c))
      else sint (cf_QuotaBytes c)) < sint used + sint (cf_ChildReserveBytes c) \<or>
     sint free - sint (cf_ChildReserveBytes c) < max (sint (cf_HostFloorBytes c)) (sint (lm_MinimumHostFreeBytes l))"
  using Validate_capacity [OF assms(1)] assms(2-) sint_lt [of free] sint_lt [of "cf_ChildReserveBytes c"]
  by (subst capacity_exceeded_exact) (simp_all add: effective_quota_min effective_floor_max)

text \<open>Past the largest \<open>int64\<close> the first sum is negative, and the quota refuses nothing.\<close>

lemma capacity_exceeded_wraps:
  assumes "Validate c = None" and "2 ^ 63 \<le> sint used + sint (cf_ChildReserveBytes c)"
  shows "capacity_exceeded c l used free \<longleftrightarrow> free - cf_ChildReserveBytes c <s effective_floor c l"
proof -
  let ?r = "cf_ChildReserveBytes c"
  have b: "sint used < 2 ^ 63" "sint ?r < 2 ^ 63"
    using sint_lt [of used] sint_lt [of ?r] by simp_all
  have "(sint used + sint ?r + 2 ^ 63) mod 2 ^ 64 = (sint used + sint ?r + 2 ^ 63 - 2 ^ 64) mod 2 ^ 64"
    by (simp only: minus_mod_self2)
  also have "\<dots> = sint used + sint ?r + 2 ^ 63 - 2 ^ 64"
    using assms(2) b by (intro mod_pos_pos_trivial) auto
  finally have "signed_take_bit 63 (sint used + sint ?r) = sint used + sint ?r - 2 ^ 64"
    by (simp add: signed_take_bit_eq_take_bit_shift take_bit_eq_mod)
  then have "sint (used + ?r) < 0"
    using b by (simp add: sint_word_ariths)
  moreover have "0 < sint (effective_quota c l)"
    using Validate_capacity [OF assms(1)] by (simp add: effective_quota_min)
  ultimately show ?thesis
    by (simp add: capacity_exceeded_def word_sless_alt)
qed

end
