(* ===== verification/Sample.thy ===== *)
theory Sample
  imports Daemon_Leases Store_Laws
begin

text \<open>
  A concrete machine, daemon and store, on which the properties' hypotheses are shown to hold:
  a configured daemon with an empty store under \<open>/s\<close> and one workspace \<open>/w/w1\<close>, on a machine
  where no system call fails, and a broker store under \<open>/r\<close>.
\<close>

section \<open>The machine\<close>

definition env0 :: env where
  "env0 = \<lparr>e_fault = (\<lambda>_. False), e_clock = (\<lambda>t. 1000 + int t), e_rand = (\<lambda>_ _. CHR 0x00),
     e_cancelled = (\<lambda>_. False), e_alive = (\<lambda>_ _. True), e_free = (\<lambda>_. 1000000000),
     e_blocks = (\<lambda>_. 4096), e_marshal = (\<lambda>_ _. ''{}''),
     e_sha256 = (\<lambda>_. replicate 32 (CHR 0x00)), e_limited = (\<lambda>_. []), e_dev = 1, e_cow = True\<rparr>"

definition dir_node :: "64 word \<Rightarrow> node" where
  "dir_node i = \<lparr>n_kind = KDir, n_perm = 448, n_ino = i\<rparr>"

definition file_node :: "content \<Rightarrow> 64 word \<Rightarrow> node" where
  "file_node c i = \<lparr>n_kind = KFile c, n_perm = 384, n_ino = i\<rparr>"

definition fs0 :: fsys where
  "fs0 = [([], dir_node 1), ([''s''], dir_node 2), ([''s'', ''children''], dir_node 3),
     ([''s'', ''leases''], dir_node 4), ([''s'', ''parents''], dir_node 5),
     ([''s'', ''pending''], dir_node 6), ([''s'', ''quarantine''], dir_node 7),
     ([''s'', ''receipts''], dir_node 8), ([''w''], dir_node 9), ([''w'', ''w1''], dir_node 10)]"

definition world0 :: world where
  "world0 = \<lparr>w_fs = fs0, w_tick = 0, w_ino = 100, w_env = env0\<rparr>"

section \<open>The daemon\<close>

definition config0 :: Config where
  "config0 = \<lparr>cf_SchemaVersion = 1, cf_StoreRoot = ''/s'', cf_WorkspaceRoot = ''/w'',
     cf_SocketPath = ''/k'', cf_QuotaBytes = 100000000, cf_HostFloorBytes = 0,
     cf_ChildReserveBytes = 4096\<rparr>"

definition capability0 :: Capability where
  "capability0 = \<lparr>ca_Platform = ''darwin'', ca_Provider = ''apfs'', ca_ArtifactKind = ''directory'',
     ca_CoWAvailable = True, ca_RequiresElevation = False, ca_Transport = ''unix'', ca_Error = None\<rparr>"

definition daemon0 :: manager where
  "daemon0 = \<lparr>w_fs = fs0, w_tick = 0, w_ino = 100, w_env = env0, m_config = config0,
     m_provider = ''apfs'', m_bootID = ''boot'', m_capability = capability0,
     m_leases = (\<lambda>_. None), m_requests = (\<lambda>_. None), m_manualRecovery = False\<rparr>"

definition request0 :: Request where
  "request0 = \<lparr>q_SchemaVersion = 2, q_Operation = OperationAcquire, q_RequestID = ''r1'',
     q_CompatibilityKey = '''', q_TransactionID = '''', q_ConsumerID = ''c1'', q_WorkspaceID = ''w1'',
     q_ParentID = ''p1'', q_LeaseID = ''l1'', q_ClientPID = 7,
     q_Limits = \<lparr>lm_StoreMaxAllocatedBytes = 0, lm_MinimumHostFreeBytes = 0\<rparr>\<rparr>"

lemma config0_valid [simp]: "Validate config0 = None"
  by (simp add: Validate_def config0_def configSchema_def word_sle_eq word_sless_alt IsAbs_def)

lemma daemon0_inv [simp]: "daemon_inv config0 daemon0"
  by (simp add: daemon_inv_def daemon0_def)

lemma darwin_cloner [simp]: "cloner cloneTreeForDaemon"
  by (rule darwin.cloner_axioms)

lemma roots0 [simp]: "comps (cf_StoreRoot config0) = [''s'']" "comps (cf_WorkspaceRoot config0) = [''w'']"
  by code_simp+

lemma daemon0_fields [simp]:
  "w_fs daemon0 = fs0" "w_env daemon0 = env0" "m_config daemon0 = config0" "m_bootID daemon0 = ''boot''"
  "m_leases daemon0 = (\<lambda>_. None)" "m_requests daemon0 = (\<lambda>_. None)" "w_fs world0 = fs0" "w_env world0 = env0"
  by (simp_all add: daemon0_def world0_def)

end
