(* ===== verification/Execution.thy ===== *)
theory Execution
  imports Sample
begin

text \<open>
  Running programs on concrete states by rewriting: one equation per construct of the state
  monad and per operation, which unfold a program only where it meets a state
  (\<open>run_cong\<close> keeps the simplifier out of the rest of the program), and the equations that
  evaluate paths and file trees.
\<close>

named_theorems run

lemma run_cong: "w = w' \<Longrightarrow> run_state m w = run_state m w'"
  by simp

lemma run_unfold: "m = m' \<Longrightarrow> run_state m w = run_state m' w"
  by simp

definition continue :: "'a \<times> 'w \<Rightarrow> ('a \<Rightarrow> ('w, 'b) state) \<Rightarrow> 'b \<times> 'w" where
  "continue p k = run_state (k (fst p)) (snd p)"

lemma continue_cong: "p = p' \<Longrightarrow> continue p k = continue p' k"
  by simp

lemma run_control [run]:
  "continue (x', v) k'' = run_state (k'' x') v"
  "run_state (State_Monad.bind m1 k1) w = continue (run_state m1 w) k1"
  "run_state (ret r) w = (r, w)"
  "run_state (ignore m2 n2) w = continue (run_state m2 w) (\<lambda>_. n2)"
  "run_state (attempt m' h k) w = continue (run_state m' w) (\<lambda>r. case r of Inl e \<Rightarrow> h e | Inr x \<Rightarrow> k x)"
  "run_state (check c h' n) w = continue (run_state c w) (\<lambda>r. case r of None \<Rightarrow> n | Some e \<Rightarrow> h' e)"
  "run_state (if b then m else n) w = (if b then run_state m w else run_state n w)"
  "run_state (case o' of None \<Rightarrow> q | Some y \<Rightarrow> l y) w =
     (case o' of None \<Rightarrow> run_state q w | Some y \<Rightarrow> run_state (l y) w)"
  "run_state (case s of Inl a \<Rightarrow> f a | Inr b \<Rightarrow> g b) w =
     (case s of Inl a \<Rightarrow> run_state (f a) w | Inr b \<Rightarrow> run_state (g b) w)"
  "run_state (case (i, j) of (x, y) \<Rightarrow> t x y) w = run_state (t i j) w"
  "run_state ((case (i', j') of (x, y) \<Rightarrow> u x y) z) w = run_state (u i' j' z) w"
  by (simp_all add: continue_def ignore_def attempt_def check_def prod.case_eq_if split: option.split sum.split)

text \<open>
  A \<open>let\<close> evaluates its value before the body, unless the value is itself a program or a
  function returning one.
\<close>

definition value_in :: "'a \<Rightarrow> ('a \<Rightarrow> 'b) \<Rightarrow> 'b" where
  "value_in x f = f x"

lemma value_cong: "x = y \<Longrightarrow> value_in x f = value_in y f"
  by simp

lemma run_let [run]:
  "run_state (let x = (p :: ('v, 'c) state) in e x) w = run_state (e p) w"
  "run_state (let x = (f :: 'd \<Rightarrow> 'e) in e' x) w = run_state (e' f) w"
  "run_state (let x = (s :: 's list) in e'' x) w = value_in s (\<lambda>x. run_state (e'' x) w)"
  "run_state (let x = (j :: 'j leaseJournal_scheme) in g x) w = value_in j (\<lambda>x. run_state (g x) w)"
  "run_state (let x = (m :: 'm Metrics_scheme) in h x) w = value_in m (\<lambda>x. run_state (h x) w)"
  "run_state (let x = (o' :: 'o workspaceOwner_scheme) in k x) w = value_in o' (\<lambda>x. run_state (k x) w)"
  "run_state (let x = (u :: 'u UnixLeaseSnapshot_scheme) in l x) w = value_in u (\<lambda>x. run_state (l x) w)"
  "run_state (let x = (t :: 't option) in q x) w = value_in t (\<lambda>x. run_state (q x) w)"
  "run_state (let x = (z :: 'z ownershipMarker_scheme) in i x) w = value_in z (\<lambda>x. run_state (i x) w)"
  "run_state (let x = (c :: 'x parentRecord_scheme) in i' x) w = value_in c (\<lambda>x. run_state (i' x) w)"
  "run_state (let x = (oo :: 'y childOwnership_scheme) in k' x) w = value_in oo (\<lambda>x. run_state (k' x) w)"
  "value_in y r = r y"
  by (simp_all add: value_in_def)

lemma run_create_temp:
  "0 < n \<Longrightarrow> run_state (create_temp n dir pattern) w = run_state (do {
     suffix \<leftarrow> tick_read temp_suffix;
     let name = join_path dir (pattern @ suffix);
     check (open_excl name 384)
       (\<lambda>e. if IsExist e then create_temp (n - 1) dir pattern else ret (Inl e)) (ret (Inr name)) }) w"
  by (cases n, simp, hypsubst, unfold diff_Suc_1 create_temp.simps) (rule refl)

lemma run_rename_loop:
  "0 < n \<Longrightarrow> run_state (rename_loop n e a b) w =
     run_state (check (os_Rename a b) (\<lambda>e. rename_loop (n - 1) (Some e) a b) (ret None)) w"
  by (cases n, simp, hypsubst, unfold diff_Suc_1 rename_loop.simps) (rule refl)

lemmas run_loops = run_create_temp run_rename_loop

lemma run_sys [run]:
  "run_state (sys f) w = (let w' = w\<lparr>w_tick := Suc (w_tick w)\<rparr> in
     if e_fault (w_env w) (w_tick w) then (Inl EIO, w') else f w')"
  by (simp add: sys_def)

lemma run_reads [run]:
  "run_state (tick_read f) w = (f (w_env w) (w_tick w), w\<lparr>w_tick := Suc (w_tick w)\<rparr>)"
  "run_state (env_get g) w = (g (w_env w), w)"
  by (simp_all add: tick_read_def env_get_def)

lemma run_paths [run]:
  "run_state (os_MkdirAll p perm) w = (let xs = rev (comps p) in run_state (mkdir_all perm xs) w)"
  by (simp add: os_MkdirAll_def)

lemma run_listed [run]:
  "run_state (digest_entries root (sort_key f es) h l) w =
     (let xs = sort_key f es in run_state (digest_entries root xs h l) w)"
  by simp

lemma run_reversed [run]:
  "run_state (restore_modes source dest (rev ds)) w = (let xs = rev ds in run_state (restore_modes source dest xs) w)"
  by simp

lemma run_store_dirs [run]:
  "run_state (make_dirs (store_dirs c)) w = (let xs = store_dirs c in run_state (make_dirs xs) w)"
  by simp

lemmas run_repeat [run] = run_loops

lemma env0_fields [run]:
  "\<not> e_fault env0 t" "e_clock env0 t = 1000 + int t" "e_rand env0 t i = CHR 0x00" "\<not> e_cancelled env0 t"
  "e_alive env0 t p" "e_free env0 t = 1000000000" "e_blocks env0 s = 4096" "e_marshal env0 b j = ''{}''"
  "e_sha256 env0 s = replicate 32 (CHR 0x00)" "e_limited env0 s = []" "e_dev env0 = 1" "e_cow env0"
  by (simp_all add: env0_def)

lemma random0 [run]:
  "map (e_rand env0 t) [0..<n] = replicate n (CHR 0x00)"
  "map (f \<circ> e_rand env0 t) [0..<n] = replicate n (f (CHR 0x00))"
  by (simp_all add: env0_def map_replicate_const comp_def)

lemma replicate_numeral [run]: "replicate (numeral k) x = x # replicate (pred_numeral k) x"
  by (simp add: numeral_eq_Suc)

lemma temp_suffix0 [run]: "temp_suffix env0 t = ''0''"
proof -
  have "fold (\<lambda>i n. 256 * n + of_char (e_rand env0 t i)) xs (0 :: nat) = 0" for xs :: "nat list"
    by (induction xs) (simp_all add: env0_def of_char_def)
  moreover have "dec_nat 0 = ''0''"
    by code_simp
  ultimately show ?thesis by (simp add: temp_suffix_def)
qed

lemma node_fields [run]:
  "n_kind (dir_node i) = KDir" "n_perm (dir_node i) = 448" "n_ino (dir_node i) = i"
  "n_kind (file_node c i) = KFile c" "n_perm (file_node c i) = 384" "n_ino (file_node c i) = i"
  by (simp_all add: dir_node_def file_node_def)

lemmas run_calls [run] = query_def [THEN run_unfold] update_def [THEN run_unfold]
  os_Lstat_def [THEN run_unfold] os_Stat_def [THEN run_unfold] os_Readlink_def [THEN run_unfold]
  os_ReadFile_def [THEN run_unfold] os_ReadDir_def [THEN run_unfold] os_Mkdir_def [THEN run_unfold]
  os_Symlink_def [THEN run_unfold] os_Remove_def [THEN run_unfold] os_Rename_def [THEN run_unfold]
  renameNoReplace_def [THEN run_unfold] os_Chmod_def [THEN run_unfold]
  open_excl_def [THEN run_unfold] file_write_def [THEN run_unfold] file_chmod_def [THEN run_unfold]
  io_step_def [THEN run_unfold] os_RemoveAll_def [THEN run_unfold]
  WalkDir_def [THEN run_unfold] WalkCheck_def [THEN run_unfold] time_Now_def [THEN run_unfold]
  ctx_Err_def [THEN run_unfold] process_alive_def [THEN run_unfold] rand_Read_def [THEN run_unfold]
  statfs_free_def [THEN run_unfold]

lemmas run_files [run] = Rename_def [THEN run_unfold] os_CreateTemp_def [THEN run_unfold]
  write_exit_def [THEN run_unfold] WriteDurable_def [THEN run_unfold]
  WriteExclusiveDurable_def [THEN run_unfold] MeasureDirectoryUsage_def [THEN run_unfold]
  digestTree_def [THEN run_unfold] cloneRegularFileForDaemon_def [THEN run_unfold]
  clone_visit_def [THEN run_unfold] cloneTreeForDaemon_def [THEN run_unfold]

lemmas run_storage [run] = since_ms_def [THEN run_unfold] randomToken_def [THEN run_unfold]
  notify_def [THEN run_unfold] validateOwnershipInputs_def [THEN run_unfold]
  validateCloneSource_def [THEN run_unfold] identityFromFileInfo_def [THEN run_unfold]
  validateChildIdentity_def [THEN run_unfold] readOwnershipMarker_def [THEN run_unfold]
  validateChildTraversal_def [THEN run_unfold] validateOwnedChildAt_def [THEN run_unfold]
  createOwnershipMarker_def [THEN run_unfold] establishChildOwnership_def [THEN run_unfold]
  removeOwnedMount_def [THEN run_unfold] chooseQuarantinePath_def [THEN run_unfold]
  removal_visit_def [THEN run_unfold] prepareChildRemoval_def [THEN run_unfold]
  removeOwnedChild_def [THEN run_unfold] acquire_fail_def [THEN run_unfold]
  inspect_mount_def [THEN run_unfold] Acquire_def [THEN run_unfold] Release_def [THEN run_unfold]
  RecoverUnixLease_def [THEN run_unfold]

lemmas run_daemon [run] = needs_recovery_def [THEN run_unfold] storeRoot_def [THEN run_unfold]
  writeJSON_def [THEN run_unfold] writeJSONExclusive_def [THEN run_unfold]
  readJSON_def [THEN run_unfold] removeFileIfExists_def [THEN run_unfold]
  randomID_def [THEN run_unfold] directoryIdentity_def [THEN run_unfold]
  verifyParent_def [THEN run_unfold] readParent_def [THEN run_unfold]
  current_parentID_def [THEN run_unfold] readParentByCompatibility_def [THEN run_unfold]
  quarantineParentID_def [THEN run_unfold] quarantineParent_def [THEN run_unfold]
  readParentReceipt_def [THEN run_unfold] writeParentReceipt_def [THEN run_unfold]
  cleanupPendingTransaction_def [THEN run_unfold] validateWorkspace_def [THEN run_unfold]
  validateWorkspaceOwner_def [THEN run_unfold] removeWorkspaceOwner_def [THEN run_unfold]
  readLease_def [THEN run_unfold] rollbackAcquiredLease_def [THEN run_unfold]
  response_def [THEN run_unfold] failure_def [THEN run_unfold] parentBegin_def [THEN run_unfold]
  stage_publication_def [THEN run_unfold] parentCommit_def [THEN run_unfold]
  parentAbort_def [THEN run_unfold] measureStatus_def [THEN run_unfold] status_def [THEN run_unfold]
  acquire_failed_def [THEN run_unfold] acquire_def [THEN run_unfold]
  release_lease_def [THEN run_unfold] release_def [THEN run_unfold]
  processAlive_def [THEN run_unfold] recover_entry_def [THEN run_unfold]
  recover_def [THEN run_unfold] handle_def [THEN run_unfold] Handle_def [THEN run_unfold]

lemmas run_recursive [run] = mkdir_all.simps [THEN run_unfold] remove_list.simps [THEN run_unfold]
  walk_list.simps [THEN run_unfold] digest_entries.simps [THEN run_unfold]
  restore_modes.simps [THEN run_unfold] recover_entries.simps [THEN run_unfold]
  make_dirs.simps [THEN run_unfold]

lemma lookup_move:
  assumes "\<not> prefix a b" and "\<not> prefix b a"
  shows "lookup (fs_move a b f) q =
     (if prefix b q then lookup f (a @ drop (length b) q) else if prefix a q then None else lookup f q)"
proof (induction f)
  case (Cons x f)
  obtain k n where x: "x = (k, n)" by (cases x)
  have r: "q = rebase a b k \<longleftrightarrow> prefix b q \<and> k = a @ drop (length b) q" if "prefix a k"
    using that by (auto simp: rebase_def prefix_def)
  have c: "lookup ((k, n) # g) q = (if q = k then Some n else lookup g q)" for k n g q
    by (simp add: lookup_def)
  have m: "fs_move a b ((k, n) # f) = (if prefix a k then (rebase a b k, n) # fs_move a b f
      else if prefix b k then fs_move a b f else (k, n) # fs_move a b f)"
    by (simp add: fs_move_def)
  have ab: "\<not> (prefix a q \<and> prefix b q)" for q
    using assms by (meson prefix_same_cases)
  show ?case
    using Cons.IH r ab [of q] ab [of k] assms
    by (cases "prefix a k"; cases "prefix b k") (auto simp: x m c split: if_splits)
qed (simp add: lookup_def fs_move_def)

text \<open>File trees stay unexpanded: a lookup goes through the updates made to the initial tree.\<close>

definition keys :: "fsys \<Rightarrow> cpath list" where
  "keys f = map fst f"

lemma below_eval: "below p f = sort (remdups (filter (\<lambda>q. prefix p q \<and> list_all proper q) (keys f)))"
  by (simp add: below_def keys_def)

lemma children_eval: "children p f = map (\<lambda>q. (last q, the (lookup f q)))
    (sort (remdups (filter (\<lambda>q. q \<noteq> [] \<and> butlast q = p) (keys f))))"
  by (simp add: children_def filter_sort remdups_filter keys_def)

lemma keys_eval:
  "keys (fs_put p n f) = p # filter (\<lambda>q. q \<noteq> p) (keys f)"
  "keys (fs_del p f) = filter (\<lambda>q. q \<noteq> p) (keys f)"
  "keys (fs_move a b f) = map (\<lambda>q. if prefix a q then rebase a b q else q)
     (filter (\<lambda>q. prefix a q \<or> \<not> prefix b q) (keys f))"
  by (simp_all add: keys_def fs_put_def fs_del_def fs_move_def filter_map comp_def case_prod_beta)
    (induction f; auto)+

lemmas evaluate = join_errs_def somes.simps ownershipTokenBytes_def ownershipMarkerSchemaVersion_def
  maximumOwnershipMarkerBytes_def below_eval keys_eval lookup_put lookup_del lookup_move children_eval ownershipMarkerName_def quarantineNamePrefix_def reserved_marker_def workspaceOwnerFile_def
  zero_response_def zero_parent_def no_metrics_def fs_fchmod_def fs_truncate_def err_unit_def join_path_def errorsJoin_def
  temp_pattern_def allocatedFileBytes_def usage_visit_def writeDigestField_def node_mode_def
  digest_visit_def be_bytes.simps fs_clonefile_def newError_def ownershipLost_def
  trunc_div_def clone_source_visit_def marker_stream_def clone_error_code_def
  SnapshotUnixLease_def snapshot_ownership_def Validate_def parentID_def owner_path_def
  validateLeaseJournal_def storageErrorCode_def opt0_def metricsFromStorage_def effective_quota_def
  effective_floor_def capacity_exceeded_def is_dir_def is_link_def
  is_regular_def node_size_def  parent_dir_def fs_lstat_def follow_def
  fs_stat_def fs_readlink_def fs_read_def fs_readdir_def fs_create_def fs_write_def fs_chmod_def
  fs_remove_def rebase_def fs_rename_def fs_rename_noreplace_def
 
  json_content_def decode_single_def decode_first_def digit_char_def dec_int_def
  dec_nat.simps
 
 
  Let_def comps_def IsAbs_def Dir_def Base_def Clean_def render_def Join_def
  after_last_slash_def Rel_def pathWithin_def pathWithinRoot_def pathWithinOrEqual_def HasPrefix_def
  TrimSuffix_def is_identifier_def alnum_def ident_char_def hex_char_def
  hex_encode_def hex_byte_def hex_digit_def ascii_between_def renameAttempts_def
   proper_def store_dirs_def count_quarantined_def relative_to_def less_eq_char_def less_char_def of_char_def operation_defs


definition key0 :: string where
  "key0 = replicate 64 (CHR ''a'')"

definition parent1 :: parentRecord where
  "parent1 = \<lparr>pr_Parent = \<lparr>pa_ParentID = ''p1'', pa_Compatibility = key0, pa_Provider = ''apfs'',
     pa_ArtifactKind = ''directory'', pa_ContentDigest = hex_encode (replicate 32 (CHR 0x00)),
     pa_LogicalBytes = 1, pa_AllocatedBytes = 4096, pa_Immutable = True, pa_CreatedAt = 0\<rparr>,
     pr_DataPath = ''/s/parents/p1/data'', pr_Device = 1, pr_Inode = 12\<rparr>"

definition metadata1 :: content where
  "metadata1 = json_content env0 True (enc_parent parent1)"

definition fs1 :: fsys where
  "fs1 = take 5 fs0 @ [([''s'', ''parents'', ''p1''], dir_node 11),
     ([''s'', ''parents'', ''p1'', ''data''], dir_node 12),
     ([''s'', ''parents'', ''p1'', ''data'', ''a''], file_node (Content ''x'' []) 13),
     ([''s'', ''parents'', ''p1'', ''metadata.json''], file_node metadata1 14)] @ drop 5 fs0"

lemma sample_fields [run]:
  "cf_StoreRoot config0 = ''/s''" "cf_WorkspaceRoot config0 = ''/w''" "cf_QuotaBytes config0 = 100000000"
  "cf_HostFloorBytes config0 = 0" "cf_ChildReserveBytes config0 = 4096"
  "ca_CoWAvailable capability0"
  "q_SchemaVersion request0 = 2" "q_Operation request0 = OperationAcquire" "q_RequestID request0 = ''r1''"
  "q_ConsumerID request0 = ''c1''" "q_WorkspaceID request0 = ''w1''" "q_ParentID request0 = ''p1''"
  "q_LeaseID request0 = ''l1''" "q_ClientPID request0 = 7"
  "lm_StoreMaxAllocatedBytes (q_Limits request0) = 0" "lm_MinimumHostFreeBytes (q_Limits request0) = 0"
  "stream metadata1 = [Some (enc_parent parent1)]" "bytes metadata1 = ''{}'' @ [CHR 0x0A]"
  "pa_ParentID (pr_Parent parent1) = ''p1''" "pa_Provider (pr_Parent parent1) = ''apfs''"
  "pr_DataPath parent1 = ''/s/parents/p1/data''" "pr_Device parent1 = 1" "pr_Inode parent1 = 12"
  "pa_ContentDigest (pr_Parent parent1) = hex_encode (replicate 32 (CHR 0x00))"
  "pa_LogicalBytes (pr_Parent parent1) = 1" "pa_Immutable (pr_Parent parent1)"
  by (simp_all add: config0_def capability0_def request0_def metadata1_def json_content_def env0_def
      parent1_def)

lemma key0_compatible [run]: "compatibility key0"
  by code_simp

lemma lookup_fs1 [run]: "lookup fs1 q = map_of
   [([], dir_node 1), ([''s''], dir_node 2), ([''s'', ''children''], dir_node 3),
    ([''s'', ''leases''], dir_node 4), ([''s'', ''parents''], dir_node 5),
    ([''s'', ''parents'', ''p1''], dir_node 11), ([''s'', ''parents'', ''p1'', ''data''], dir_node 12),
    ([''s'', ''parents'', ''p1'', ''data'', ''a''], file_node (Content ''x'' []) 13),
    ([''s'', ''parents'', ''p1'', ''metadata.json''], file_node metadata1 14),
    ([''s'', ''pending''], dir_node 6), ([''s'', ''quarantine''], dir_node 7),
    ([''s'', ''receipts''], dir_node 8), ([''w''], dir_node 9), ([''w'', ''w1''], dir_node 10)] q"
  and keys_fs1 [run]: "keys fs1 = [[], [''s''], [''s'', ''children''], [''s'', ''leases''], [''s'', ''parents''],
    [''s'', ''parents'', ''p1''], [''s'', ''parents'', ''p1'', ''data''],
    [''s'', ''parents'', ''p1'', ''data'', ''a''], [''s'', ''parents'', ''p1'', ''metadata.json''],
    [''s'', ''pending''], [''s'', ''quarantine''], [''s'', ''receipts''], [''w''], [''w'', ''w1'']]"
  by (simp_all add: lookup_def keys_def fs1_def fs0_def numeral_eq_Suc)

lemma dec_enc_marker [run]:
  "- (2 ^ 63) \<le> om_SchemaVersion m \<Longrightarrow> om_SchemaVersion m < 2 ^ 63 \<Longrightarrow> dec_marker (enc_marker m) = Some m"
  by (cases m) (simp add: dec_marker_def enc_marker_def dec_obj_def codec_simps)

lemmas round_trips [run] = dec_enc_parent dec_enc_pending dec_enc_receipt dec_enc_snapshot dec_enc_owner dec_enc_journal

lemmas state0 = world0_def daemon0_def

definition lease_request :: AcquireRequest where
  "lease_request = \<lparr>rq_ParentPath = ''/s/parents/p1/data'', rq_ChildPath = ''/s/children/l1'',
     rq_MountPath = ''/w/w1/Library'', rq_StoreRoot = ''/s/children'', rq_LeaseID = ''l1''\<rparr>"

definition world1 :: world where
  "world1 = \<lparr>w_fs = fs1, w_tick = 0, w_ino = 100, w_env = env0\<rparr>"

lemma lookup_fs0 [run]: "lookup fs0 q = map_of
   [([], dir_node 1), ([''s''], dir_node 2), ([''s'', ''children''], dir_node 3),
    ([''s'', ''leases''], dir_node 4), ([''s'', ''parents''], dir_node 5),
    ([''s'', ''pending''], dir_node 6), ([''s'', ''quarantine''], dir_node 7),
    ([''s'', ''receipts''], dir_node 8), ([''w''], dir_node 9), ([''w'', ''w1''], dir_node 10)] q"
  and keys_fs0 [run]: "keys fs0 = [[], [''s''], [''s'', ''children''], [''s'', ''leases''], [''s'', ''parents''],
    [''s'', ''pending''], [''s'', ''quarantine''], [''s'', ''receipts''], [''w''], [''w'', ''w1'']]"
  by (simp_all add: lookup_def keys_def fs0_def)

text \<open>A granted lease: the child \<open>l1\<close> with its marker, linked at the mount.\<close>

definition marker1 :: content where
  "marker1 = json_content env0 False (enc_marker \<lparr>om_SchemaVersion = 1, om_LeaseID = ''l1'', om_OwnerToken = ''t1''\<rparr>)"

definition fs2 :: fsys where
  "fs2 = fs0 @ [([''s'', ''children'', ''l1''], dir_node 20),
     ([''s'', ''children'', ''l1'', ''.testplay-storage-owner''], file_node marker1 21),
     ([''w'', ''w1'', ''Library''], \<lparr>n_kind = KLink ''/s/children/l1'', n_perm = 511, n_ino = 22\<rparr>)]"

definition world2 :: world where
  "world2 = \<lparr>w_fs = fs2, w_tick = 0, w_ino = 100, w_env = env0\<rparr>"

definition snapshot1 :: UnixLeaseSnapshot where
  "snapshot1 = \<lparr>sn_StoreRoot = ''/s/children'', sn_ParentPath = ''/s/parents/p1/data'',
     sn_ChildPath = ''/s/children/l1'', sn_MountPath = ''/w/w1/Library'', sn_LeaseID = ''l1'',
     sn_OwnerToken = ''t1'', sn_Device = 1, sn_Inode = 20, sn_MountExisted = False, sn_MountMode = 0\<rparr>"

definition lease1 :: unixLease where
  "lease1 = \<lparr>ul_info = \<lparr>li_ParentPath = ''/s/parents/p1/data'', li_ChildPath = ''/s/children/l1'',
       li_MountPath = ''/w/w1/Library''\<rparr>,
     ul_ownership = snapshot_ownership snapshot1, ul_mountExisted = False, ul_mountMode = 0,
     ul_released = False, ul_metrics = no_metrics\<rparr>"

lemma lookup_fs2 [run]: "lookup fs2 q = map_of
   [([], dir_node 1), ([''s''], dir_node 2), ([''s'', ''children''], dir_node 3),
    ([''s'', ''leases''], dir_node 4), ([''s'', ''parents''], dir_node 5),
    ([''s'', ''pending''], dir_node 6), ([''s'', ''quarantine''], dir_node 7),
    ([''s'', ''receipts''], dir_node 8), ([''w''], dir_node 9), ([''w'', ''w1''], dir_node 10),
    ([''s'', ''children'', ''l1''], dir_node 20),
    ([''s'', ''children'', ''l1'', ''.testplay-storage-owner''], file_node marker1 21),
    ([''w'', ''w1'', ''Library''], \<lparr>n_kind = KLink ''/s/children/l1'', n_perm = 511, n_ino = 22\<rparr>)] q"
  and keys_fs2 [run]: "keys fs2 = [[], [''s''], [''s'', ''children''], [''s'', ''leases''], [''s'', ''parents''],
    [''s'', ''pending''], [''s'', ''quarantine''], [''s'', ''receipts''], [''w''], [''w'', ''w1''],
    [''s'', ''children'', ''l1''], [''s'', ''children'', ''l1'', ''.testplay-storage-owner''],
    [''w'', ''w1'', ''Library'']]"
  by (simp_all add: lookup_def keys_def fs2_def fs0_def)

lemma marker1_fields [run]:
  "stream marker1 = [Some (enc_marker \<lparr>om_SchemaVersion = 1, om_LeaseID = ''l1'', om_OwnerToken = ''t1''\<rparr>)]"
  "bytes marker1 = ''{}'' @ [CHR 0x0A]"
  by (simp_all add: marker1_def json_content_def env0_def)

definition journal1 :: leaseJournal where
  "journal1 = \<lparr>lj_SchemaVersion = 2,
     lj_Lease = \<lparr>le_LeaseID = ''l1'', le_ConsumerID = ''c1'', le_WorkspaceID = ''w1'', le_ParentID = ''p1'',
       le_WorkspacePath = ''/w/w1'', le_MountPath = ''/w/w1/Library'', le_State = ''ready'', le_CreatedAt = 1\<rparr>,
     lj_ChildPath = ''/s/children/l1'', lj_ClientPID = 7, lj_BootSessionID = ''boot'', lj_OwnerToken = ''o1'',
     lj_Snapshot = Some snapshot1, lj_UpdatedAt = 2\<rparr>"

end
