(* ===== verification/Execution_Store.thy ===== *)
theory Execution_Store
  imports Execution
begin

text \<open>
  A broker store on the sample machine: the user \<open>u\<close> under \<open>/r\<close> with one committed parent \<open>key0\<close>
  that the lease \<open>l1\<close> names, and the same store while that parent is still pending.
\<close>

lemmas run_store [run] = entries_if_any_def [THEN run_unfold] store_readJSON_def [THEN run_unfold]
  writeJSONDurable_def [THEN run_unfold] Store_WriteLease_def [THEN run_unfold]
  Store_ReadLease_def [THEN run_unfold] Paths_Lease_def lease_reference_def [THEN run_unfold]
  pending_reference_def [THEN run_unfold] retained_reference_def [THEN run_unfold]
  EnsureLayout_def [THEN run_unfold] ensure_all.simps [THEN run_unfold]
  ensureRealDirectory_def [THEN run_unfold] ProtectedParentKeys_def [THEN run_unfold] protect.simps [THEN run_unfold]

definition store0 :: Paths where
  "store0 = \<lparr>pt_Root = ''/r'', pt_UserRoot = ''/r/u'', pt_Parents = ''/r/u/parents'',
     pt_Pending = ''/r/u/pending'', pt_Children = ''/r/u/children'', pt_Leases = ''/r/u/leases'',
     pt_Retained = ''/r/u/retained'', pt_Quarantine = ''/r/u/quarantine'',
     pt_Receipts = ''/r/u/receipts''\<rparr>"

lemma NewPaths_store0: "NewPaths ''/r'' ''u'' = Inr store0"
  by code_simp

lemma store0_placed [simp]: "well_placed store0 [''r'', ''u'']"
  using NewPaths_layout(1) [OF NewPaths_store0] by (simp add: comps_def IsAbs_def)

definition library_key0 :: CompatibilityKey where
  "library_key0 = zero_key\<lparr>ck_SchemaVersion := ParentSchemaVersion, ck_Digest := key0\<rparr>"

definition metadata0 :: ParentMetadata where
  "metadata0 = zero_metadata\<lparr>pm_SchemaVersion := ParentSchemaVersion, pm_Provider := Provider,
     pm_CompatibilityKey := library_key0, pm_OwnershipToken := ''o1'',
     pm_VHDXPath := Join [pt_Parents store0, key0, ''parent.vhdx''], pm_Immutable := True\<rparr>"

definition lease0 :: LeaseJournal where
  "lease0 = zero_journal\<lparr>jn_SchemaVersion := ProtocolSchemaVersion, jn_LeaseID := ''l1'',
     jn_OwnershipToken := ''o2'', jn_ParentKey := key0\<rparr>"

definition pending0 :: PendingParent where
  "pending0 = \<lparr>pp_TransactionID = ''t1'', pp_UserSID = ''u'', pp_OwnershipToken = ''o1'',
     pp_Key = library_key0, pp_Source = zero_source,
     pp_StagingPath = Join [pt_Pending store0, key0, ''parent.staging.vhdx''], pp_MountPath = '''',
     pp_CreatedAt = 1, pp_UpdatedAt = 1, pp_ClientPID = 7\<rparr>"

definition layout0 :: fsys where
  "layout0 = [([], dir_node 1), ([''r''], dir_node 2), ([''r'', ''u''], dir_node 3),
     ([''r'', ''u'', ''parents''], dir_node 4), ([''r'', ''u'', ''pending''], dir_node 5),
     ([''r'', ''u'', ''children''], dir_node 6), ([''r'', ''u'', ''leases''], dir_node 7),
     ([''r'', ''u'', ''retained''], dir_node 8), ([''r'', ''u'', ''quarantine''], dir_node 9),
     ([''r'', ''u'', ''receipts''], dir_node 10)]"

definition fs3 :: fsys where
  "fs3 = layout0 @ [([''r'', ''u'', ''parents'', key0], dir_node 11),
     ([''r'', ''u'', ''parents'', key0, ''COMPLETE''], file_node (Content completeContents [None]) 12),
     ([''r'', ''u'', ''parents'', key0, ''metadata.json''],
        file_node (json_content env0 True (enc_metadata metadata0)) 13),
     ([''r'', ''u'', ''parents'', key0, ''parent.vhdx''], file_node (Content ''x'' []) 14),
     ([''r'', ''u'', ''leases'', ''l1.json''],
        file_node (json_content env0 True (enc_lease lease0)) 15)]"

definition fs4 :: fsys where
  "fs4 = layout0 @ [([''r'', ''u'', ''pending'', key0], dir_node 11),
     ([''r'', ''u'', ''pending'', key0, ''pending.json''],
        file_node (json_content env0 True (enc_pending_parent pending0)) 12),
     ([''r'', ''u'', ''pending'', key0, ''parent.staging.vhdx''], file_node (Content ''x'' []) 13)]"

definition world3 :: world where
  "world3 = \<lparr>w_fs = fs3, w_tick = 0, w_ino = 100, w_env = env0\<rparr>"

definition world4 :: world where
  "world4 = \<lparr>w_fs = fs4, w_tick = 0, w_ino = 100, w_env = env0\<rparr>"

lemma world3_fields [simp]: "w_fs world3 = fs3" "w_env world3 = env0" "w_fs world4 = fs4" "w_env world4 = env0"
  by (simp_all add: world3_def world4_def)

lemma key0_proper [simp]: "proper key0"
  by code_simp

lemma store_dirs0 [simp]:
  "IsAbs (pt_Parents store0)" "comps (pt_Parents store0) = [''r'', ''u'', ''parents'']"
  "IsAbs (pt_Pending store0)" "comps (pt_Pending store0) = [''r'', ''u'', ''pending'']"
  "IsAbs (pt_Leases store0)" "comps (pt_Leases store0) = [''r'', ''u'', ''leases'']"
  using store0_placed by (simp_all add: well_placed_def placed_def)

lemma names0 [simp]: "proper ''COMPLETE''" "proper ''metadata.json''" "proper ''parent.vhdx''"
  "proper ''pending.json''" "proper ''parent.staging.vhdx''" "proper ''l1.json''" "is_identifier ''l1''"
  by code_simp+

lemma lookup_store [run]:
  "lookup fs3 q = map_of fs3 q" "lookup fs4 q = map_of fs4 q"
  by (simp_all add: lookup_def)

lemma keys_store [run]: "keys fs3 = map fst fs3" "keys fs4 = map fst fs4"
  by (simp_all add: keys_def)

lemmas stores [run] = layout0_def fs3_def [THEN arg_cong [where f = map_of]] fs4_def [THEN arg_cong [where f = map_of]]
  fs3_def [THEN arg_cong [where f = "map fst"]] fs4_def [THEN arg_cong [where f = "map fst"]]

lemma written0 [run]:
  "stream (json_content e b j) = [Some j]" "n_kind (file_node c i) = KFile c"
  by (simp_all add: json_content_def file_node_def)

lemma decoded0 [run]:
  "dec_metadata (enc_metadata metadata0) = Some metadata0"
  "dec_lease (enc_lease lease0) = Some lease0"
  "dec_pending_parent (enc_pending_parent pending0) = Some pending0"
  by (simp_all add: dec_enc_metadata dec_enc_lease dec_enc_pending_parent go_int_def metadata0_def lease0_def
      pending0_def library_key0_def zero_metadata_def zero_journal_def zero_key_def
      ParentSchemaVersion_def ProtocolSchemaVersion_def)

lemma parent0_valid: "valid_parent store0 key0 metadata0 fs3"
proof -
  have v: "Clean (pm_VHDXPath metadata0) = Clean (Join [Join [pt_Parents store0, key0], ''parent.vhdx''])"
    by (subst Clean_eq_iff) (simp_all add: metadata0_def comps_Join IsAbs_Join del: IsAbs_def)
  show ?thesis
    unfolding valid_parent_def Let_def v
    by (simp add: comps_Join IsAbs_Join run read_as_def fs_read_def follow_def holds_file_def is_regular_def)
      (simp add: metadata0_def library_key0_def)
qed

lemma lease0_names: "references store0 fs3 key0"
proof -
  have "listing (pt_Leases store0) fs3 = [(''l1.json'', file_node (json_content env0 True (enc_lease lease0)) 15)]"
    by (simp add: listing_def fs_readdir_def follow_def run children_eval is_dir_def)
  moreover have "lease_at store0 ''l1'' fs3 = Inr lease0"
    by (simp add: lease_at_def Paths_Lease_def comps_Join read_as_def fs_read_def follow_def run)
      (simp add: lease0_def)
  moreover have "stem ''l1.json'' = ''l1''" by code_simp
  ultimately show ?thesis
    by (auto simp: references_def lease_names_def lease0_def)
qed

lemma pending0_at: "pending_at store0 key0 fs4 = Inr pending0"
  by (simp add: pending_at_def comps_Join read_as_def fs_read_def follow_def run)
    (simp add: pending0_def library_key0_def)

lemma store0_fields [run]: "pt_Parents store0 = ''/r/u/parents''" "pt_Leases store0 = ''/r/u/leases''"
  "pt_Pending store0 = ''/r/u/pending''" "pt_Retained store0 = ''/r/u/retained''"
  "pt_Quarantine store0 = ''/r/u/quarantine''" "pt_Root store0 = ''/r''" "pt_UserRoot store0 = ''/r/u''"
  "pt_Children store0 = ''/r/u/children''" "pt_Receipts store0 = ''/r/u/receipts''"
  by (simp_all add: store0_def)

lemma lease0_fields [run]:
  "jn_SchemaVersion lease0 = ProtocolSchemaVersion" "jn_LeaseID lease0 = ''l1''" "jn_ParentKey lease0 = key0"
  "jn_ClientPID lease0 = 0" "jn_UnityPID lease0 = 0" "jn_CreatedAt lease0 = 0"
  by (simp_all add: lease0_def zero_journal_def)

lemma lease_file0 [run]:
  "Ext ''l1.json'' = ''.json''" "EqualFold ''.json'' ''.json''" "suffix ''.json'' ''l1.json''"
  by code_simp+

lemma go_int0 [run]: "go_int 0" "go_int ProtocolSchemaVersion"
  by (simp_all add: go_int_def ProtocolSchemaVersion_def)

lemmas lease_round_trip [run] = dec_enc_lease

end
