(* ===== verification/Broker_Execution.thy ===== *)
theory Broker_Execution
  imports Broker_Leases Execution_Store
begin

text \<open>
  A broker on the sample machine, over the store of \<open>Execution_Store\<close>, with a provider whose children
  are plain sessions; how it measures the free space is a parameter.
\<close>

definition plainNative :: "(broker, err + i64) state \<Rightarrow> broker Native" where
  "plainNative free = unsupportedNative\<lparr>nv_Platform := ''plain'', nv_Available := ret None,
     nv_VerifyParent := (\<lambda>_. ret None),
     nv_AcquireChild := (\<lambda>_ _ transition. check (transition ''attached'' ''/dev/x'' ''v1'')
       (\<lambda>e. ret (Inl e)) (ret (Inr (1, zero_metrics)))),
     nv_AttachChild := (\<lambda>_ _. ret (Inr (1, zero_metrics))),
     nv_HostFreeBytes := (\<lambda>_. free),
     nv_Info := (\<lambda>_ _. no_session\<lparr>bl_LeaseID := ''l1'', bl_ParentKey := key0\<rparr>),
     nv_Release := (\<lambda>_ _. ret (Inr zero_metrics))\<rparr>"

lemma plain_measuring:
  assumes "keeps same free"
  shows "measuring (plainNative free)"
proof unfold_locales
  fix R :: "broker \<Rightarrow> broker \<Rightarrow> bool" and tr :: "broker transition" and m j
  assume e: "effect R" and tr: "\<And>a b c. keeps R (tr a b c)"
  show "keeps R (nv_AcquireChild (plainNative free) m j tr)"
    by (simp add: plainNative_def, intro effect.then_check [OF e] effect.on_ret [OF e] tr TrueI)
qed (simp_all add: plainNative_def unsupportedNative_def frame.on_ret still.on_ret assms
    keeps_same_writes [OF assms])

interpretation plain: measuring "plainNative statfs_free"
  by (rule plain_measuring [OF reads_same(12)])

text \<open>One that cannot measure.\<close>

abbreviation blindNative :: "broker Native" where
  "blindNative \<equiv> plainNative (ret (Inl EIO))"

interpretation blind: measuring blindNative
  by (rule plain_measuring) (simp add: still.on_ret)

definition broker_config0 :: BrokerConfig where
  "broker_config0 = broker_defaults \<lparr>bc_StoreRoot = ''/r'', bc_WorkspaceRoot = ''/w'', bc_UserSID = ''u'',
     bc_QuotaBytes = 0, bc_HostFloorBytes = 0, bc_ChildReserveBytes = 4096, bc_ParentTTL = 0\<rparr>"

definition broker0 :: broker where
  "broker0 = \<lparr>w_fs = fs3, w_tick = 0, w_ino = 100, w_env = env0, bk_config = broker_config0,
     bk_store = store0, bk_parents = [], bk_pending = [], bk_children = [(''l1'', 1)],
     bk_journal = zero_journal, bk_requests = Map.empty\<rparr>"

lemma broker0_fields [simp]:
  "w_fs broker0 = fs3" "w_env broker0 = env0" "bk_config broker0 = broker_config0" "bk_store broker0 = store0"
  "bk_children broker0 = [(''l1'', 1)]" "bk_requests broker0 = Map.empty"
  by (simp_all add: broker0_def)

definition release_request0 :: BrokerRequest where
  "release_request0 = (BrokerNewRequest BrokerOperationRelease ''r1'')\<lparr>bq_LeaseID := ''l1''\<rparr>"

lemma run_let_broker [run]:
  "run_state (let x = (j :: 'j LeaseJournal_scheme) in f x) w = value_in j (\<lambda>x. run_state (f x) w)"
  "run_state (let x = (s :: 's StoreStatus_scheme) in g x) w = value_in s (\<lambda>x. run_state (g x) w)"
  "run_state (let x = (c :: 'c Capacity_scheme) in h x) w = value_in c (\<lambda>x. run_state (h x) w)"
  "run_state (let x = (i :: 'l::len word) in k x) w = value_in i (\<lambda>x. run_state (k x) w)"
  "run_state (let x = (b :: int) in l x) w = value_in b (\<lambda>x. run_state (l x) w)"
  by (simp_all add: value_in_def)

lemma plain_fields [run]:
  "nv_Available (plainNative free) = ret None" "nv_VerifyParent (plainNative free) m = ret None"
  "nv_AcquireChild (plainNative free) m j tr = check (tr ''attached'' ''/dev/x'' ''v1'')
     (\<lambda>e. ret (Inl e)) (ret (Inr (1, zero_metrics)))"
  "nv_AttachChild (plainNative free) m j = ret (Inr (1, zero_metrics))"
  "nv_HostFreeBytes (plainNative free) p = free" "nv_BootSessionID (plainNative free) = ''''"
  "nv_ProcessAlive (plainNative free) pid = ret False"
  "nv_Info (plainNative free) h w = no_session\<lparr>bl_LeaseID := ''l1'', bl_ParentKey := key0\<rparr>"
  "nv_FileIdentity (plainNative free) h w = \<lparr>fi_VolumeSerial = '''', fi_FileID = ''''\<rparr>"
  "nv_Release (plainNative free) h d = ret (Inr zero_metrics)"
  by (simp_all add: plainNative_def unsupportedNative_def)

lemmas plain_runs [run] = plain_fields(1-5,7,10) [THEN run_unfold]

lemma config_fields [run]:
  "bc_StoreRoot broker_config0 = ''/r''" "bc_WorkspaceRoot broker_config0 = ''/w''" "bc_UserSID broker_config0 = ''u''"
  "bc_QuotaBytes broker_config0 = 34359738368" "bc_HostFloorBytes broker_config0 = 21474836480"
  "bc_ChildReserveBytes broker_config0 = 4096" "bc_ParentTTL broker_config0 = 2592000000000000"
  by (simp_all add: broker_config0_def broker_defaults_def DefaultQuotaBytes_def DefaultHostFloor_def)

lemma release_fields [run]:
  "bq_LeaseID release_request0 = ''l1''" "\<not> bq_RetainChild release_request0" "bq_RequestID release_request0 = ''r1''"
  "bq_Operation release_request0 = BrokerOperationRelease" "bq_SchemaVersion release_request0 = ProtocolSchemaVersion"
  by (simp_all add: release_request0_def BrokerNewRequest_def zero_broker_request_def)

lemma lease0_workspace [run]: "jn_WorkspaceID lease0 = ''''" "jn_WorkspacePath lease0 = ''''" "\<not> jn_Retained lease0"
  "jn_OwnershipToken lease0 = ''o2''" "jn_ChildPath lease0 = ''''" "jn_State lease0 = ''''"
  by (simp_all add: lease0_def zero_journal_def)

lemmas run_broker [run] = broker_release_def [THEN run_unfold] release_records_def [THEN run_unfold]
  cleanupOwnedWorkspace_def [THEN run_unfold] RemoveLease_def [THEN run_unfold]
  ensureCapacity_def [THEN run_unfold] ensureCapacityWithLimits_def [THEN run_unfold]
  quarantine_lease_def [THEN run_unfold] activeParents_def [THEN run_unfold]
  Store_Status_def [THEN run_unfold] countDirectories_def [THEN run_unfold] countEntries_def [THEN run_unfold]
  entries_or_none_def [THEN run_unfold] ListParents_def [THEN run_unfold] read_parents.simps [THEN run_unfold]
  status_parents.simps [THEN run_unfold] add_file_def [THEN run_unfold] fileAllocatedBytes_def [THEN run_unfold]
  status_leases.simps [THEN run_unfold] status_lease_def [THEN run_unfold] allocatedVHDXBytes_def [THEN run_unfold]
  logicalVHDXBytes_def [THEN run_unfold] WalkDirTotal_def [THEN run_unfold] walk_total.simps [THEN run_unfold]
  reclaim.simps [THEN run_unfold] RemoveParentIfUnused_def [THEN run_unfold] ResolveParent_def [THEN run_unfold]
  validateRegular_def [THEN run_unfold]

definition admit_request0 :: BrokerRequest where
  "admit_request0 = BrokerNewRequest OperationAdmit ''r2''"

lemma admit_fields [run]:
  "bq_RequestID admit_request0 = ''r2''" "bq_StoreMaxAllocatedBytes admit_request0 = 0"
  "bq_MinimumHostFreeBytes admit_request0 = 0" "\<not> bq_DryRun admit_request0"
  by (simp_all add: admit_request0_def BrokerNewRequest_def zero_broker_request_def)

definition acquire_request0 :: BrokerRequest where
  "acquire_request0 = (BrokerNewRequest BrokerOperationAcquire ''r4'')\<lparr>bq_RunID := ''run1'',
     bq_WorkspaceID := ''w1'', bq_ParentKey := Some library_key0, bq_ClientPID := 7\<rparr>"

text \<open>A lease with a workspace.\<close>

definition owned_lease0 :: LeaseJournal where
  "owned_lease0 = lease0\<lparr>jn_WorkspaceID := ''w1'', jn_WorkspacePath := ''/w/w1'', jn_MountPath := ''/w/w1/Library''\<rparr>"

lemma owned_lease_fields [run]:
  "jn_WorkspaceID owned_lease0 = ''w1''" "jn_WorkspacePath owned_lease0 = ''/w/w1''"
  "jn_MountPath owned_lease0 = ''/w/w1/Library''" "jn_LeaseID owned_lease0 = ''l1''"
  by (simp_all add: owned_lease0_def lease0_def)

lemma mount0 [run]: "workspaceMount broker_config0 ''w1'' = Inr (''/w/w1'', ''/w/w1/Library'')"
proof -
  have "Join [''/w'', ''w1''] = ''/w/w1''" "Join [''/w/w1'', ''Library''] = ''/w/w1/Library''"
    "Rel ''/w'' ''/w/w1'' = Some ''w1''" "is_identifier ''w1''"
    by code_simp+
  then show ?thesis by (simp add: workspaceMount_def Let_def config_fields HasPrefix_def)
qed

lemma same_path0 [run]: "samePath p p"
  by simp

lemmas run_owner [run] = writeWorkspaceOwner_def [THEN run_unfold] validateWorkspaceMount_def [THEN run_unfold]
  real_directories.simps [THEN run_unfold] store_writeJSONExclusive_def [THEN run_unfold]
  readWorkspaceOwner_def [THEN run_unfold] broker_workspaceOwnerFile_def

end
