(* ===== verification/Project_Execution.thy ===== *)
theory Project_Execution
  imports Local_Packages Broker_Execution
begin

text \<open>
  A project under \<open>/p\<close>, a local package under \<open>/k\<close>, a directory of sockets under \<open>/q\<close> and a
  workspace under \<open>/w\<close>, on the sample machine.
\<close>

definition text_file :: "string \<Rightarrow> 64 word \<Rightarrow> node" where
  "text_file s = file_node (Content s [])"

definition fs6 :: fsys where
  "fs6 = [([], dir_node 1), ([''p''], dir_node 2), ([''p'', ''Assets''], dir_node 3),
     ([''p'', ''Assets'', ''a''], text_file ''x'' 4), ([''p'', ''Packages''], dir_node 5),
     ([''p'', ''Packages'', ''manifest.json''], text_file ''{}'' 6), ([''p'', ''ProjectSettings''], dir_node 7),
     ([''p'', ''ProjectSettings'', ''ProjectVersion.txt''], text_file ''m_EditorVersion:6000.0'' 8),
     ([''q''], dir_node 9), ([''q'', ''a''], \<lparr>n_kind = KSpecial, n_perm = 384, n_ino = 10\<rparr>),
     ([''q'', ''b''], \<lparr>n_kind = KSpecial, n_perm = 384, n_ino = 11\<rparr>),
     ([''q'', ''c''], \<lparr>n_kind = KSpecial, n_perm = 384, n_ino = 12\<rparr>),
     ([''q'', ''d''], \<lparr>n_kind = KSpecial, n_perm = 384, n_ino = 13\<rparr>)]"

definition world6 :: world where
  "world6 = \<lparr>w_fs = fs6, w_tick = 0, w_ino = 100, w_env = env0\<rparr>"

lemma world6_fields [simp]: "w_fs world6 = fs6" "w_env world6 = env0"
  by (simp_all add: world6_def)

lemma lookup_fs6 [run]: "lookup fs6 q = map_of fs6 q"
  by (simp add: lookup_def)

lemma keys_fs6 [run]: "keys fs6 = map fst fs6"
  by (simp add: keys_def)

lemmas tree6 [run] = fs6_def [THEN arg_cong [where f = map_of]] fs6_def [THEN arg_cong [where f = "map fst"]]

lemmas run_copy [run] = copy_visit_def [THEN run_unfold] copyFile_def [THEN run_unfold]
  fs_truncate_def relative_to_def path_Abs_def text_file_def source_visit_def library_visit_def

lemmas run_keys [run] = ComputeCompatibilityKeyWithLocalPackages_def [THEN run_unfold] ComputeKey_def [THEN run_unfold]
  canonicalProjectIdentity_def [THEN run_unfold] eval_links.simps [THEN run_unfold] hashFile_def [THEN run_unfold]
  lock_digest_def [THEN run_unfold] hashTree_def [THEN run_unfold] library_entries.simps [THEN run_unfold]
  scriptingBackend_def [THEN run_unfold] source_digestTree_def [THEN run_unfold] source_entries.simps [THEN run_unfold]

text \<open>A schedule of one worker that copies a directory with one file.\<close>

definition copy_program ::
  "string \<Rightarrow> string \<Rightarrow> cpath \<Rightarrow> cpath \<Rightarrow>
   ('z world_scheme, err option \<times> cpath list \<times> (err + copy_job option) \<times> (err + copy_job option) \<times> err option) state"
where
  "copy_program src dst i j = do {
     e \<leftarrow> os_RemoveAll dst;
     f \<leftarrow> gets w_fs;
     x \<leftarrow> copy_visit src dst False None i;
     y \<leftarrow> copy_visit src dst False None j;
     z \<leftarrow> (case y of Inr (Some job) \<Rightarrow> copyFile False job | _ \<Rightarrow> ret (Some EIO));
     ret (e, copy_entries src f, x, y, z) }"

lemma copy_schedule:
  assumes "fst (run_state (copy_program src dst i j) w) = (None, [i, j], Inr None, Inr (Some job), None)"
  shows "\<exists>p s. CopyDirParallel_start src dst 1 w = Inr p \<and>
     (pool_step (copy_visit src dst) copyFile)\<^sup>*\<^sup>* p s \<and> copy_result s = Some None \<and> \<not> pl_cancelled s \<and>
     pl_offered s = [job]"
proof -
  let ?visit = "copy_visit src dst"
  obtain e u where e: "run_state (os_RemoveAll dst) w = (e, u)" by fastforce
  obtain x u1 where x: "run_state (?visit False None i) u = (x, u1)" by fastforce
  obtain y u2 where y: "run_state (?visit False None j) u1 = (y, u2)" by fastforce
  obtain z u3 where z: "run_state (copyFile False job) u2 = (z, u3)" by fastforce
  have y': "y = Inr (Some job)" and e': "e = None" "copy_entries src (w_fs u) = [i, j]" and x': "x = Inr None"
    using assms by (auto simp: copy_program_def e x y split: prod.splits sum.splits option.splits)
  then have z': "z = None" using assms z by (simp add: copy_program_def e x y)
  let ?p = "new_pool 1 [i, j] u"
  let ?a = "?p\<lparr>pl_world := u1, pl_entries := [j]\<rparr>"
  let ?b = "?a\<lparr>pl_world := u2, pl_entries := [], pl_walker := Offering job, pl_offered := [job]\<rparr>"
  let ?c = "?b\<lparr>pl_walker := Walking, pl_jobs := [job]\<rparr>"
  let ?d = "set_worker 0 (Copying job) (?c\<lparr>pl_jobs := []\<rparr>)"
  let ?e = "set_worker 0 Idle (?d\<lparr>pl_world := u3, pl_copied := [job]\<rparr>)"
  let ?f = "?e\<lparr>pl_walker := Closed None\<rparr>"
  let ?g = "set_worker 0 Gone ?f"
  have "walker_step ?visit ?p ?a" using Visit [of ?p i "[j]" ?visit u1] x x' by (simp add: new_pool_def)
  moreover have "walker_step ?visit ?a ?b"
    using Visit_file [of ?a j "[]" ?visit job u2] y y' by (simp add: new_pool_def)
  moreover have "walker_step ?visit ?b ?c" using Send [of ?b job ?visit] by (simp add: new_pool_def)
  moreover have "worker_step copyFile ?c ?d" by (rule Take) (simp_all add: new_pool_def)
  moreover have "worker_step copyFile ?d ?e"
    using Copied [of 0 ?d job copyFile u3] z z' by (simp add: new_pool_def)
  moreover have "walker_step ?visit ?e ?f" by (rule Walked) (simp_all add: new_pool_def)
  moreover have "worker_step copyFile ?f ?g" by (rule Leave) (simp_all add: new_pool_def)
  ultimately have "(pool_step ?visit copyFile)\<^sup>*\<^sup>* ?p ?g"
    by (meson walker_first worker_first rtranclp.rtrancl_refl)
  moreover have "CopyDirParallel_start src dst 1 w = Inr ?p"
    by (simp add: CopyDirParallel_start_def e e')
  moreover have "copy_result ?g = Some None \<and> \<not> pl_cancelled ?g \<and> pl_offered ?g = [job]"
    by (simp add: copy_result_def new_pool_def)
  ultimately show ?thesis by blast
qed


text \<open>Two source trees with the same digest, and a package that is at two places.\<close>

definition fs7 :: fsys where
  "fs7 = [([], dir_node 1), ([''s''], dir_node 2), ([''s'', ''a''], text_file (''x'' @ ''b'' @ [CHR 0x00] @ ''y'') 3)]"

definition fs8 :: fsys where
  "fs8 = [([], dir_node 1), ([''s''], dir_node 2), ([''s'', ''a''], text_file ''x'' 3),
     ([''s'', ''b''], text_file ''y'' 4)]"

definition package_file :: node where
  "package_file = file_node (Content ''{}'' [Some (JObj [(''name'', JStr ''a''), (''version'', JStr ''1'')])]) 9"

definition dependencies0 :: "json \<Rightarrow> node" where
  "dependencies0 j = file_node (Content ''{}'' [Some (JObj [(''dependencies'', JObj [(''a'', j)])])]) 10"

definition fs9 :: fsys where
  "fs9 = [([], dir_node 1), ([''k''], dir_node 2), ([''k'', ''package.json''], package_file),
     ([''l''], dir_node 4), ([''l'', ''package.json''], package_file), ([''w''], dir_node 5),
     ([''w'', ''Packages''], dir_node 6),
     ([''w'', ''Packages'', ''manifest.json''], dependencies0 (JStr ''file:/k'')),
     ([''w'', ''Packages'', ''packages-lock.json''], dependencies0 (JObj [(''version'', JStr ''1'')]))]"

definition package1 :: LocalPackageOverride where
  "package1 = \<lparr>lp_Name = ''a'', lp_SourcePath = ''/k'', lp_Version = ''1'', lp_ContentDigest = '''',
     lp_FileCount = 1, lp_LogicalBytes = 2\<rparr>"

abbreviation machine :: "fsys \<Rightarrow> world" where
  "machine f \<equiv> \<lparr>w_fs = f, w_tick = 0, w_ino = 100, w_env = env0\<rparr>"

lemma lookup_samples [run]: "lookup fs7 q = map_of fs7 q" "lookup fs8 q = map_of fs8 q" "lookup fs9 q = map_of fs9 q"
  by (simp_all add: lookup_def)

lemma keys_samples [run]: "keys fs7 = map fst fs7" "keys fs8 = map fst fs8" "keys fs9 = map fst fs9"
  by (simp_all add: keys_def)

lemmas trees [run] = fs7_def [THEN arg_cong [where f = map_of]] fs7_def [THEN arg_cong [where f = "map fst"]]
  fs8_def [THEN arg_cong [where f = map_of]] fs8_def [THEN arg_cong [where f = "map fst"]]
  fs9_def [THEN arg_cong [where f = map_of]] fs9_def [THEN arg_cong [where f = "map fst"]]

lemmas run_packages [run] = ResolveLocalPackageOverrides_def [THEN run_unfold]
  resolve_packages.simps [THEN run_unfold] resolve_package_def [THEN run_unfold]
  ApplyLocalPackageOverrides_def [THEN run_unfold] embed_packages.simps [THEN run_unfold]
  readJSONObject_def [THEN run_unfold] writeJSONObject_def [THEN run_unfold] Write_def [THEN run_unfold]
  os_WriteFile_def [THEN run_unfold] package_file_def dependencies0_def
  dec_map_def last_wins_def float_range_def map_field_def file_dependency_def enc_map_def embedded_entry_def

lemma run_arguments [run]:
  "run_state (resolve_packages (sort_key f cs) ps a) w = (let xs = sort_key f cs in run_state (resolve_packages xs ps a) w)"
  "run_state (eval_links n d (split_slash x)) w = (let xs = split_slash x in run_state (eval_links n d xs) w)"
  "run_state (source_entries root (sort_key g rels) h c z) w =
     (let xs = sort_key g rels in run_state (source_entries root xs h c z) w)"
  "run_state (library_entries root (sort_key g rels) h c z) w =
     (let xs = sort_key g rels in run_state (library_entries root xs h c z) w)"
  by simp_all

text \<open>Strings that begin and end with a visible character are trimmed already.\<close>

definition visible :: "char \<Rightarrow> bool" where
  "visible c \<longleftrightarrow> alnum c \<or> c = slash \<or> c = CHR ''{'' \<or> c = CHR ''}''"

lemma space_ends: "list_all (\<lambda>p. p \<noteq> [] \<and> \<not> visible (hd p) \<and> \<not> visible (last p)) spaces"
  by code_simp

lemma trim_front_visible:
  assumes "list_all (\<lambda>p. p \<noteq> [] \<and> \<not> visible (hd p)) ps" and "s \<noteq> []" "visible (hd s)"
  shows "trim_front ps s = s"
proof -
  have "find (\<lambda>p. p \<noteq> [] \<and> prefix p s) ps = None"
    using assms by (auto simp: find_None_iff list_all_iff prefix_def)
  then show ?thesis by (simp add: trim_front.simps)
qed

lemma TrimSpace_visible:
  assumes "s \<noteq> []" "visible (hd s)" "visible (last s)"
  shows "TrimSpace s = s"
proof -
  have "list_all (\<lambda>p. p \<noteq> [] \<and> \<not> visible (hd p)) spaces"
      "list_all (\<lambda>p. p \<noteq> [] \<and> \<not> visible (hd p)) (map rev spaces)"
    using space_ends by (auto simp: list_all_iff hd_rev)
  with assms show ?thesis by (simp add: TrimSpace_def trim_front_visible hd_rev)
qed

lemmas visible_simps = visible_def alnum_def ascii_between_def less_eq_char_def of_char_def

lemma trimmed [run]: "TrimSpace ''/k'' = ''/k''" "TrimSpace ''/l'' = ''/l''" "TrimSpace ''1'' = ''1''"
  "TrimSpace ''file:/k'' = ''file:/k''"
  by (simp_all add: TrimSpace_visible visible_simps)

lemma package0 [run]: "unity_package_name ''a''"
  "dec_package (JObj [(''name'', JStr ''a''), (''version'', JStr ''1'')]) = Some \<lparr>pj_Name = ''a'', pj_Version = ''1''\<rparr>"
  by code_simp+

lemma version0 [run]: "parseUnityVersion ''m_EditorVersion:6000.0'' = ''6000.0''"
  by (simp add: parseUnityVersion_def text_lines_def HasPrefix_def TrimSpace_visible visible_simps)

lemma run_case_kind [run]:
  "run_state (case k of KDir \<Rightarrow> a | KFile c \<Rightarrow> b c | KLink t \<Rightarrow> g t | KSpecial \<Rightarrow> d) w =
     (case k of KDir \<Rightarrow> run_state a w | KFile c \<Rightarrow> run_state (b c) w | KLink t \<Rightarrow> run_state (g t) w
      | KSpecial \<Rightarrow> run_state d w)"
  by (cases k) simp_all

lemma run_let_keys [run]:
  "run_state (let x = (k :: 'k LibraryKey_scheme) in f x) w = value_in k (\<lambda>x. run_state (f x) w)"
  "run_state (let x = (c :: 'c CompatibilityKey_scheme) in g x) w = value_in c (\<lambda>x. run_state (g x) w)"
  by (simp_all add: value_in_def)

text \<open>What the walk finds first, in a directory of sockets and at a single file.\<close>

definition walk_program ::
  "string \<Rightarrow> string \<Rightarrow> cpath \<Rightarrow> cpath list \<Rightarrow>
   ('z world_scheme, err option \<times> cpath list \<times> (err + copy_job option) \<times> kind option list \<times> env) state"
where
  "walk_program src dst i files = do {
     e \<leftarrow> os_RemoveAll dst;
     f \<leftarrow> gets w_fs;
     x \<leftarrow> copy_visit src dst False None i;
     g \<leftarrow> gets w_fs;
     env \<leftarrow> gets w_env;
     ret (e, copy_entries src f, x, map (\<lambda>q. map_option n_kind (lookup g q)) files, env) }"

lemma walk_started:
  assumes "fst (run_state (walk_program src dst i files) w) = (None, es, x, ks, e)"
  shows "\<exists>p v. CopyDirParallel_start src dst 1 w = Inr p \<and> pl_entries p = es \<and> length (pl_workers p) = 1 \<and>
     run_state (copy_visit src dst False None i) (pl_world p) = (x, v) \<and>
     map (\<lambda>q. map_option n_kind (lookup (w_fs v) q)) files = ks \<and> w_env v = e"
proof -
  obtain a u where a: "run_state (os_RemoveAll dst) w = (a, u)" by fastforce
  obtain b v where b: "run_state (copy_visit src dst False None i) u = (b, v)" by fastforce
  from assms have "a = None" "copy_entries src (w_fs u) = es" "b = x" "w_env v = e"
      "map (\<lambda>q. map_option n_kind (lookup (w_fs v) q)) files = ks"
    by (auto simp: walk_program_def a b)
  with a b show ?thesis
    by (auto simp: CopyDirParallel_start_def new_pool_def)
qed

lemmas run_samples [run] = copy_program_def [THEN run_unfold] walk_program_def [THEN run_unfold] copy_entries_def

end
