(* ===== verification/Spec2Isabelle.thy ===== *)
theory Spec2Isabelle
  imports Project_Execution
begin

text \<open>
  Unity workspace storage: a per-user service that hands Unity editors copy-on-write clones of
  an immutable \<open>Library\<close> folder.

  \<^bold>\<open>The program.\<close> A daemon (\<open>internal/workspaced\<close>) keeps a store directory with committed parents,
  pending transactions, lease journals and the children it lends out. A producer begins a parent,
  fills its staging directory and commits it under a compatibility key; a consumer acquires a lease,
  which verifies the parent, checks the capacity, clones the parent's data into a child
  (\<open>storage\<close>), links the child at the \<open>Library\<close> path of a workspace, and is released later. All
  records are written with \<open>internal/atomicfile\<close>; after a crash, the daemon recovers or removes the
  leases it finds. An older broker (\<open>workspace\<close>) does the same with virtual disks: it has a store of
  its own, holds parents and children as sessions of a provider, collects parents nothing refers to,
  and serves overlapping requests.

  \<^bold>\<open>The machine.\<close> \<open>Prelude\<close> has the combinators of programs with errors (\<open>attempt\<close>, \<open>check\<close>, \<open>ignore\<close>)
  over \<open>State_Monad\<close>, the weakest preconditions \<open>wp\<close> and the frames \<open>keeps\<close>; \<open>Go_Path\<close> is
  \<open>path/filepath\<close> for Unix with the path rules of the daemon; \<open>File_System\<close> is the file tree and its
  system calls; \<open>Machine\<close> the world: file tree, system-call clock, next inode and the environment
  (which calls fail, clock, randomness, processes, device, hash and marshalled bytes). Any
  system call may fail without effect, so a crash at any point is a run whose later calls fail.
  \<open>Json\<close> has JSON values with the rules of Go's strict decoder. A file's content is its bytes with
  the documents they decode to.

  \<^bold>\<open>The components.\<close> Each definition has the name of its Go function or type, prefixed where two
  packages share one.
  \<^item> \<open>Atomic_File\<close>: \<open>internal/atomicfile\<close>, the durable and the exclusive write; \<open>Tree_Measure\<close>:
    \<open>internal/fileusage\<close> and \<open>digestTree\<close>; \<open>Clone_Tree\<close>: \<open>storage/clone_command_unix.go\<close> and
    \<open>storage/daemon_clone_darwin.go\<close>.
  \<^item> \<open>Unix_Storage\<close>: the lease backend of \<open>storage/lifecycle_unix.go\<close> and \<open>unix_recovery.go\<close>
    (\<open>Acquire\<close>, \<open>Release\<close>, ownership markers, guarded removal, snapshots).
  \<^item> \<open>Contract_V2\<close>: \<open>contract/v2/types.go\<close>, the requests and the client.
  \<^item> \<open>Daemon_Records\<close> and \<open>Daemon\<close>: \<open>internal/workspaced/manager_unix.go\<close>; the state is the record
    \<open>manager\<close>, which extends the world with the fields of \<open>Manager\<close>; the mutex makes one
    \<open>Handle\<close> one step.
  \<^item> \<open>Workspace_Types\<close> and \<open>Store\<close>: the records and the store of the broker (\<open>workspace/types.go\<close>,
    \<open>key.go\<close>, \<open>paths.go\<close>, \<open>store.go\<close>).
  \<^item> \<open>Broker_Types\<close>, \<open>Broker\<close> and \<open>Broker_Requests\<close>: \<open>workspace/protocol.go\<close>, \<open>native.go\<close> and
    \<open>broker.go\<close>. The state is the record \<open>broker\<close>; the provider is an argument, the record \<open>Native\<close> of
    the methods of its interface (\<open>unsupportedNative\<close> is the one of platforms other than Windows).
    \<open>BrokerHandle\<close> is one call of \<open>Handle\<close>; \<open>Broker_Requests\<close> is any number of overlapping calls,
    each critical section a step.
  \<^item> \<open>File_Copy\<close>: \<open>internal/filecopy/copy.go\<close>, the parallel copy: the walk, the bounded channel, the
    workers and the cancellation take turns in any order.
  \<^item> \<open>Source_Keys\<close>: \<open>workspace/key.go\<close> and \<open>internal/libraryimage/key.go\<close>, the digests of source trees, the
    snapshot and the compatibility key; \<open>Local_Packages\<close>: \<open>workspace/local_packages.go\<close>, resolving and
    embedding local packages.

  \<^bold>\<open>The laws.\<close> \<open>Daemon_Confined\<close> and \<open>Daemon_Handle\<close> show that no operation leaves the scope of the
  daemon and that the request history only grows; \<open>Daemon_Laws\<close> and \<open>Daemon_Leases\<close> what a
  successful acquire and release establish, and the capacity test; \<open>Store_Laws\<close> the contracts of the
  store; \<open>Broker_Laws\<close> what every broker operation keeps and that a run of \<open>Handle\<close> is a run of the
  request table, \<open>Broker_Collect\<close> the collection and the admission, \<open>Broker_Leases\<close> the owner file,
  acquire, release and recovery; \<open>Source_Keys\<close> and \<open>Local_Packages\<close> prove with the calculus \<open>reading\<close> that
  the computations change nothing and what their results say. The interfaces are locales: \<open>cloner\<close> (what the backend relies on of a
  clone function, here given by the macOS clone), \<open>provider\<close> (a provider may change files, and the
  broker's state only through the transition \<open>acquire\<close> passes it) and \<open>measuring\<close> (it extends
  \<open>provider\<close>: measuring the host and looking for a process change nothing), both given by \<open>unsupportedNative\<close> and by the
  providers of the sample machines, and the effect locales of \<open>Prelude\<close>. \<open>Sample\<close>, \<open>Execution\<close>,
  \<open>Execution_Store\<close>, \<open>Broker_Execution\<close> and \<open>Project_Execution\<close> hold concrete machines and the rewrite rules that run the programs on them;
  the witnesses below are such runs. This theory states the properties.

  \<^bold>\<open>Bounds.\<close> The rename retry is bounded by the 100 attempts of the source, the search for a temporary
  name by the 10000 of \<open>os.CreateTemp\<close>; every other loop is structural over a directory listing.
  64-bit sizes are words; the version and process numbers are integers with the range of the
  decoder.

  \<^bold>\<open>Not modelled.\<close> The Windows provider and service (\<open>storage/lifecycle_windows.go\<close>,
  \<open>refs_windows.go\<close>, \<open>workspace/native_windows.go\<close>, \<open>pipe_windows.go\<close>, \<open>service_windows.go\<close> and the
  other \<open>_windows\<close> files) are calls of system interfaces that the sources do not define. The broker,
  the keys and the local packages are modelled with the paths of Unix. The first contract with its
  Windows adapter is still to come. The socket server and the command line
  are input and output around \<open>Handle\<close> and the client.
\<close>

lemmas execution = run evaluate state0

lemmas execution_cong = run_cong continue_cong value_cong

lemma wp_run: "wp m Q w \<Longrightarrow> Q (fst (run_state m w)) (snd (run_state m w))"
  by (simp add: wp_def split: prod.splits)

section \<open>The daemon\<close>









text \<open>
  C5. A request sent again with the same payload gets the same response and changes nothing, whatever
  it was and however it ended.
\<close>

theorem request_idempotent:
  "run_state (Handle clone rq) (snd (run_state (Handle clone rq) w)) = run_state (Handle clone rq) w"
  by (rule Handle_again)

text \<open>
  C6. A parent that passes verification is intact: its data directory is the recorded one (device and
  inode), it is marked immutable, and its digest and size are those of the tree on disk.
\<close>

theorem verified_parent_intact:
  "wp (verifyParent p) (\<lambda>r v. same w v \<and> (r = None \<longrightarrow> intact p (w_env w) (w_fs w))) w"
  by (rule verifyParent_spec)

theorem verified_parent_intact_witness:
  "intact parent1 env0 fs1"
proof -
  have "fst (run_state (verifyParent parent1) (world0\<lparr>w_fs := fs1\<rparr>)) = None"
    by (simp add: execution cong: execution_cong del: run_state_bind)
  then show ?thesis
    using wp_run [OF verified_parent_intact [of parent1 "world0\<lparr>w_fs := fs1\<rparr>"]] by simp
qed

text \<open>
  C7. The content digest determines the tree: two file trees in which the same parent record is intact
  have the same entries under the data path (paths, modes, kinds and file contents), unless two
  different streams collide under SHA-256.
\<close>

theorem digest_determines_tree:
  assumes "intact p e f" and "intact p e g"
    and "e_sha256 e (digest_stream (tree_items (pr_DataPath p) f)) =
         e_sha256 e (digest_stream (tree_items (pr_DataPath p) g)) \<Longrightarrow>
         digest_stream (tree_items (pr_DataPath p) f) = digest_stream (tree_items (pr_DataPath p) g)"
    and "list_all item_bounded (tree_items (pr_DataPath p) f)"
    and "list_all item_bounded (tree_items (pr_DataPath p) g)"
  shows "tree_items (pr_DataPath p) f = tree_items (pr_DataPath p) g"
  by (rule intact_same_tree [OF assms])

theorem digest_determines_tree_witness:
  "tree_items ''/s/parents/p1/data'' fs1 = tree_items ''/s/parents/p1/data'' (fs_put [''z''] (dir_node 50) fs1)"
proof -
  have run: "fst (run_state (verifyParent parent1) (world0\<lparr>w_fs := f\<rparr>)) = None"
    if "f \<in> {fs1, fs_put [''z''] (dir_node 50) fs1}" for f
    using that by (auto simp: execution cong: execution_cong simp del: run_state_bind)
  have i: "intact parent1 env0 f" if "f \<in> {fs1, fs_put [''z''] (dir_node 50) fs1}" for f
    using wp_run [OF verifyParent_spec [of parent1 "world0\<lparr>w_fs := f\<rparr>"]] run [OF that] by simp
  have t: "tree_items ''/s/parents/p1/data'' f = [TDir ''.'' 448, TFile ''a'' 384 ''x'']"
    if "f \<in> {fs1, fs_put [''z''] (dir_node 50) fs1}" for f
    using that by (auto simp: tree_items_def item_of_def entry_of_def file_bytes_def execution)
  show ?thesis
    using digest_determines_tree [OF i i] t by (simp add: sample_fields item_bounded_def)
qed

section \<open>Durable files\<close>

text \<open>
  C8. Atomicity of a durable write: in every state the write can end in, the target holds what it
  held before or exactly the new data; in between, at a crash, too (every prefix of the run is the
  run whose later system calls fail).
\<close>

theorem durable_write_atomic:
  assumes "target path"
  shows "wp (WriteDurable path data perm) (\<lambda>r v. old_or_new (comps path) data (w_fs w) (w_fs v)) w"
  by (rule WriteDurable_old_or_new [OF assms])

theorem durable_write_atomic_witness:
  "wp (WriteDurable ''/s/x'' (Content ''ab'' []) 384)
     (\<lambda>r v. old_or_new [''s'', ''x''] (Content ''ab'' []) fs0 (w_fs v)) world0"
  using durable_write_atomic [of "''/s/x''" "Content ''ab'' []" 384 world0]
  by (simp add: target_def evaluate)

section \<open>The Unix storage backend\<close>

text \<open>
  C9. A lease the backend grants is ready: the child at the requested path is owned (its device and
  inode and its marker are the recorded ones, below the store root) and the mount is a link to it.
\<close>

theorem backend_lease_ready:
  assumes "comps (rq_MountPath rq) \<notin> subtree (comps (rq_ChildPath rq))"
  shows "wp (Acquire clone None rq) (\<lambda>r v. \<forall>l. fst r = Inr l \<longrightarrow>
     lease_ready l (w_env v) (w_fs v) \<and>
     li_ChildPath (ul_info l) = rq_ChildPath rq \<and> li_MountPath (ul_info l) = rq_MountPath rq) w"
  by (rule Acquire_success [OF assms])

theorem backend_lease_ready_witness:
  "\<exists>l. fst (fst (run_state (Acquire cloneTreeForDaemon None lease_request) world1)) = Inr l \<and>
     lease_ready l env0 (w_fs (snd (run_state (Acquire cloneTreeForDaemon None lease_request) world1)))"
proof -
  have w: "w_env (snd (run_state (Acquire cloneTreeForDaemon None lease_request) world1)) = env0"
    and r: "\<exists>l. fst (fst (run_state (Acquire cloneTreeForDaemon None lease_request) world1)) = Inr l"
    by (simp_all add: execution lease_request_def world1_def cong: execution_cong del: run_state_bind)
  have m: "comps (rq_MountPath lease_request) \<notin> subtree (comps (rq_ChildPath lease_request))"
    by (simp add: lease_request_def evaluate)
  show ?thesis
    using wp_run [OF backend_lease_ready [OF m, of cloneTreeForDaemon world1]] r w by auto
qed



text \<open>
  C11. A lease is recovered from a snapshot only when the snapshot still describes the disk: the child
  is owned and linked at the mount. The recovered lease has the same snapshot (its mode bits are
  masked), and nothing is changed.
\<close>

theorem recovered_lease:
  "wp (RecoverUnixLease s) (\<lambda>r v. same w v \<and> (\<forall>l. r = Inr l \<longrightarrow>
     lease_ready l (w_env w) (w_fs w) \<and>
     SnapshotUnixLease l = s\<lparr>sn_MountMode := sn_MountMode s AND 511\<rparr>)) w"
  by (rule RecoverUnixLease_spec)

theorem recovered_lease_witness:
  "lease_ready lease1 env0 fs2 \<and> SnapshotUnixLease lease1 = snapshot1"
proof -
  have "fst (run_state (RecoverUnixLease snapshot1) world2) = Inr lease1"
    by (simp add: execution snapshot1_def world2_def lease1_def cong: execution_cong del: run_state_bind)
  then show ?thesis
    using wp_run [OF recovered_lease [of snapshot1 world2]]
    by (simp add: world2_def) (simp add: snapshot1_def)
qed

text \<open>
  C12. The guarded removal changes nothing unless the directory at the child path is the owned child:
  below the store root, with the recorded device and inode, holding the marker of the lease.
\<close>

theorem removal_guarded:
  "wp (removeOwnedChild ow) (\<lambda>_ v. same w v \<or> owned_at ow (co_childPath ow) (w_env w) (w_fs w)) w"
  by (rule removeOwnedChild_guarded)



text \<open>
  C14. The admission test is the arithmetic one as long as the sums fit 64 bits: the child is refused
  exactly when the allocated bytes with the reserve would pass the smaller of the two quotas, or the
  free bytes less the reserve would fall below the larger of the two floors.
\<close>

theorem capacity_checked:
  assumes "Validate c = None" and "0 \<le> sint used" and "0 \<le> sint free"
    and "sint used + sint (cf_ChildReserveBytes c) < 2 ^ 63"
  shows "capacity_exceeded c l used free \<longleftrightarrow>
     (if 0 < sint (lm_StoreMaxAllocatedBytes l) then min (sint (lm_StoreMaxAllocatedBytes l)) (sint (cf_QuotaBytes c))
      else sint (cf_QuotaBytes c)) < sint used + sint (cf_ChildReserveBytes c) \<or>
     sint free - sint (cf_ChildReserveBytes c) < max (sint (cf_HostFloorBytes c)) (sint (lm_MinimumHostFreeBytes l))"
  by (rule capacity_exceeded_valid [OF assms])

theorem capacity_checked_witness:
  "\<not> capacity_exceeded config0 (q_Limits request0) 8192 1000000000"
proof -
  have s: "sint (8192 :: i64) = 8192" "sint (1000000000 :: i64) = 1000000000" "sint (4096 :: i64) = 4096"
    "sint (100000000 :: i64) = 100000000"
    by simp_all
  show ?thesis
    using capacity_checked [OF config0_valid, of 8192 1000000000 "q_Limits request0"]
    by (simp add: sample_fields s)
qed

section \<open>Encodings\<close>



section \<open>The broker's store\<close>

text \<open>
  C16. The protected keys are complete: when they can be computed at all, every parent key some record
  refers to is among them, and nothing is left in the quarantine. The computation changes nothing.
\<close>

theorem protected_keys:
  "wp (ProtectedParentKeys s) (\<lambda>r v. same w v \<and> (\<forall>K. r = Inr K \<longrightarrow>
     (\<forall>k. references s (w_fs w) k \<longrightarrow> k \<in> K) \<and> listing (pt_Quarantine s) (w_fs w) = [])) w"
  by (rule ProtectedParentKeys_spec)

theorem protected_keys_witness:
  "fst (run_state (ProtectedParentKeys store0) world3) = Inr {key0} \<and>
   Collect (references store0 fs3) = {key0}"
proof -
  have "fst (run_state (ProtectedParentKeys store0) world3) = Inr {key0}"
    by (simp add: execution world3_def cong: execution_cong del: run_state_bind)
  with wp_run [OF protected_keys [of store0 world3]] lease0_names show ?thesis
    by auto
qed



text \<open>
  C18. A valid parent is found: on a machine whose system calls succeed, resolving the key of a valid
  parent returns it.
\<close>

theorem resolved_parent_valid:
  assumes "valid_parent s (ck_Digest key) m (w_fs w)"
    and "ck_SchemaVersion key = ParentSchemaVersion" and "compatibility (ck_Digest key)"
    and "\<forall>t. \<not> e_fault (w_env w) t"
  shows "fst (run_state (ResolveParent s key) w) =
    Inr \<lparr>res_Status = ''valid'', res_Path = Join [Join [pt_Parents s, ck_Digest key], ''parent.vhdx''],
         res_Metadata = Some m, res_Reason = None\<rparr>"
  by (rule ResolveParent_valid [OF assms])

theorem resolved_parent_valid_witness:
  "\<exists>r. fst (run_state (ResolveParent store0 library_key0) world3) = Inr r \<and> res_Metadata r = Some metadata0"
  using resolved_parent_valid [of store0 library_key0 metadata0 world3] parent0_valid
  by (simp add: library_key0_def key0_compatible env0_fields)

section \<open>Requests to the broker\<close>

text \<open>
  C19. The broker runs a request ID at most once, whatever calls overlap and whoever gives up waiting,
  and every call with that ID that returns gets the response of that one run.
\<close>

theorem request_runs_once:
  assumes "requests_step\<^sup>*\<^sup>* (fresh_requests ids) q" and "i \<noteq> ''''"
  shows "length (runs_of i q) \<le> 1 \<and> (\<forall>t r. in_phase q t i (Returned r) \<longrightarrow> runs_of i q = [r])"
  using reachable_once [OF assms] by blast

theorem request_runs_once_witness:
  "\<exists>q. requests_step\<^sup>*\<^sup>* (fresh_requests [''a'', ''a'']) q \<and>
     rs_threads q = [(''a'', Returned (5 :: nat)), (''a'', Waiting)] \<and> runs_of ''a'' q = [5]"
proof -
  let ?q0 = "fresh_requests [''a'', ''a''] :: nat requests"
  let ?q1 = "set_phase 0 ''a'' Running (?q0\<lparr>rs_inflight := insert ''a'' (rs_inflight ?q0)\<rparr>)"
  let ?q2 = "set_phase 1 ''a'' Waiting ?q1"
  let ?q3 = "set_phase 0 ''a'' (Returned 5) (?q2\<lparr>rs_recorded := (rs_recorded ?q2)(''a'' \<mapsto> 5),
      rs_inflight := rs_inflight ?q2 - {''a''}, rs_runs := (''a'', 5) # rs_runs ?q2\<rparr>)"
  have "handle_step ?q0 ?q1" by (rule Begin) (simp_all add: fresh_requests_def)
  moreover have "handle_step ?q1 ?q2" by (rule Wait) (simp_all add: fresh_requests_def)
  moreover have "handle_step ?q2 ?q3" by (rule Finish) (simp_all add: fresh_requests_def)
  ultimately have "requests_step\<^sup>*\<^sup>* ?q0 ?q3"
    by (meson requests_step_def converse_rtranclp_into_rtranclp r_into_rtranclp)
  moreover have "in_phase ?q3 0 ''a'' (Returned 5)"
    by (simp add: in_phase_def fresh_requests_def)
  ultimately have "runs_of ''a'' ?q3 = [5]" using request_runs_once [of "[''a'', ''a'']" ?q3 "''a''"] by blast
  with \<open>requests_step\<^sup>*\<^sup>* ?q0 ?q3\<close> show ?thesis
    by (intro exI [of _ ?q3]) (simp add: fresh_requests_def)
qed

text \<open>C20. No schedule of calls goes on forever: each step of a call brings it closer to its return.\<close>

theorem requests_terminate: "wf {(q', q). requests_step q q'}"
  by (rule requests_wf)

text \<open>
  C21. No call is left waiting: from every reachable state the calls can go on, without cancelling
  any, until all are back.
\<close>

theorem requests_settle:
  assumes "requests_step\<^sup>*\<^sup>* (fresh_requests ids) q"
  shows "\<exists>q'. handle_step\<^sup>*\<^sup>* q q' \<and> all_back q'"
  by (rule settles [OF reachable_inv [OF assms]])

theorem requests_settle_witness:
  "\<exists>q'. handle_step\<^sup>*\<^sup>* (fresh_requests [''a'', ''b'', ''a''] :: nat requests) q' \<and> all_back q'"
  by (rule requests_settle) (rule rtranclp.rtrancl_refl)

text \<open>
  C22. The broker refines that system: a sequence of calls of \<open>Handle\<close>, one after the other, is one of
  its runs, with the same responses and the same recorded ones.
\<close>

theorem broker_refines_requests:
  assumes "provider n" and "bk_requests w = Map.empty"
  shows "wp (serve n txt caller rqs) (\<lambda>rs v. \<exists>q.
     handle_step\<^sup>*\<^sup>* (fresh_requests (map bq_RequestID rqs)) q \<and> rs_recorded q = bk_requests v \<and>
     rs_threads q = map2 (\<lambda>rq r. (bq_RequestID rq, Returned r)) rqs rs) w"
proof -
  have "settled (fresh_requests (map bq_RequestID rqs)) w"
    using assms(2) by (simp add: settled_def fresh_requests_def)
  from provider.serve_simulated [OF assms(1) this, where past = "[]"] show ?thesis
    by (rule wp_mono) (auto simp: settled_def fresh_requests_def)
qed

theorem broker_refines_requests_witness:
  "wp (serve unsupportedNative (\<lambda>_. '''') ''u'' [release_request0, admit_request0]) (\<lambda>rs v. \<exists>q.
     handle_step\<^sup>*\<^sup>* (fresh_requests [''r1'', ''r2'']) q \<and> rs_recorded q = bk_requests v \<and>
     rs_threads q = map2 (\<lambda>rq r. (bq_RequestID rq, Returned r)) [release_request0, admit_request0] rs) broker0"
  using broker_refines_requests [OF unsupported.provider_axioms, of broker0 "\<lambda>_. ''''" "''u''" "[release_request0, admit_request0]"]
  by (simp add: run)

text \<open>
  C23. The broker answers a used request ID from its memory before it looks at the caller or at the
  request: any caller and any payload get the response of the first call, and nothing happens.
\<close>

theorem broker_replays:
  assumes "provider n" and "bq_RequestID rq' = bq_RequestID rq" and "bq_RequestID rq \<noteq> ''''"
  shows "run_state (BrokerHandle n txt caller' rq') (snd (run_state (BrokerHandle n txt caller rq) w)) =
     run_state (BrokerHandle n txt caller rq) w"
  by (rule provider.replay [OF assms])

theorem broker_replays_witness:
  "bs_OK (fst (run_state (BrokerHandle unsupportedNative (\<lambda>_. '''') ''mallory'' (BrokerNewRequest OperationGC ''r3''))
     (snd (run_state (BrokerHandle unsupportedNative (\<lambda>_. '''') ''u'' (BrokerNewRequest OperationHello ''r3'')) broker0))))"
proof -
  have "bs_OK (fst (run_state (BrokerHandle unsupportedNative (\<lambda>_. '''') ''u'' (BrokerNewRequest OperationHello ''r3'')) broker0))"
    by (simp add: BrokerHandle_def handleLocked_def broker_refusal_def dispatch_def broker_ok_def run
        BrokerNewRequest_def zero_broker_request_def zero_broker_response_def EqualFold_def) (simp add: evaluate)
  then show ?thesis
    using broker_replays [OF unsupported.provider_axioms, of "BrokerNewRequest OperationGC ''r3''" "BrokerNewRequest OperationHello ''r3''"]
    by (simp add: BrokerNewRequest_def zero_broker_request_def)
qed

section \<open>The broker's leases and its collection\<close>

text \<open>
  C24. Collection is confined: it removes only parents of the store, never one that a lease, a pending
  transaction, a retained record or a held child refers to; a dry run removes nothing.
\<close>

theorem broker_collection:
  assumes "measuring n" and "well_placed (bk_store w) u"
  shows "wp (broker_gc n rq) (\<lambda>r v. differs (w_fs w) (w_fs v) \<subseteq> collectable u (used_keys n w) \<and>
     (bq_DryRun rq \<longrightarrow> w_fs v = w_fs w)) w"
  by (rule wp_mono [OF measuring.gc_spec [OF assms]]) (auto simp: writes_def same_def)

theorem broker_collection_witness:
  "lookup (w_fs (snd (run_state (broker_gc (plainNative statfs_free) admit_request0) broker0)))
     [''r'', ''u'', ''parents'', key0, ''parent.vhdx''] = Some (file_node (Content ''x'' []) 14)"
proof -
  let ?q = "[''r'', ''u'', ''parents'', key0, ''parent.vhdx'']"
  let ?v = "snd (run_state (broker_gc (plainNative statfs_free) admit_request0) broker0)"
  have "?q \<notin> collectable [''r'', ''u''] (used_keys (plainNative statfs_free) broker0)"
    using lease0_names by (auto simp: collectable_def used_keys_def)
  then have "?q \<notin> differs fs3 (w_fs ?v)"
    using wp_run [OF broker_collection [OF plain.measuring_axioms, of broker0 "[''r'', ''u'']" admit_request0]]
    by auto
  then have "lookup (w_fs ?v) ?q = lookup fs3 ?q"
    by (simp add: differs_def)
  then show ?thesis by (simp add: run)
qed



text \<open>
  C26. A workspace is removed only when its owner file names the lease and it holds no link, and then
  nothing outside it changes; when the removal reports success, the workspace is gone.
\<close>

theorem workspace_removal_guarded:
  "wp (cleanupOwnedWorkspace c j) (\<lambda>r v.
     (w_fs v = w_fs w \<or> owned c j (w_fs w) \<and> differs (w_fs w) (w_fs v) \<subseteq> subtree (comps (jn_WorkspacePath j)) \<and>
        (\<forall>q n. prefix (comps (jn_WorkspacePath j)) q \<longrightarrow> list_all proper q \<longrightarrow>
           lookup (w_fs w) q = Some n \<longrightarrow> \<not> is_link n)) \<and>
     (r = None \<longrightarrow> jn_WorkspaceID j = '''' \<or> jn_WorkspacePath j = '''' \<or>
        lookup (w_fs v) (comps (jn_WorkspacePath j)) = None)) w"
  by (rule wp_mono [OF cleanup_spec]) (auto simp: writes_def)

theorem workspace_removal_guarded_witness:
  "w_fs (snd (run_state (cleanupOwnedWorkspace broker_config0
     (lease0\<lparr>jn_WorkspaceID := ''w1'', jn_WorkspacePath := ''/w/w1'', jn_MountPath := ''/w/w1/Library''\<rparr>)) world0)) = fs0"
proof -
  let ?j = "lease0\<lparr>jn_WorkspaceID := ''w1'', jn_WorkspacePath := ''/w/w1'', jn_MountPath := ''/w/w1/Library''\<rparr>"
  have "workspaceMount broker_config0 ''w1'' = Inr (''/w/w1'', ''/w/w1/Library'')"
    by (simp add: workspaceMount_def config_fields) (simp add: evaluate)
  then have "\<not> owned broker_config0 ?j fs0"
    by (simp add: owned_def broker_workspaceOwnerFile_def read_as_def fs_read_def follow_def) (simp add: execution)
  then show ?thesis
    using wp_run [OF workspace_removal_guarded [of broker_config0 ?j world0]] by (simp add: world0_def)
qed



text \<open>
  C28. A release that succeeds ends the lease: it was held and recorded, it is no longer held, and its
  journal and its workspace are gone; or, when the child is retained, the journal says so and the
  retained record is there.
\<close>

theorem broker_release_ends:
  assumes "measuring n" and "well_placed (bk_store w) u"
  shows "wp (broker_release n rq) (\<lambda>r v. bs_OK r \<longrightarrow> (\<exists>h j.
     map_of (bk_children w) (bq_LeaseID rq) = Some h \<and>
     lease_at (bk_store w) (bq_LeaseID rq) (w_fs w) = Inr j \<and>
     map_of (bk_children v) (bq_LeaseID rq) = None \<and> released u (bq_RetainChild rq) j (w_fs v))) w"
  by (rule measuring.broker_release_spec [OF assms])

theorem broker_release_ends_witness:
  "lookup (w_fs (snd (run_state (broker_release blindNative release_request0) broker0)))
     [''r'', ''u'', ''leases'', ''l1.json''] = None"
proof -
  have "bs_OK (fst (run_state (broker_release blindNative release_request0) broker0))"
    by (simp add: execution broker0_def broker_ok_def zero_broker_response_def cong: execution_cong del: run_state_bind)
  with wp_run [OF broker_release_ends [OF blind.measuring_axioms, of broker0 "[''r'', ''u'']" release_request0]]
  obtain j where j: "lease_at store0 ''l1'' fs3 = Inr j"
    "released [''r'', ''u''] False j (w_fs (snd (run_state (broker_release blindNative release_request0) broker0)))"
    by (auto simp: release_fields)
  then have "jn_LeaseID j = ''l1''" using blind.lease_at_Inr by blast
  with j(2) show ?thesis by (simp add: released_def lease_file_def)
qed



text \<open>
  C30. The owner file the broker writes into a workspace is the one it later recognises: when no call
  fails, what was written is found, decoded and matched against the journal.
\<close>

theorem owner_recognised:
  assumes "IsAbs (bc_WorkspaceRoot c)" and "jn_WorkspaceID j \<noteq> ''''" and "jn_WorkspacePath j \<noteq> ''''"
    and "\<forall>t. \<not> e_fault (w_env w) t"
  shows "wp (do { a \<leftarrow> writeWorkspaceOwner c j; b \<leftarrow> readWorkspaceOwner c j; ret (a, b) })
     (\<lambda>(a, b) _. a = None \<longrightarrow>
        b = Inr (Join [Join [bc_WorkspaceRoot c, jn_WorkspaceID j], broker_workspaceOwnerFile])) w"
  by (rule owner_round_trip) (use assms in simp_all)

theorem owner_recognised_witness:
  "fst (run_state (do { a \<leftarrow> writeWorkspaceOwner broker_config0 owned_lease0;
       b \<leftarrow> readWorkspaceOwner broker_config0 owned_lease0; ret (a, b) }) world0) =
     (None, Inr ''/w/w1/.testplay-vhdx-workspace-owner.json'')"
proof -
  let ?m = "do { a \<leftarrow> writeWorkspaceOwner broker_config0 owned_lease0;
     b \<leftarrow> readWorkspaceOwner broker_config0 owned_lease0; ret (a, b) }"
  have "fst (run_state (writeWorkspaceOwner broker_config0 owned_lease0) world0) = None"
    by (simp add: execution cong: execution_cong del: run_state_bind)
  then have "fst (fst (run_state ?m world0)) = None"
    by (auto split: prod.splits)
  moreover have "Join [Join [''/w'', ''w1''], broker_workspaceOwnerFile] = ''/w/w1/.testplay-vhdx-workspace-owner.json''"
    by code_simp
  ultimately show ?thesis
    using wp_run [OF owner_recognised [of broker_config0 owned_lease0 world0]]
    by (auto simp: config_fields owned_lease_fields world0_def env0_fields IsAbs_def split: prod.splits)
qed

section \<open>Paths and clones\<close>

text \<open>
  C31. The textual containment test of the daemon (\<open>filepath.Rel\<close> and its prefix) is containment of
  paths: the components of the root are a proper prefix of those of the path.
\<close>

theorem path_containment:
  assumes "IsAbs root" and "IsAbs path"
  shows "pathWithin root path \<longleftrightarrow> strict_prefix (comps root) (comps path)"
  by (rule pathWithin_iff [OF assms])

theorem path_containment_witness:
  "pathWithin ''/a'' ''/a//b/./c'' \<and> \<not> pathWithin ''/a'' ''/a/../b''"
proof -
  have "comps ''/a'' = [''a'']" "comps ''/a//b/./c'' = [''a'', ''b'', ''c'']" "comps ''/a/../b'' = [''b'']"
    by code_simp+
  then show ?thesis
    using path_containment [of "''/a''" "''/a//b/./c''"] path_containment [of "''/a''" "''/a/../b''"]
    by (simp add: strict_prefix_def)
qed

section \<open>The parallel copy\<close>



text \<open>
  C33. No schedule of the copy goes on forever: every step of the walk, of a worker and of the
  cancellation brings the pool closer to its end.
\<close>

theorem parallel_copy_ends: "wf {(s', s). pool_step (copy_visit src dst) copyFile s s'}"
  by (rule pool_wf)

text \<open>
  C34. A copy can hang: when more than three times as many files as there are workers cannot be read (here
  sockets, on a machine without faults), there is a schedule after which the walk waits for room in the
  channel, every worker has left with an error, and nobody returns.
\<close>

theorem parallel_copy_hangs:
  assumes "CopyDirParallel_start src dst workers w = Inr p" and "pl_entries p = r # files"
    and "run_state (copy_visit src dst False None r) (pl_world p) = (Inr None, v)"
    and "sockets (set files) v" and "\<And>q. q \<in> set files \<Longrightarrow> list_all proper q \<and> relative_to src q \<noteq> None"
    and "3 * length (pl_workers p) < length files"
  shows "\<exists>s. (copy_step (copy_visit src dst) copyFile)\<^sup>*\<^sup>* p s \<and> hangs (copy_visit src dst) copyFile s"
  by (rule copy_hangs [OF assms])

theorem parallel_copy_hangs_witness:
  "\<exists>p s. CopyDirParallel_start ''/q'' ''/d'' 1 world6 = Inr p \<and>
     (copy_step (copy_visit ''/q'' ''/d'') copyFile)\<^sup>*\<^sup>* p s \<and> hangs (copy_visit ''/q'' ''/d'') copyFile s"
proof -
  let ?files = "[[''q'', ''a''], [''q'', ''b''], [''q'', ''c''], [''q'', ''d'']]"
  have "fst (run_state (walk_program ''/q'' ''/d'' [''q''] ?files) world6) =
      (None, [''q''] # ?files, Inr None, replicate 4 (Some KSpecial), env0)"
    by (simp add: execution world6_def cong: execution_cong del: run_state_bind)
  from walk_started [OF this] obtain p v
    where p: "CopyDirParallel_start ''/q'' ''/d'' 1 world6 = Inr p" "pl_entries p = [''q''] # ?files"
      "length (pl_workers p) = 1" "run_state (copy_visit ''/q'' ''/d'' False None [''q'']) (pl_world p) = (Inr None, v)"
      "map (\<lambda>q. map_option n_kind (lookup (w_fs v) q)) ?files = replicate 4 (Some KSpecial)" "w_env v = env0"
    by blast
  have v: "sockets (set ?files) v"
    using p(5,6) by (auto simp: sockets_def special_at_def numeral_eq_Suc env0_def)
  have q: "list_all proper q \<and> relative_to ''/q'' q \<noteq> None" if "q \<in> set ?files" for q
    using that by (auto simp: execution)
  show ?thesis using parallel_copy_hangs [OF p(1,2,4) v q] p(1,3) by fastforce
qed



section \<open>Keys, digests and local packages\<close>



text \<open>
  C37. A computed compatibility key is the one of the project: its fields are the hashes of the manifest,
  of the lock file and of the settings tree, the Unity version and the disk geometry, its digest is the
  hash of its JSON form without the digest, it is a key the store accepts, and computing it changes
  nothing.
\<close>

theorem compatibility_key_computed:
  assumes "run_state (ComputeCompatibilityKeyWithLocalPackages cwd goos goarch project unity local) w = (Inr k, v)"
    and "\<And>x. length (e_sha256 (w_env w) x) = 32"
  shows "w_fs v = w_fs w \<and> compatibility_key_of goos goarch project unity local (w_fs w) (w_env w) k \<and>
     ck_SchemaVersion k = ParentSchemaVersion \<and> compatibility (ck_Digest k)"
proof -
  have "reads_as w (compatibility_key_of goos goarch project unity local (w_fs w) (w_env w)) (Inr k) v"
    by (rule wp_runD [OF readingD [OF reading_CompatibilityKey] assms(1)])
  then show ?thesis using computed_key_accepted assms(2) by (auto simp: reads_as_def)
qed

theorem compatibility_key_computed_witness:
  "\<exists>k v. run_state (ComputeCompatibilityKeyWithLocalPackages ''/'' ''linux'' ''amd64'' ''/p'' ''/unity'' '''')
       (machine fs6) = (Inr k, v) \<and> lk_UnityVersion (ck_LibraryKey k) = ''6000.0'' \<and> compatibility (ck_Digest k)"
proof -
  let ?run = "run_state (ComputeCompatibilityKeyWithLocalPackages ''/'' ''linux'' ''amd64'' ''/p'' ''/unity'' '''') (machine fs6)"
  have "\<exists>k. fst ?run = Inr k"
    by (simp add: execution cong: execution_cong del: run_state_bind)
  then obtain k v where k: "?run = (Inr k, v)" by (metis prod.collapse)
  have "bytes_at fs6 (Join [''/p'', ''ProjectSettings'', ''ProjectVersion.txt'']) = ''m_EditorVersion:6000.0''"
    by (simp add: bytes_at_def execution)
  then show ?thesis
    using compatibility_key_computed [OF k] k
    by (auto simp: compatibility_key_of_def library_key_of_def version0 env0_def)
qed



text \<open>
  C39. The digest of local packages depends on their names and contents only, not on where they are: two
  resolutions have the same digest exactly if they have the same packages with the same content digests,
  unless the hash collides on the two texts.
\<close>

theorem package_digest_content:
  assumes "run_state (ResolveLocalPackageOverrides c) w = (Inr r, v)"
    and "run_state (ResolveLocalPackageOverrides c') w' = (Inr r', v')"
    and "w_env w' = w_env w" and "c \<noteq> []" and "c' \<noteq> []"
    and "e_sha256 (w_env w) (aggregate_text (package_contents (fst r))) =
        e_sha256 (w_env w) (aggregate_text (package_contents (fst r'))) \<Longrightarrow>
      aggregate_text (package_contents (fst r)) = aggregate_text (package_contents (fst r'))"
  shows "snd r = snd r' \<longleftrightarrow> package_contents (fst r) = package_contents (fst r')"
proof (rule overrides_digest [OF _ _ assms(4-6)])
  show "resolved_overrides c (w_fs w) (w_env w) r"
    using wp_runD [OF readingD [OF reading_overrides] assms(1)] by (simp add: reads_as_def)
  show "resolved_overrides c' (w_fs w') (w_env w) r'"
    using wp_runD [OF readingD [OF reading_overrides] assms(2)] assms(3) by (simp add: reads_as_def)
qed

theorem package_digest_content_witness:
  "\<exists>r v r' v'. run_state (ResolveLocalPackageOverrides [(''a'', ''/k'')]) (machine fs9) = (Inr r, v) \<and>
     run_state (ResolveLocalPackageOverrides [(''a'', ''/l'')]) (machine fs9) = (Inr r', v') \<and>
     fst r \<noteq> fst r' \<and> snd r = snd r'"
proof -
  let ?p = "\<lambda>path. run_state (ResolveLocalPackageOverrides [(''a'', path)]) (machine fs9)"
  have "\<exists>d n s g. fst (?p ''/k'') = Inr ([\<lparr>lp_Name = ''a'', lp_SourcePath = ''/k'', lp_Version = ''1'',
        lp_ContentDigest = hashBytes env0 d, lp_FileCount = n, lp_LogicalBytes = s\<rparr>], g) \<and>
      fst (?p ''/l'') = Inr ([\<lparr>lp_Name = ''a'', lp_SourcePath = ''/l'', lp_Version = ''1'',
        lp_ContentDigest = hashBytes env0 d, lp_FileCount = n, lp_LogicalBytes = s\<rparr>], g)"
    by (simp add: execution cong: execution_cong del: run_state_bind) blast
  then obtain d n s g d' n' s' g' v v'
    where r: "?p ''/k'' = (Inr ([\<lparr>lp_Name = ''a'', lp_SourcePath = ''/k'', lp_Version = ''1'',
        lp_ContentDigest = hashBytes env0 d, lp_FileCount = n, lp_LogicalBytes = s\<rparr>], g), v)"
      and r': "?p ''/l'' = (Inr ([\<lparr>lp_Name = ''a'', lp_SourcePath = ''/l'', lp_Version = ''1'',
        lp_ContentDigest = hashBytes env0 d, lp_FileCount = n, lp_LogicalBytes = s\<rparr>], g'), v')"
    by (metis prod.collapse)
  show ?thesis
    using package_digest_content [OF r r'] r r' by (auto simp: package_contents_def)
qed



section \<open>Further facts\<close>

text \<open>
  The rename under every durable write is tried a bounded number of times: at most 100 system
  calls, and it reports success only if a rename took place.
\<close>

theorem rename_bounded:
  "wp (Rename a b) (\<lambda>r v. w_tick v \<le> w_tick w + renameAttempts \<and>
     (r = None \<longrightarrow> fs_rename (comps a) (comps b) (w_fs w) = Inr (w_fs v)) \<and>
     (r \<noteq> None \<longrightarrow> w_fs v = w_fs w)) w"
  unfolding Rename_def
proof (rule wp_conj)
  have "wp (rename_loop n e a b) (\<lambda>r v. w_tick v \<le> w_tick u + n) u" for n e and u :: "'z world_scheme"
  proof (induction n arbitrary: e u)
    case (Suc n)
    have "wp (os_Rename a b) (\<lambda>_ v. w_tick v = Suc (w_tick u)) u"
      by (auto simp: os_Rename_def wp_simps split: sum.split)
    then show ?case
      unfolding rename_loop.simps
      by (rule wp_checkI) (auto simp: wp_ret intro!: wp_mono [OF Suc.IH])
  qed (simp add: wp_ret)
  then show "wp (rename_loop renameAttempts None a b) (\<lambda>r v. w_tick v \<le> w_tick w + renameAttempts) w" .
qed (rule wp_mono [OF rename_loop_spec], auto simp: renameAttempts_def)

theorem rename_bounded_witness:
  "fs_rename [''s'', ''leases''] [''s'', ''x''] fs0 = Inr (w_fs (snd (run_state (Rename ''/s/leases'' ''/s/x'') world0)))"
proof -
  have "fst (run_state (Rename ''/s/leases'' ''/s/x'') world0) = None"
    by (simp add: execution cong: execution_cong del: run_state_bind)
  then show ?thesis
    using wp_run [OF rename_bounded [of "''/s/leases''" "''/s/x''" world0]] by (simp add: comps_def IsAbs_def)
qed

text \<open>
  Releasing again a released lease does nothing: no system call, and the same metrics.
\<close>

theorem release_idempotent:
  assumes "ul_released l"
  shows "Release bg pr d l = ret ((ul_metrics l, None), l)"
  by (rule Release_again [OF assms])

theorem release_idempotent_witness:
  "run_state (Release False None True (lease1\<lparr>ul_released := True\<rparr>)) world2 =
     (((no_metrics, None), lease1\<lparr>ul_released := True\<rparr>), world2)"
  by (simp add: release_idempotent [of "lease1\<lparr>ul_released := True\<rparr>"]) (simp add: lease1_def)

text \<open>
  So do the other records of the daemon: parents, pending transactions, receipts and, when the
  version fits, workspace owner files.
\<close>

theorem record_round_trips:
  assumes "- (2 ^ 63) \<le> wo_SchemaVersion w" and "wo_SchemaVersion w < 2 ^ 63"
  shows "dec_parent (enc_parent p) = Some p \<and> dec_pending (enc_pending t) = Some t \<and>
     dec_receipt (enc_receipt r) = Some r \<and> dec_owner (enc_owner w) = Some w"
  by (intro conjI dec_enc_parent dec_enc_pending dec_enc_receipt dec_enc_owner [OF assms])

theorem record_round_trips_witness: "dec_parent (enc_parent parent1) = Some parent1"
  using record_round_trips [of
      "\<lparr>wo_SchemaVersion = 2, wo_LeaseID = ''l1'', wo_WorkspaceID = ''w1'', wo_WorkspacePath = ''/w/w1'',
        wo_MountPath = ''/w/w1/Library'', wo_OwnerToken = ''o1''\<rparr>" parent1] by simp

text \<open>
  The dot names are not refused: the user ID \<open>..\<close> makes a store beside the root instead of below it.
\<close>

theorem store_paths_escape:
  "case NewPaths ''/a/r'' ''..'' of Inl e \<Rightarrow> False
   | Inr s \<Rightarrow> pt_Root s = ''/a/r'' \<and> pt_UserRoot s = ''/a'' \<and> pt_Parents s = ''/a/parents''"
  by code_simp

text \<open>
  Garbage collection keeps what is in use: a parent that a lease, a pending transaction or a
  retained record refers to when the protected keys are computed is not touched by the removal.
\<close>

theorem collection_keeps_references:
  assumes "well_placed s u" and "references s (w_fs w) k" and "q \<in> subtree (u @ [''parents'', k])"
  shows "wp (attempt (ProtectedParentKeys s) (\<lambda>e. ret (Inl e)) (RemoveParentIfUnused s key))
     (\<lambda>r v. lookup (w_fs v) q = lookup (w_fs w) q) w"
  by (rule collect_keeps_references [OF assms])

theorem collection_keeps_references_witness:
  "wp (attempt (ProtectedParentKeys store0) (\<lambda>e. ret (Inl e)) (RemoveParentIfUnused store0 key0))
     (\<lambda>r v. lookup (w_fs v) [''r'', ''u'', ''parents'', key0, ''parent.vhdx''] =
            Some (file_node (Content ''x'' []) 14)) world3"
  using collection_keeps_references [OF store0_placed, of world3 key0
      "[''r'', ''u'', ''parents'', key0, ''parent.vhdx'']" key0] lease0_names
  by (simp add: subtree_def run)

text \<open>
  A lease record is removed only by its owner: \<open>RemoveLease\<close> changes nothing unless the record on
  disk has the caller's token, child and parent, and then removes that one file.
\<close>

theorem lease_removal_guarded:
  "wp (RemoveLease s j) (\<lambda>r v. w_fs v = w_fs w \<or>
     (\<exists>a. lease_at s (jn_LeaseID j) (w_fs w) = Inr a \<and> jn_OwnershipToken a = jn_OwnershipToken j \<and>
        jn_ChildPath a = jn_ChildPath j \<and> jn_ParentKey a = jn_ParentKey j \<and>
        fs_remove (comps (Join [pt_Leases s, jn_LeaseID j @ ''.json''])) (w_fs w) = Inr (w_fs v))) w"
  by (rule RemoveLease_guarded)

text \<open>The request ID the client makes up is one the daemon accepts.\<close>

theorem fresh_request_identifier:
  assumes "operation \<in> set [OperationParentBegin, OperationParentCommit, OperationParentAbort,
      OperationAcquire, OperationStatus, OperationRelease]"
    and "length (dec_int now) + length (dec_nat seq) \<le> 100"
  shows "is_identifier (q_RequestID (NewRequest now seq operation ''''))"
  by (rule NewRequest_identifier [OF refl assms])

theorem fresh_request_identifier_witness:
  "is_identifier (q_RequestID (NewRequest 1700000000 12 OperationStatus ''''))"
proof (rule fresh_request_identifier)
  show "length (dec_int 1700000000) + length (dec_nat 12) \<le> 100"
    by (simp add: dec_int_def dec_nat.simps)
qed simp

text \<open>
  A client call reports success exactly when the transport did and the response says so, and then
  returns that response.
\<close>

theorem client_call:
  "run_state (call (Some c) request) w = ((resp, None), w') \<longleftrightarrow>
   run_state (c request) w = ((resp, None), w') \<and> rs_OK resp"
  by (rule call_success)

text \<open>The ID of every parent, made from a hash of provider and key, is an identifier.\<close>

theorem parent_identifier: "is_identifier (parentID sha prov key)"
  by (rule parentID_identifier)

text \<open>A request ID used before with another payload is refused and changes nothing.\<close>

theorem reused_request_id:
  assumes "m_requests w (q_RequestID rq) = Some (old, r)" and "old \<noteq> rq"
  shows "snd (run_state (Handle clone rq) w) = w \<and> \<not> rs_OK (fst (run_state (Handle clone rq) w))"
  using Handle_other_payload [OF assms] by blast

theorem reused_request_id_witness:
  "\<not> rs_OK (fst (run_state (Handle cloneTreeForDaemon (request0\<lparr>q_ParentID := ''p2''\<rparr>))
     (daemon0\<lparr>m_requests := [''r1'' \<mapsto> (request0, zero_response)]\<rparr>)))"
  using reused_request_id [of "daemon0\<lparr>m_requests := [''r1'' \<mapsto> (request0, zero_response)]\<rparr>"
      "request0\<lparr>q_ParentID := ''p2''\<rparr>" request0 zero_response cloneTreeForDaemon]
  by (simp add: request0_def)

text \<open>
  The request history is append-only: a recorded request keeps its response for the life of the
  daemon, whatever is handled later.
\<close>

theorem history_kept:
  assumes "Validate c = None" and "cloner clone" and "daemon_inv c w" and "m_requests w i = Some x"
  shows "m_requests (snd (run_state (Handle clone rq) w)) i = Some x"
  by (rule Handle_history [OF assms])

theorem history_kept_witness:
  "m_requests (snd (run_state (Handle cloneTreeForDaemon request0)
     (daemon0\<lparr>m_requests := [''r0'' \<mapsto> (request0, zero_response)]\<rparr>))) ''r0'' = Some (request0, zero_response)"
  by (rule history_kept [of config0]) (simp_all add: daemon_inv_def)

text \<open>A durable write that reports success has stored the data with the requested mode.\<close>

theorem durable_write_stores:
  assumes "target path"
  shows "wp (WriteDurable path data perm) (\<lambda>r v. r = None \<longrightarrow> holds_file (comps path) data perm (w_fs v)) w"
  by (rule WriteDurable_success [OF assms])

theorem durable_write_stores_witness:
  "holds_file [''s'', ''x''] (Content ''ab'' []) 384
     (w_fs (snd (run_state (WriteDurable ''/s/x'' (Content ''ab'' []) 384) world0)))"
proof -
  have "fst (run_state (WriteDurable ''/s/x'' (Content ''ab'' []) 384) world0) = None"
    by (simp add: execution cong: execution_cong del: run_state_bind)
  moreover have "target ''/s/x''"
    by (simp add: target_def evaluate)
  ultimately show ?thesis
    using wp_run [OF durable_write_stores [of "''/s/x''" "Content ''ab'' []" 384 world0]]
    by (simp add: comps_def IsAbs_def)
qed

text \<open>
  An exclusive write never replaces anything: on an existing path it fails and changes nothing,
  and when it succeeds the path was free and holds the data.
\<close>

theorem exclusive_write:
  "wp (WriteExclusiveDurable path data perm) (\<lambda>r v.
     (lookup (w_fs w) (comps path) \<noteq> None \<longrightarrow> r \<noteq> None \<and> w_fs v = w_fs w) \<and>
     (r = None \<longrightarrow> lookup (w_fs w) (comps path) = None \<and> holds_file (comps path) data perm (w_fs v))) w"
proof (rule wp_conj)
  show "wp (WriteExclusiveDurable path data perm)
     (\<lambda>r v. lookup (w_fs w) (comps path) \<noteq> None \<longrightarrow> r \<noteq> None \<and> w_fs v = w_fs w) w"
    by (cases "lookup (w_fs w) (comps path) = None")
      (auto intro: wpI wp_mono [OF WriteExclusiveDurable_existing])
qed (rule WriteExclusiveDurable_success)

theorem exclusive_write_witness:
  "holds_file [''s'', ''x''] (Content ''ab'' []) 384
     (w_fs (snd (run_state (WriteExclusiveDurable ''/s/x'' (Content ''ab'' []) 384) world0)))"
proof -
  have "fst (run_state (WriteExclusiveDurable ''/s/x'' (Content ''ab'' []) 384) world0) = None"
    by (simp add: execution cong: execution_cong del: run_state_bind)
  then show ?thesis
    using wp_run [OF exclusive_write [of "''/s/x''" "Content ''ab'' []" 384 world0]]
    by (simp add: comps_def IsAbs_def)
qed

text \<open>
  The sum is not checked: when the allocated bytes with the reserve pass the largest 64-bit value,
  the quota does not refuse the child, and only the floor counts.
\<close>

theorem capacity_wraps:
  assumes "Validate c = None" and "2 ^ 63 \<le> sint used + sint (cf_ChildReserveBytes c)"
  shows "capacity_exceeded c l used free \<longleftrightarrow> free - cf_ChildReserveBytes c <s effective_floor c l"
  by (rule capacity_exceeded_wraps [OF assms])

theorem capacity_wraps_witness:
  "\<not> capacity_exceeded (config0\<lparr>cf_ChildReserveBytes := 2 ^ 62\<rparr>) (q_Limits request0) (2 ^ 62) (2 ^ 62)"
proof -
  have "Validate (config0\<lparr>cf_ChildReserveBytes := 2 ^ 62\<rparr>) = None"
    by (simp add: Validate_def config0_def configSchema_def word_sle_eq word_sless_alt IsAbs_def)
  then show ?thesis
    using capacity_wraps [of "config0\<lparr>cf_ChildReserveBytes := 2 ^ 62\<rparr>" "2 ^ 62" "q_Limits request0" "2 ^ 62"]
    by (simp add: sample_fields effective_floor_def word_sless_alt)
qed

text \<open>
  The directories of a store lie in the directory of the user below the root, each under its own
  name, when the user ID is not a dot name.
\<close>

theorem store_paths:
  assumes "NewPaths root sid = Inr s" and "sid \<notin> {''.'', ''..''}"
  shows "well_placed s (comps root @ [sid]) \<and> proper sid"
  using NewPaths_layout [OF assms] by blast

theorem store_paths_witness: "well_placed store0 [''r'', ''u'']"
  using store_paths [OF NewPaths_store0] by (simp add: comps_def IsAbs_def)

text \<open>
  A lease record reads back as it was written, with the schema version and the time stamps the
  store sets; the read may only fail.
\<close>

theorem store_lease_round_trip:
  assumes "well_placed s u" and "go_int (jn_ClientPID j)" and "go_int (jn_UnityPID j)"
  shows "wp (do { a \<leftarrow> Store_WriteLease s j; b \<leftarrow> Store_ReadLease s (jn_LeaseID j); ret (a, b) })
     (\<lambda>(a, b) _. a = None \<longrightarrow> b = Inl EIO \<or> (\<exists>t. b = Inr (stamped t j))) w"
  by (rule WriteLease_ReadLease [OF assms])

theorem store_lease_round_trip_witness:
  "\<exists>t. fst (run_state (do { a \<leftarrow> Store_WriteLease store0 lease0; b \<leftarrow> Store_ReadLease store0 ''l1''; ret (a, b) })
     world3) = (None, Inr (stamped t lease0))"
proof -
  let ?m = "do { a \<leftarrow> Store_WriteLease store0 lease0; b \<leftarrow> Store_ReadLease store0 ''l1''; ret (a, b) }"
  have "fst (run_state ?m world3) = (None, Inr (stamped 1009 lease0))"
    by (simp add: execution world3_def stamped_def cong: execution_cong del: run_state_bind)
  then show ?thesis
    using wp_run [OF store_lease_round_trip [of store0 _ lease0 world3]] by (auto simp: lease0_fields go_int0)
qed

text \<open>
  On a platform without a provider the broker refuses every new request but \<open>hello\<close>, and no
  request touches a file or a session.
\<close>

theorem broker_without_provider:
  "wp (BrokerHandle unsupportedNative txt caller rq) (\<lambda>r v. w_fs v = w_fs w \<and> bk_children v = bk_children w \<and>
     bk_pending v = bk_pending w \<and>
     (bk_requests w (bq_RequestID rq) = None \<and> bq_Operation rq \<noteq> OperationHello \<longrightarrow> \<not> bs_OK r)) w"
  by (rule unsupported_spec)

theorem broker_without_provider_witness:
  "\<not> bs_OK (fst (run_state (BrokerHandle unsupportedNative (\<lambda>_. '''') ''u'' release_request0) broker0))"
  using wp_run [OF broker_without_provider [of "\<lambda>_. ''''" "''u''" release_request0 broker0]]
  by (simp add: run broker_operations)

text \<open>
  The macOS clone writes only at and below its destination, whatever the source holds and whatever
  fails, links included.
\<close>

theorem clone_framed:
  assumes "IsAbs source" and "IsAbs destination"
  shows "keeps (writes (subtree (comps destination))) (cloneTreeForDaemon source destination)"
  by (rule cloneTreeForDaemon_frame [OF assms])

theorem clone_framed_witness:
  "keeps (writes (subtree [''s'', ''c''])) (cloneTreeForDaemon ''/s/p'' ''/s/c'')"
  using clone_framed [of "''/s/p''" "''/s/c''"] by (simp add: comps_def IsAbs_def)

end
